theory Spec2Isabelle
  imports Complex_Main "HOL-Library.AList" "HOL-Library.Word"
begin

section \<open>Geometry helpers of the position tracker (node-tracker.ts)\<close>

text \<open>
  JavaScript numbers are modelled as real numbers: every coordinate is a finite value and
  arithmetic is exact. The special values NaN and the infinities of the runtime are outside
  this model, except where the code starts an accumulator at an infinity (see \<open>xnum\<close>).
\<close>

record Point =
  px :: real
  py :: real

text \<open>\<open>Math.hypot(a, b)\<close>.\<close>

definition hypot :: "real \<Rightarrow> real \<Rightarrow> real" where
  "hypot a b = sqrt (a * a + b * b)"

definition addPoint :: "Point \<Rightarrow> Point \<Rightarrow> Point" where
  "addPoint a b = \<lparr>px = px a + px b, py = py a + py b\<rparr>"

subsection \<open>pointOnPolyline\<close>

text \<open>The first loop of \<open>pointOnPolyline\<close>: the length of every segment, in order.\<close>

fun segLens :: "Point list \<Rightarrow> real list" where
  "segLens (a # b # ps) = hypot (px b - px a) (py b - py a) # segLens (b # ps)"
| "segLens ps = []"

text \<open>
  The second loop: walk the segments with the accumulated length \<open>acc\<close>; the first segment
  with \<open>acc + len \<ge> target\<close> gives the interpolated point. \<open>None\<close> means that the loop
  ran to its end, where the source falls through to the last point.
\<close>

fun walkSegments :: "Point list \<Rightarrow> real list \<Rightarrow> real \<Rightarrow> real \<Rightarrow> Point option" where
  "walkSegments (a # b # ps) (len # lens) acc target =
     (if acc + len \<ge> target then
        (let localT = (if len = 0 then 0 else (target - acc) / len)
         in Some \<lparr>px = px a + (px b - px a) * localT,
                  py = py a + (py b - py a) * localT\<rparr>)
      else walkSegments (b # ps) lens (acc + len) target)"
| "walkSegments ps lens acc target = None"

definition pointOnPolyline :: "Point list \<Rightarrow> real \<Rightarrow> Point" where
  "pointOnPolyline points t =
     (if length points = 0 then \<lparr>px = 0, py = 0\<rparr>
      else if length points = 1 then points ! 0
      else
        (let clampedT = max 0 (min 1 t);
             lens = segLens points;
             total = foldl (+) 0 lens
         in if total = 0 then points ! 0
            else
              (let target = total * clampedT
               in case walkSegments points lens 0 target of
                    Some p \<Rightarrow> p
                  | None \<Rightarrow> points ! (length points - 1))))"

section \<open>The document: elements and their attributes\<close>

text \<open>
  Elements of the rendered document are referenced, never copied: a node, an edge or a
  group holds references (\<open>elem\<close>) into one shared document, and every write goes to the
  document. Two owners that hold the same reference write to the same element.

  Attribute values are JavaScript strings. A number that the code formats into a string
  (by a template literal or by \<open>String(n)\<close>) is kept as the token \<open>Num n\<close>, standing for
  the runtime's decimal rendering of \<open>n\<close>; every other character is \<open>Ch c\<close>.
\<close>

type_synonym elem = nat

datatype jchar = Ch char | Num real

type_synonym jstring = "jchar list"

definition lit :: "string \<Rightarrow> jstring" where
  "lit s = map Ch s"

record Element =
  tagName :: string
  attrs :: "string \<rightharpoonup> jstring"

type_synonym dom = "elem \<Rightarrow> Element"

definition getAttribute :: "dom \<Rightarrow> elem \<Rightarrow> string \<Rightarrow> jstring option" where
  "getAttribute d el k = attrs (d el) k"

definition hasAttribute :: "dom \<Rightarrow> elem \<Rightarrow> string \<Rightarrow> bool" where
  "hasAttribute d el k = (attrs (d el) k \<noteq> None)"

definition setAttribute :: "dom \<Rightarrow> elem \<Rightarrow> string \<Rightarrow> jstring \<Rightarrow> dom" where
  "setAttribute d el k v = d(el := (d el)\<lparr>attrs := (attrs (d el))(k \<mapsto> v)\<rparr>)"

definition removeAttribute :: "dom \<Rightarrow> elem \<Rightarrow> string \<Rightarrow> dom" where
  "removeAttribute d el k = d(el := (d el)\<lparr>attrs := (attrs (d el))(k := None)\<rparr>)"

text \<open>Truthiness of \<open>getAttribute(..)\<close>: \<open>null\<close> and the empty string are falsy.\<close>

definition truthy :: "jstring option \<Rightarrow> bool" where
  "truthy v = (case v of None \<Rightarrow> False | Some s \<Rightarrow> s \<noteq> [])"

text \<open>\<open>v || ''\<close>.\<close>

definition orEmpty :: "jstring option \<Rightarrow> jstring" where
  "orEmpty v = (case v of None \<Rightarrow> [] | Some s \<Rightarrow> s)"

text \<open>The template literal \<open>translate(${dx}, ${dy})\<close>.\<close>

definition translateStr :: "real \<Rightarrow> real \<Rightarrow> jstring" where
  "translateStr dx dy = lit ''translate('' @ [Num dx] @ lit '', '' @ [Num dy] @ lit '')''"

definition applyTranslate :: "dom \<Rightarrow> elem \<Rightarrow> real \<Rightarrow> real \<Rightarrow> dom" where
  "applyTranslate d element dx dy =
     (if dx = 0 \<and> dy = 0 then
        (if truthy (getAttribute d element ''data-original-transform'')
         then setAttribute d element ''transform''
                (orEmpty (getAttribute d element ''data-original-transform''))
         else removeAttribute d element ''transform'')
      else
        (let d1 = (if \<not> hasAttribute d element ''data-original-transform''
                   then setAttribute d element ''data-original-transform''
                          (orEmpty (getAttribute d element ''transform''))
                   else d);
             originalTransform = orEmpty (getAttribute d1 element ''data-original-transform'');
             translate = translateStr dx dy
         in if originalTransform \<noteq> []
            then setAttribute d1 element ''transform'' (originalTransform @ lit '' '' @ translate)
            else setAttribute d1 element ''transform'' translate))"

section \<open>The scene graph (types.ts)\<close>

text \<open>
  Text read from the document (a label) is a JavaScript string: a sequence of UTF-16
  code units, of which \<open>charCodeAt\<close> reads one. The identifiers that the parser makes
  are ASCII, so they are plain strings.
\<close>

type_synonym ustring = "nat list"

definition ascii :: "string \<Rightarrow> ustring" where
  "ascii s = map of_char s"

text \<open>
  \<open>ParsedNode\<close>; the shape kind (\<open>type\<close>) is left out: the tracker never reads it.
\<close>

record ParsedNode =
  nodeId :: string
  elements :: "elem list"
  nodeX :: real
  nodeY :: real
  width :: real
  height :: real
  nodeLabel :: "ustring option"
  originalX :: real
  originalY :: real

record LabelInfo =
  li_t :: real
  li_offset :: Point
  li_anchor :: Point

datatype Endpoint = Source | Target

record Decoration =
  deco_element :: elem
  deco_endpoint :: Endpoint
  deco_offset :: Point
  deco_anchor :: Point

record ParsedEdge =
  edgeId :: string
  edgeElement :: elem
  points :: "Point list"
  sourceNodeId :: "string option"
  targetNodeId :: "string option"
  sourceOffset :: "Point option"
  targetOffset :: "Point option"
  labelElement :: "elem option"
  labelBackground :: "elem option"
  labelInfo :: "LabelInfo option"
  decorations :: "Decoration list option"
  firstSegmentVertical :: "bool option"
  lastSegmentVertical :: "bool option"

text \<open>
  Node geometry and path points are finite numbers (\<open>real\<close>) throughout. The numbers that
  a group holds, and the numbers computed from them, are JavaScript numbers of any kind:
  \<open>xnum\<close> adds \<open>NaN\<close> and the two infinities to the finite numbers, with the arithmetic,
  the comparisons, \<open>Math.min\<close>, \<open>Math.max\<close>, \<open>isFinite\<close> and \<open>String\<close> of the language. The
  second argument of \<open>xmin\<close> and \<open>xmax\<close> is a coordinate of a node.
\<close>

datatype xnum = NaN | NegInfinity | Finite real | Infinity

fun xmin :: "xnum \<Rightarrow> real \<Rightarrow> xnum" where
  "xmin NaN v = NaN"
| "xmin NegInfinity v = NegInfinity"
| "xmin (Finite a) v = Finite (min a v)"
| "xmin Infinity v = Finite v"

fun xmax :: "xnum \<Rightarrow> real \<Rightarrow> xnum" where
  "xmax NaN v = NaN"
| "xmax NegInfinity v = Finite v"
| "xmax (Finite a) v = Finite (max a v)"
| "xmax Infinity v = Infinity"

fun isFinite :: "xnum \<Rightarrow> bool" where
  "isFinite (Finite a) = True"
| "isFinite v = False"

fun finiteValue :: "xnum \<Rightarrow> real" where
  "finiteValue (Finite a) = a"
| "finiteValue v = 0"

text \<open>\<open>a + b\<close>, \<open>-a\<close> and \<open>a - b\<close>.\<close>

fun xadd :: "xnum \<Rightarrow> xnum \<Rightarrow> xnum" where
  "xadd (Finite a) (Finite b) = Finite (a + b)"
| "xadd NaN b = NaN"
| "xadd a NaN = NaN"
| "xadd Infinity NegInfinity = NaN"
| "xadd NegInfinity Infinity = NaN"
| "xadd Infinity b = Infinity"
| "xadd a Infinity = Infinity"
| "xadd NegInfinity b = NegInfinity"
| "xadd a NegInfinity = NegInfinity"

fun xneg :: "xnum \<Rightarrow> xnum" where
  "xneg NaN = NaN"
| "xneg NegInfinity = Infinity"
| "xneg (Finite a) = Finite (- a)"
| "xneg Infinity = NegInfinity"

definition xsub :: "xnum \<Rightarrow> xnum \<Rightarrow> xnum" where
  "xsub a b = xadd a (xneg b)"

text \<open>\<open>a <= b\<close> and \<open>a > b\<close>; every comparison with \<open>NaN\<close> is false.\<close>

fun xle :: "xnum \<Rightarrow> xnum \<Rightarrow> bool" where
  "xle NaN b = False"
| "xle a NaN = False"
| "xle NegInfinity b = True"
| "xle a Infinity = True"
| "xle (Finite a) (Finite b) = (a \<le> b)"
| "xle a b = False"

fun xgt :: "xnum \<Rightarrow> xnum \<Rightarrow> bool" where
  "xgt NaN b = False"
| "xgt a NaN = False"
| "xgt (Finite a) (Finite b) = (a > b)"
| "xgt a Infinity = False"
| "xgt NegInfinity b = False"
| "xgt a b = True"

text \<open>\<open>a / 2\<close>.\<close>

fun xhalf :: "xnum \<Rightarrow> xnum" where
  "xhalf (Finite a) = Finite (a / 2)"
| "xhalf v = v"

text \<open>\<open>String(a)\<close>.\<close>

fun xstr :: "xnum \<Rightarrow> jstring" where
  "xstr NaN = lit ''NaN''"
| "xstr NegInfinity = lit ''-Infinity''"
| "xstr (Finite a) = [Num a]"
| "xstr Infinity = lit ''Infinity''"

record Padding =
  pad_left :: xnum
  pad_top :: xnum
  pad_right :: xnum
  pad_bottom :: xnum

record Offset =
  off_x :: xnum
  off_y :: xnum

record ParsedGroup =
  groupId :: string
  outerRect :: elem
  headerRect :: "elem option"
  groupLabelElement :: "elem option"
  groupOriginalX :: xnum
  groupOriginalY :: xnum
  groupOriginalWidth :: xnum
  groupOriginalHeight :: xnum
  headerHeight :: xnum
  memberNodeIds :: "string list"
  padding :: Padding
  labelOffset :: "Offset option"

section \<open>The position tracker (node-tracker.ts)\<close>

text \<open>
  The two \<open>Map\<close>s of the tracker keep insertion order, so they are association lists;
  \<open>Map.get\<close> is \<open>map_of\<close> and \<open>Map.set\<close> is \<open>AList.update\<close> (replace in place, or append).
  The field \<open>document\<close> is the document that the element references point into.
\<close>

record NodeTracker =
  nodes :: "(string \<times> ParsedNode) list"
  originalPositions :: "(string \<times> Point) list"
  edges :: "ParsedEdge list"
  groups :: "ParsedGroup list"
  document :: dom

text \<open>The constructor.\<close>

definition newTracker :: "ParsedNode list \<Rightarrow> ParsedEdge list \<Rightarrow> ParsedGroup list \<Rightarrow> dom \<Rightarrow> NodeTracker" where
  "newTracker ns es gs d =
     \<lparr>nodes = fold (\<lambda>node m. AList.update (nodeId node) node m) ns [],
      originalPositions =
        fold (\<lambda>node m. AList.update (nodeId node) \<lparr>px = originalX node, py = originalY node\<rparr> m) ns [],
      edges = es, groups = gs, document = d\<rparr>"

definition updateNodePosition :: "NodeTracker \<Rightarrow> string \<Rightarrow> real \<Rightarrow> real \<Rightarrow> bool \<times> NodeTracker" where
  "updateNodePosition s ident x y =
     (case map_of (nodes s) ident of
        None \<Rightarrow> (False, s)
      | Some node \<Rightarrow>
          (True, s\<lparr>nodes := AList.update ident (node\<lparr>nodeX := x, nodeY := y\<rparr>) (nodes s)\<rparr>))"

definition resetAllPositions :: "NodeTracker \<Rightarrow> NodeTracker" where
  "resetAllPositions s =
     fold (\<lambda>(ident, original) s'. snd (updateNodePosition s' ident (px original) (py original)))
       (originalPositions s) s"

definition applyNodeTransform :: "dom \<Rightarrow> ParsedNode \<Rightarrow> dom" where
  "applyNodeTransform d node =
     (let dx = nodeX node - originalX node;
          dy = nodeY node - originalY node
      in if dx = 0 \<and> dy = 0 then
           fold (\<lambda>element d'.
                  if truthy (getAttribute d' element ''data-original-transform'')
                  then setAttribute d' element ''transform''
                         (orEmpty (getAttribute d' element ''data-original-transform''))
                  else removeAttribute d' element ''transform'')
             (elements node) d
         else
           fold (\<lambda>element d'.
                  (let d1 = (if \<not> hasAttribute d' element ''data-original-transform''
                             then setAttribute d' element ''data-original-transform''
                                    (orEmpty (getAttribute d' element ''transform''))
                             else d');
                       originalTransform =
                         orEmpty (getAttribute d1 element ''data-original-transform'');
                       translate = translateStr dx dy
                   in if originalTransform \<noteq> []
                      then setAttribute d1 element ''transform''
                             (originalTransform @ lit '' '' @ translate)
                      else setAttribute d1 element ''transform'' translate))
             (elements node) d)"

definition nodeCenter :: "ParsedNode \<Rightarrow> Point" where
  "nodeCenter node = \<lparr>px = nodeX node + width node / 2, py = nodeY node + height node / 2\<rparr>"

text \<open>
  \<open>if (edge.sourceNodeId)\<close> is false for an absent identifier and for the empty string.
\<close>

definition updateEdgeEndpoints :: "(string \<times> ParsedNode) list \<Rightarrow> ParsedEdge \<Rightarrow> ParsedEdge" where
  "updateEdgeEndpoints ns edge =
     (if length (points edge) < 2 then edge
      else
        (let firstPt = points edge ! 0;
             lastPt = points edge ! (length (points edge) - 1);
             edge1 =
               (case sourceNodeId edge of
                  None \<Rightarrow> edge
                | Some sid \<Rightarrow>
                    if sid = [] then edge
                    else (case map_of ns sid of
                            None \<Rightarrow> edge
                          | Some node \<Rightarrow>
                              (let center = nodeCenter node;
                                   off = (case sourceOffset edge of
                                            None \<Rightarrow> \<lparr>px = px firstPt - px center,
                                                      py = py firstPt - py center\<rparr>
                                          | Some cached \<Rightarrow> cached)
                               in edge\<lparr>sourceOffset := Some off,
                                       points := (points edge)
                                         [0 := \<lparr>px = px center + px off,
                                                py = py center + py off\<rparr>]\<rparr>)));
             edge2 =
               (case targetNodeId edge1 of
                  None \<Rightarrow> edge1
                | Some tid \<Rightarrow>
                    if tid = [] then edge1
                    else (case map_of ns tid of
                            None \<Rightarrow> edge1
                          | Some node \<Rightarrow>
                              (let center = nodeCenter node;
                                   off = (case targetOffset edge1 of
                                            None \<Rightarrow> \<lparr>px = px lastPt - px center,
                                                      py = py lastPt - py center\<rparr>
                                          | Some cached \<Rightarrow> cached)
                               in edge1\<lparr>targetOffset := Some off,
                                        points := (points edge1)
                                          [length (points edge1) - 1 :=
                                             \<lparr>px = px center + px off,
                                              py = py center + py off\<rparr>]\<rparr>)))
         in edge2))"

text \<open>\<open>edge.points.map(p => `${p.x},${p.y}`).join(' ')\<close>.\<close>

fun joinSpace :: "jstring list \<Rightarrow> jstring" where
  "joinSpace [] = []"
| "joinSpace [s] = s"
| "joinSpace (s # ss) = s @ lit '' '' @ joinSpace ss"

definition pointsStr :: "Point list \<Rightarrow> jstring" where
  "pointsStr ps = joinSpace (map (\<lambda>p. [Num (px p)] @ lit '','' @ [Num (py p)]) ps)"

definition updateEdgeElement :: "dom \<Rightarrow> ParsedEdge \<Rightarrow> dom" where
  "updateEdgeElement d edge =
     (let element = edgeElement edge;
          tag = tagName (d element)
      in if tag = ''polyline'' then setAttribute d element ''points'' (pointsStr (points edge))
         else if tag = ''line'' then
           (if length (points edge) \<ge> 2 then
              (let d1 = setAttribute d element ''x1'' [Num (px (points edge ! 0))];
                   d2 = setAttribute d1 element ''y1'' [Num (py (points edge ! 0))];
                   d3 = setAttribute d2 element ''x2''
                          [Num (px (points edge ! (length (points edge) - 1)))];
                   d4 = setAttribute d3 element ''y2''
                          [Num (py (points edge ! (length (points edge) - 1)))]
               in d4)
            else d)
         else d)"

definition updateEdgeLabel :: "dom \<Rightarrow> ParsedEdge \<Rightarrow> dom" where
  "updateEdgeLabel d edge =
     (case labelInfo edge of
        None \<Rightarrow> d
      | Some info \<Rightarrow>
          if labelElement edge = None \<and> labelBackground edge = None then d
          else
            (let desired = addPoint (pointOnPolyline (points edge) (li_t info)) (li_offset info);
                 dx = px desired - px (li_anchor info);
                 dy = py desired - py (li_anchor info);
                 d1 = (case labelBackground edge of
                         Some bg \<Rightarrow> applyTranslate d bg dx dy
                       | None \<Rightarrow> d);
                 d2 = (case labelElement edge of
                         Some le \<Rightarrow> applyTranslate d1 le dx dy
                       | None \<Rightarrow> d1)
             in d2))"

definition updateEdgeDecorations :: "dom \<Rightarrow> ParsedEdge \<Rightarrow> dom" where
  "updateEdgeDecorations d edge =
     (case decorations edge of
        None \<Rightarrow> d
      | Some decos \<Rightarrow>
          if length decos = 0 then d
          else if length (points edge) < 2 then d
          else
            fold (\<lambda>deco d'.
                   (let idx = (if deco_endpoint deco = Source then 0
                               else length (points edge) - 1);
                        ep = points edge ! idx;
                        desired = \<lparr>px = px ep + px (deco_offset deco),
                                   py = py ep + py (deco_offset deco)\<rparr>;
                        dx = px desired - px (deco_anchor deco);
                        dy = py desired - py (deco_anchor deco)
                    in applyTranslate d' (deco_element deco) dx dy))
              decos d)"

text \<open>
  \<open>maintainOrthogonalEdge\<close>. With three or more points the code mutates the point objects
  at index 1 and at index \<open>length - 2\<close> in place (the same object when there are exactly
  three points); the slots of a path hold distinct objects, so this is a list update.
\<close>

definition maintainOrthogonalEdge :: "dom \<Rightarrow> ParsedEdge \<Rightarrow> ParsedEdge" where
  "maintainOrthogonalEdge d edge =
     (let tag = tagName (d (edgeElement edge))
      in if tag \<noteq> ''polyline'' then edge
         else if length (points edge) < 2 then edge
         else if length (points edge) = 2 then
           (let a = points edge ! 0;
                b = points edge ! 1;
                dx = \<bar>px b - px a\<bar>;
                dy = \<bar>py b - py a\<bar>
            in if dx \<ge> 1 \<and> dy \<ge> 1 then
                 (let verticalFirst = (case firstSegmentVertical edge of
                                         Some v \<Rightarrow> v
                                       | None \<Rightarrow> dy \<ge> dx);
                      bend = (if verticalFirst then \<lparr>px = px a, py = py b\<rparr>
                              else \<lparr>px = px b, py = py a\<rparr>)
                  in edge\<lparr>points := [a, bend, b],
                          firstSegmentVertical := Some verticalFirst,
                          lastSegmentVertical := Some (\<not> verticalFirst)\<rparr>)
               else edge)
         else
           (let start = points edge ! 0;
                endPt = points edge ! (length (points edge) - 1);
                firstVertical = firstSegmentVertical edge;
                lastVertical = lastSegmentVertical edge;
                p1 = points edge ! 1;
                pts1 = (if firstVertical = Some True
                        then (points edge)[1 := p1\<lparr>px := px start\<rparr>]
                        else if firstVertical = Some False
                        then (points edge)[1 := p1\<lparr>py := py start\<rparr>]
                        else points edge);
                pN = pts1 ! (length pts1 - 2);
                pts2 = (if lastVertical = Some True
                        then pts1[length pts1 - 2 := pN\<lparr>px := px endPt\<rparr>]
                        else if lastVertical = Some False
                        then pts1[length pts1 - 2 := pN\<lparr>py := py endPt\<rparr>]
                        else pts1)
            in edge\<lparr>points := pts2\<rparr>))"

subsection \<open>simplifyPoints and recomputeEdgeHints\<close>

text \<open>Step 1 of \<open>simplifyPoints\<close>: the loop that drops a point close to the last kept one.\<close>

fun dedupeLoop :: "Point list \<Rightarrow> Point list \<Rightarrow> Point list" where
  "dedupeLoop deduped [] = deduped"
| "dedupeLoop deduped (cur # rest) =
     (let prev = last deduped
      in if \<bar>px cur - px prev\<bar> < 0.5 \<and> \<bar>py cur - py prev\<bar> < 0.5
         then dedupeLoop deduped rest
         else dedupeLoop (deduped @ [cur]) rest)"

text \<open>
  Step 2: the loop over the interior points \<open>b\<close>, with \<open>a\<close> the last point kept so far and
  \<open>c\<close> the next point of the deduplicated list.
\<close>

fun collinearLoop :: "Point list \<Rightarrow> Point list \<Rightarrow> Point list" where
  "collinearLoop out (b # c # rest) =
     (let a = last out;
          sameX = \<bar>px a - px b\<bar> < 1 \<and> \<bar>px b - px c\<bar> < 1;
          sameY = \<bar>py a - py b\<bar> < 1 \<and> \<bar>py b - py c\<bar> < 1
      in if sameX \<or> sameY then collinearLoop out (c # rest)
         else collinearLoop (out @ [b]) (c # rest))"
| "collinearLoop out rest = out"

definition simplifyPoints :: "Point list \<Rightarrow> Point list" where
  "simplifyPoints pts =
     (if length pts < 2 then pts
      else
        (let deduped = dedupeLoop [pts ! 0] (tl pts)
         in if length deduped < 3 then deduped
            else collinearLoop [deduped ! 0] (tl deduped) @ [deduped ! (length deduped - 1)]))"

definition recomputeEdgeHints :: "ParsedEdge \<Rightarrow> ParsedEdge" where
  "recomputeEdgeHints edge =
     (if length (points edge) < 2 then edge
      else
        (let a = points edge ! 0;
             b = points edge ! 1;
             dx = \<bar>px b - px a\<bar>;
             dy = \<bar>py b - py a\<bar>;
             lastIdx = length (points edge) - 1;
             c = points edge ! (lastIdx - 1);
             dd = points edge ! lastIdx;
             ldx = \<bar>px dd - px c\<bar>;
             ldy = \<bar>py dd - py c\<bar>
         in edge\<lparr>firstSegmentVertical :=
                   Some (if dx < 1 then True else if dy < 1 then False else dy \<ge> dx),
                 lastSegmentVertical :=
                   Some (if ldx < 1 then True else if ldy < 1 then False else ldy \<ge> ldx)\<rparr>))"

subsection \<open>applyPositionUpdates, setPositions and the polish pass\<close>

text \<open>The body of the loop of \<open>applyEdgeUpdates\<close>, and the loop.\<close>

definition applyEdgeUpdate :: "(string \<times> ParsedNode) list \<Rightarrow> dom \<Rightarrow> ParsedEdge \<Rightarrow> dom \<times> ParsedEdge" where
  "applyEdgeUpdate ns d edge =
     (let e1 = updateEdgeEndpoints ns edge;
          e2 = maintainOrthogonalEdge d e1;
          d1 = updateEdgeElement d e2;
          d2 = updateEdgeLabel d1 e2;
          d3 = updateEdgeDecorations d2 e2
      in (d3, e2))"

fun applyEdgeUpdates :: "(string \<times> ParsedNode) list \<Rightarrow> dom \<Rightarrow> ParsedEdge list \<Rightarrow> dom \<times> ParsedEdge list" where
  "applyEdgeUpdates ns d [] = (d, [])"
| "applyEdgeUpdates ns d (edge # rest) =
     (let (d1, edge1) = applyEdgeUpdate ns d edge;
          (d2, rest1) = applyEdgeUpdates ns d1 rest
      in (d2, edge1 # rest1))"

definition applyPositionUpdates :: "NodeTracker \<Rightarrow> NodeTracker" where
  "applyPositionUpdates s =
     (let d1 = fold (\<lambda>(ident, node) d. applyNodeTransform d node) (nodes s) (document s);
          (d2, es) = applyEdgeUpdates (nodes s) d1 (edges s)
      in s\<lparr>edges := es, document := d2\<rparr>)"

text \<open>
  \<open>setPositions\<close>: the argument is the list \<open>Object.entries(positions)\<close>.
\<close>

definition setPositions :: "NodeTracker \<Rightarrow> (string \<times> Point) list \<Rightarrow> NodeTracker" where
  "setPositions s positions =
     applyPositionUpdates
       (fold (\<lambda>(ident, pos) s'. snd (updateNodePosition s' ident (px pos) (py pos))) positions s)"

definition polishEdge :: "(string \<times> ParsedNode) list \<Rightarrow> dom \<Rightarrow> ParsedEdge \<Rightarrow> dom \<times> ParsedEdge" where
  "polishEdge ns d edge =
     (let e1 = updateEdgeEndpoints ns edge;
          e2 = maintainOrthogonalEdge d e1;
          e3 = e2\<lparr>points := simplifyPoints (points e2)\<rparr>;
          e4 = recomputeEdgeHints e3;
          d1 = updateEdgeElement d e4;
          d2 = updateEdgeLabel d1 e4;
          d3 = updateEdgeDecorations d2 e4
      in (d3, e4))"

fun polishEdges :: "(string \<times> ParsedNode) list \<Rightarrow> dom \<Rightarrow> ParsedEdge list \<Rightarrow> dom \<times> ParsedEdge list" where
  "polishEdges ns d [] = (d, [])"
| "polishEdges ns d (edge # rest) =
     (let (d1, edge1) = polishEdge ns d edge;
          (d2, rest1) = polishEdges ns d1 rest
      in (d2, edge1 # rest1))"

text \<open>The members of a group: \<open>this.nodes.get(id)\<close> for each identifier, when present.\<close>

definition groupMembers :: "(string \<times> ParsedNode) list \<Rightarrow> ParsedGroup \<Rightarrow> ParsedNode list" where
  "groupMembers ns g = List.map_filter (map_of ns) (memberNodeIds g)"

text \<open>
  The body of the loop of \<open>polishGroups\<close>; every \<open>continue\<close> returns the document as it is.
  The accumulators start at \<open>Infinity\<close> and \<open>-Infinity\<close>.
\<close>

definition polishGroup :: "(string \<times> ParsedNode) list \<Rightarrow> dom \<Rightarrow> ParsedGroup \<Rightarrow> dom" where
  "polishGroup ns d g =
     (if length (memberNodeIds g) = 0 then d
      else
        (let members = groupMembers ns g
         in if length members = 0 then d
            else
              (let minX = fold (\<lambda>n acc. xmin acc (nodeX n)) members Infinity;
                   minY = fold (\<lambda>n acc. xmin acc (nodeY n)) members Infinity;
                   maxX = fold (\<lambda>n acc. xmax acc (nodeX n + width n)) members NegInfinity;
                   maxY = fold (\<lambda>n acc. xmax acc (nodeY n + height n)) members NegInfinity
               in if \<not> isFinite minX \<or> \<not> isFinite minY \<or> \<not> isFinite maxX \<or> \<not> isFinite maxY
                  then d
                  else
                    (let pad = padding g;
                         newX = xsub minX (pad_left pad);
                         newY = xsub minY (pad_top pad);
                         newWidth = xsub (xadd maxX (pad_right pad)) newX;
                         newHeight = xsub (xadd maxY (pad_bottom pad)) newY
                     in if \<not> isFinite newX \<or> \<not> isFinite newY \<or>
                           xle newWidth (Finite 0) \<or> xle newHeight (Finite 0)
                        then d
                        else
                          (let d1 = setAttribute d (outerRect g) ''x'' (xstr newX);
                               d2 = setAttribute d1 (outerRect g) ''y'' (xstr newY);
                               d3 = setAttribute d2 (outerRect g) ''width'' (xstr newWidth);
                               d4 = setAttribute d3 (outerRect g) ''height'' (xstr newHeight);
                               d5 = (case headerRect g of
                                       None \<Rightarrow> d4
                                     | Some hr \<Rightarrow>
                                         (let h1 = setAttribute d4 hr ''x'' (xstr newX);
                                              h2 = setAttribute h1 hr ''y'' (xstr newY);
                                              h3 = setAttribute h2 hr ''width'' (xstr newWidth)
                                          in if xgt (headerHeight g) (Finite 0)
                                             then setAttribute h3 hr ''height'' (xstr (headerHeight g))
                                             else h3));
                               d6 = (case groupLabelElement g of
                                       None \<Rightarrow> d5
                                     | Some le \<Rightarrow>
                                         (let off = (case labelOffset g of
                                                       Some lo \<Rightarrow> lo
                                                     | None \<Rightarrow>
                                                         \<lparr>off_x = Finite 12,
                                                          off_y = (if xgt (headerHeight g) (Finite 0)
                                                                   then xhalf (headerHeight g)
                                                                   else Finite 14)\<rparr>);
                                              l1 = setAttribute d5 le ''x'' (xstr (xadd newX (off_x off)))
                                          in setAttribute l1 le ''y'' (xstr (xadd newY (off_y off)))))
                           in d6)))))"

definition polishGroups :: "(string \<times> ParsedNode) list \<Rightarrow> dom \<Rightarrow> ParsedGroup list \<Rightarrow> dom" where
  "polishGroups ns d gs =
     (if length gs = 0 then d else fold (\<lambda>g d'. polishGroup ns d' g) gs d)"

definition polishLayout :: "NodeTracker \<Rightarrow> NodeTracker" where
  "polishLayout s =
     (let (d1, es) = polishEdges (nodes s) (document s) (edges s);
          d2 = polishGroups (nodes s) d1 (groups s)
      in s\<lparr>edges := es, document := d2\<rparr>)"

section \<open>Stable identifiers and reconstruction (svg-parser.ts)\<close>

text \<open>
  \<open>n.toString(36)\<close> for a natural number, and the decimal rendering of a natural number
  and of an integer (what a template literal prints for an integral number below 10^21).
\<close>

definition digit36 :: "nat \<Rightarrow> char" where
  "digit36 n = ''0123456789abcdefghijklmnopqrstuvwxyz'' ! n"

fun toString36 :: "nat \<Rightarrow> string" where
  "toString36 n = (if n < 36 then [digit36 n] else toString36 (n div 36) @ [digit36 (n mod 36)])"

fun showNat :: "nat \<Rightarrow> string" where
  "showNat n = (if n < 10 then [digit36 n] else showNat (n div 10) @ [digit36 (n mod 10)])"

definition showInt :: "int \<Rightarrow> string" where
  "showInt i = (if i < 0 then ''-'' @ showNat (nat (- i)) else showNat (nat i))"

text \<open>
  \<open>simpleHash\<close>. The accumulator is a 32-bit integer after every round
  (\<open>hash = hash & hash\<close>), and \<open>(hash << 5) - hash + char\<close> taken modulo \<open>2^32\<close> is word
  arithmetic. \<open>Math.abs\<close> is taken of the signed value.
\<close>

definition simpleHash :: "ustring \<Rightarrow> string" where
  "simpleHash str =
     (let hash = foldl (\<lambda>h c. push_bit 5 h - h + (of_nat c :: 32 word)) 0 str
      in toString36 (nat \<bar>sint hash\<bar>))"

record BoundingBox =
  bb_x :: real
  bb_y :: real
  bb_width :: real
  bb_height :: real

text \<open>\<open>Math.round\<close>: the nearest integer, halves rounded up.\<close>

definition mathRound :: "real \<Rightarrow> int" where
  "mathRound v = \<lfloor>v + 1 / 2\<rfloor>"

definition generateNodeId :: "BoundingBox \<Rightarrow> ustring option \<Rightarrow> string" where
  "generateNodeId bbox label =
     (let x = mathRound (bb_x bbox);
          y = mathRound (bb_y bbox);
          hash = simpleHash (ascii (showInt x) @ ascii '','' @ ascii (showInt y) @ ascii '','' @
                             (case label of None \<Rightarrow> [] | Some l \<Rightarrow> l))
      in ''node-'' @ hash)"

definition generateGroupId :: "BoundingBox \<Rightarrow> ustring option \<Rightarrow> string" where
  "generateGroupId bbox label =
     (let x = mathRound (bb_x bbox);
          y = mathRound (bb_y bbox);
          w = mathRound (bb_width bbox);
          h = mathRound (bb_height bbox);
          hash = simpleHash (ascii (showInt x) @ ascii '','' @ ascii (showInt y) @ ascii '','' @
                             ascii (showInt w) @ ascii '','' @ ascii (showInt h) @ ascii '','' @
                             (case label of None \<Rightarrow> [] | Some l \<Rightarrow> l))
      in ''group-'' @ hash)"

definition pointInBBox :: "Point \<Rightarrow> BoundingBox \<Rightarrow> real \<Rightarrow> bool" where
  "pointInBBox p bbox pad =
     (px p \<ge> bb_x bbox - pad \<and> px p \<le> bb_x bbox + bb_width bbox + pad \<and>
      py p \<ge> bb_y bbox - pad \<and> py p \<le> bb_y bbox + bb_height bbox + pad)"

definition unionBBox :: "BoundingBox list \<Rightarrow> BoundingBox option" where
  "unionBBox boxes =
     (if length boxes = 0 then None
      else
        (let minX = fold (\<lambda>b acc. xmin acc (bb_x b)) boxes Infinity;
             minY = fold (\<lambda>b acc. xmin acc (bb_y b)) boxes Infinity;
             maxX = fold (\<lambda>b acc. xmax acc (bb_x b + bb_width b)) boxes NegInfinity;
             maxY = fold (\<lambda>b acc. xmax acc (bb_y b + bb_height b)) boxes NegInfinity
         in if \<not> isFinite minX \<or> \<not> isFinite minY \<or> \<not> isFinite maxX \<or> \<not> isFinite maxY
            then None
            else Some \<lparr>bb_x = finiteValue minX, bb_y = finiteValue minY,
                        bb_width = finiteValue maxX - finiteValue minX,
                        bb_height = finiteValue maxY - finiteValue minY\<rparr>))"

text \<open>
  The document, as the parser reads it. The parser only queries the document; the
  records below hold what its queries return, in document order, with numeric
  attributes already read by \<open>parseFloat\<close>:
  \<^item> \<open>SvgShape\<close>: a shape that passes the candidate filter of \<open>parseNodes\<close>, with the box
    that \<open>getBBox\<close> gives for it;
  \<^item> \<open>SvgText\<close>: a text element, with its anchor (\<open>getTextAnchorPoint\<close>, absent when \<open>x\<close>
    or \<open>y\<close> is missing or not finite), its \<open>x\<close> and \<open>y\<close> attributes, its trimmed text
    content (absent when empty), whether it has the class \<open>mono\<close>, whether its fill is
    empty or contains \<open>_text-sec\<close>, and whether it lies inside \<open>defs\<close> or \<open>marker\<close>;
  \<^item> \<open>SvgRect\<close>: a rectangle outside \<open>defs\<close> and \<open>marker\<close> whose fill contains
    \<open>_group-fill\<close> (a container) or \<open>_group-hdr\<close> (a header);
  \<^item> \<open>SvgPolyline\<close>: a polyline outside \<open>defs\<close> and \<open>marker\<close>, with the list that
    \<open>parsePolylinePoints\<close> reads from its \<open>points\<close> attribute;
  \<^item> \<open>SvgLine\<close>: a line outside \<open>defs\<close> and \<open>marker\<close>, with its four coordinates and
    whether it has a \<open>marker-end\<close> or \<open>marker-start\<close> attribute.
\<close>

record SvgShape =
  sh_element :: elem
  sh_box :: BoundingBox

record SvgText =
  tx_element :: elem
  tx_anchor :: "Point option"
  tx_x :: real
  tx_y :: real
  tx_label :: "ustring option"
  tx_mono :: bool
  tx_fillSecondary :: bool
  tx_inDefs :: bool

record SvgRect =
  rc_element :: elem
  rc_x :: real
  rc_y :: real
  rc_width :: real
  rc_height :: real

record SvgPolyline =
  pl_element :: elem
  pl_points :: "Point list"

record SvgLine =
  ln_element :: elem
  ln_marker :: bool
  ln_x1 :: real
  ln_y1 :: real
  ln_x2 :: real
  ln_y2 :: real

datatype DiagramType = Flowchart | Sequence | State | Class | Er | Unknown

record SvgDocument =
  doc_diagramType :: DiagramType
  doc_candidateShapes :: "SvgShape list"
  doc_texts :: "SvgText list"
  doc_outerRects :: "SvgRect list"
  doc_headerRects :: "SvgRect list"
  doc_polylines :: "SvgPolyline list"
  doc_lines :: "SvgLine list"

subsection \<open>Nodes\<close>

text \<open>
  The inner loop of \<open>groupShapesByProximity\<close>: the shapes not yet used whose centre is
  closer to the centre of \<open>shape\<close> than half the largest side of the two boxes.
\<close>

fun absorbLoop :: "SvgShape \<Rightarrow> SvgShape list \<Rightarrow> SvgShape list \<Rightarrow> elem set \<Rightarrow> SvgShape list \<times> elem set" where
  "absorbLoop shape [] grp used = (grp, used)"
| "absorbLoop shape (other # rest) grp used =
     (if sh_element other \<in> used then absorbLoop shape rest grp used
      else
        (let bbox = sh_box shape;
             cx = bb_x bbox + bb_width bbox / 2;
             cy = bb_y bbox + bb_height bbox / 2;
             ob = sh_box other;
             ocx = bb_x ob + bb_width ob / 2;
             ocy = bb_y ob + bb_height ob / 2;
             dist = hypot (cx - ocx) (cy - ocy);
             thresh = max (max (max (bb_width bbox) (bb_height bbox)) (bb_width ob)) (bb_height ob) * 0.5
         in if dist < thresh
            then absorbLoop shape rest (grp @ [other]) (insert (sh_element other) used)
            else absorbLoop shape rest grp used))"

text \<open>The outer loop; \<open>allShapes\<close> is the whole list, which the inner loop scans again.\<close>

fun groupLoop :: "SvgShape list \<Rightarrow> SvgShape list \<Rightarrow> SvgShape list list \<Rightarrow> elem set \<Rightarrow> SvgShape list list" where
  "groupLoop allShapes [] acc used = acc"
| "groupLoop allShapes (shape # rest) acc used =
     (if sh_element shape \<in> used then groupLoop allShapes rest acc used
      else
        (let (grp, used1) = absorbLoop shape allShapes [shape] (insert (sh_element shape) used)
         in groupLoop allShapes rest (acc @ [grp]) used1))"

definition groupShapesByProximity :: "SvgShape list \<Rightarrow> SvgShape list list" where
  "groupShapesByProximity shapes = groupLoop shapes shapes [] {}"

text \<open>
  The fallback of \<open>pickNodeLabelElement\<close>: the first text with the least distance below
  the box, among the texts centred under it.
\<close>

fun belowLoop :: "real \<Rightarrow> real \<Rightarrow> SvgText list \<Rightarrow> (SvgText \<times> real) option \<Rightarrow> (SvgText \<times> real) option" where
  "belowLoop centerX bottomY [] best = best"
| "belowLoop centerX bottomY (t # rest) best =
     (case tx_anchor t of
        None \<Rightarrow> belowLoop centerX bottomY rest best
      | Some pt \<Rightarrow>
          if \<bar>px pt - centerX\<bar> > 4 then belowLoop centerX bottomY rest best
          else if py pt < bottomY - 2 \<or> py pt > bottomY + 40 then belowLoop centerX bottomY rest best
          else
            (let dy = py pt - bottomY
             in case best of
                  None \<Rightarrow> belowLoop centerX bottomY rest (Some (t, dy))
                | Some (bt, bdy) \<Rightarrow>
                    if dy < bdy then belowLoop centerX bottomY rest (Some (t, dy))
                    else belowLoop centerX bottomY rest best))"

text \<open>\<open>Array.prototype.sort\<close> is stable, as \<open>sort_key\<close> is.\<close>

definition pickNodeLabelElement :: "BoundingBox \<Rightarrow> SvgText list \<Rightarrow> SvgText option" where
  "pickNodeLabelElement bbox textElements =
     (let inside = filter (\<lambda>t. case tx_anchor t of None \<Rightarrow> False
                                 | Some pt \<Rightarrow> pointInBBox pt bbox 2) textElements
      in if length inside = 0 then
           (let centerX = bb_x bbox + bb_width bbox / 2;
                bottomY = bb_y bbox + bb_height bbox
            in map_option fst (belowLoop centerX bottomY textElements None))
         else
           (let nonMono = filter (\<lambda>t. \<not> tx_mono t) inside;
                candidates = (if length nonMono > 0 then nonMono else inside)
            in Some (sort_key tx_y candidates ! 0)))"

text \<open>
  \<open>createNodeFromShapeGroup\<close>; the shape kind is not part of \<open>ParsedNode\<close> here, so
  \<open>findPrimaryShape\<close> and \<open>detectNodeType\<close> are left out.
\<close>

definition createNodeFromShapeGroup :: "SvgShape list \<Rightarrow> SvgText list \<Rightarrow> ParsedNode option" where
  "createNodeFromShapeGroup shapes textElements =
     (if length shapes = 0 then None
      else
        (case unionBBox (map sh_box shapes) of
           None \<Rightarrow> None
         | Some combinedBbox \<Rightarrow>
             (let labelEl = pickNodeLabelElement combinedBbox textElements;
                  label = (case labelEl of None \<Rightarrow> None | Some t \<Rightarrow> tx_label t);
                  ident = generateNodeId combinedBbox label;
                  els = (case labelEl of
                           Some t \<Rightarrow> map sh_element shapes @ [tx_element t]
                         | None \<Rightarrow> map sh_element shapes)
              in Some \<lparr>nodeId = ident, elements = els,
                        nodeX = bb_x combinedBbox, nodeY = bb_y combinedBbox,
                        width = bb_width combinedBbox, height = bb_height combinedBbox,
                        nodeLabel = label,
                        originalX = bb_x combinedBbox, originalY = bb_y combinedBbox\<rparr>)))"

text \<open>
  \<open>parseNodes\<close>, from the candidate shapes on. \<open>expandNodeElements\<close> and
  \<open>attachSequenceLifelines\<close> only add elements to the \<open>elements\<close> of a node that is already
  made; that part is left out, so \<open>elements\<close> holds the shapes of the node and its label.
\<close>

definition parseNodes :: "SvgDocument \<Rightarrow> ParsedNode list" where
  "parseNodes doc =
     List.map_filter (\<lambda>grp. createNodeFromShapeGroup grp (doc_texts doc))
       (groupShapesByProximity (doc_candidateShapes doc))"

subsection \<open>Edges\<close>

text \<open>The state of an \<open>SvgParser\<close>: the counter that numbers the edges.\<close>

record SvgParser =
  edgeCounter :: nat

definition findNodeAtPoint :: "Point \<Rightarrow> ParsedNode list \<Rightarrow> string option" where
  "findNodeAtPoint point ns =
     (let threshold = 30
      in map_option nodeId
           (find (\<lambda>node.
                    (let cx = nodeX node + width node / 2;
                         cy = nodeY node + height node / 2;
                         distance = hypot (px point - cx) (py point - cy)
                     in distance < max (width node) (height node) / 2 + threshold))
              ns))"

text \<open>
  The cached offset of an endpoint: \<open>nodes.find(n => n.id === id)\<close> is the first node
  with that identifier.
\<close>

definition endpointOffset :: "string option \<Rightarrow> Point \<Rightarrow> ParsedNode list \<Rightarrow> Point option" where
  "endpointOffset ident pt ns =
     (case ident of
        None \<Rightarrow> None
      | Some i \<Rightarrow>
          if i = [] then None
          else
            (case find (\<lambda>n. nodeId n = i) ns of
               None \<Rightarrow> None
             | Some node \<Rightarrow>
                 (let cx = nodeX node + width node / 2;
                      cy = nodeY node + height node / 2
                  in Some \<lparr>px = px pt - cx, py = py pt - cy\<rparr>)))"

text \<open>The orientation hint of the segment from \<open>a\<close> to \<open>b\<close>.\<close>

definition segmentVertical :: "Point \<Rightarrow> Point \<Rightarrow> bool" where
  "segmentVertical a b =
     (let dx = \<bar>px b - px a\<bar>;
          dy = \<bar>py b - py a\<bar>
      in if dx < 1 then True else if dy < 1 then False else dy \<ge> dx)"

text \<open>
  \<open>createEdge\<close> is called with at least two points; \<open>edge-${this.edgeCounter++}\<close> reads
  the counter and then adds one to it.
\<close>

definition createEdge :: "SvgParser \<Rightarrow> elem \<Rightarrow> Point list \<Rightarrow> ParsedNode list \<Rightarrow> ParsedEdge \<times> SvgParser" where
  "createEdge p element pts ns =
     (let firstPoint = pts ! 0;
          lastPoint = pts ! (length pts - 1);
          sourceId = findNodeAtPoint firstPoint ns;
          targetId = findNodeAtPoint lastPoint ns;
          ident = ''edge-'' @ showNat (edgeCounter p);
          p1 = p\<lparr>edgeCounter := edgeCounter p + 1\<rparr>;
          edge = \<lparr>edgeId = ident, edgeElement = element, points = pts,
                  sourceNodeId = sourceId, targetNodeId = targetId,
                  sourceOffset = endpointOffset sourceId firstPoint ns,
                  targetOffset = endpointOffset targetId lastPoint ns,
                  labelElement = None, labelBackground = None, labelInfo = None,
                  decorations = None,
                  firstSegmentVertical =
                    (if length pts \<ge> 2 then Some (segmentVertical (pts ! 0) (pts ! 1)) else None),
                  lastSegmentVertical =
                    (if length pts \<ge> 2
                     then Some (segmentVertical (pts ! (length pts - 2)) (pts ! (length pts - 1)))
                     else None)\<rparr>
      in (edge, p1))"

definition parseLinePoints :: "SvgLine \<Rightarrow> Point list" where
  "parseLinePoints line = [\<lparr>px = ln_x1 line, py = ln_y1 line\<rparr>, \<lparr>px = ln_x2 line, py = ln_y2 line\<rparr>]"

text \<open>The two loops of \<open>parseEdges\<close>, over the polylines and over the lines.\<close>

fun polylineLoop :: "SvgParser \<Rightarrow> SvgPolyline list \<Rightarrow> ParsedNode list \<Rightarrow> ParsedEdge list \<Rightarrow> ParsedEdge list \<times> SvgParser" where
  "polylineLoop p [] ns acc = (acc, p)"
| "polylineLoop p (pl # rest) ns acc =
     (if length (pl_points pl) < 2 then polylineLoop p rest ns acc
      else
        (let (edge, p1) = createEdge p (pl_element pl) (pl_points pl) ns
         in polylineLoop p1 rest ns (acc @ [edge])))"

fun lineLoop :: "SvgParser \<Rightarrow> SvgLine list \<Rightarrow> ParsedNode list \<Rightarrow> ParsedEdge list \<Rightarrow> ParsedEdge list \<times> SvgParser" where
  "lineLoop p [] ns acc = (acc, p)"
| "lineLoop p (line # rest) ns acc =
     (if \<not> ln_marker line then lineLoop p rest ns acc
      else
        (let (edge, p1) = createEdge p (ln_element line) (parseLinePoints line) ns
         in lineLoop p1 rest ns (acc @ [edge])))"

text \<open>
  \<open>parseEdges\<close>, up to the two attachment steps: \<open>attachEdgeLabels\<close> and
  \<open>attachEdgeDecorations\<close> assign only \<open>labelBackground\<close>, \<open>labelElement\<close>, \<open>labelInfo\<close> and
  \<open>decorations\<close> of edges that are already made, and are left out.
\<close>

definition parseEdges :: "SvgParser \<Rightarrow> SvgDocument \<Rightarrow> ParsedNode list \<Rightarrow> ParsedEdge list \<times> SvgParser" where
  "parseEdges p doc ns =
     (let (es1, p1) = polylineLoop p (doc_polylines doc) ns []
      in lineLoop p1 (doc_lines doc) ns es1)"

subsection \<open>Groups\<close>

text \<open>The padding of a group: the room between its box and the boxes of its members.\<close>

definition groupPadding :: "real \<Rightarrow> real \<Rightarrow> real \<Rightarrow> real \<Rightarrow> string list \<Rightarrow> ParsedNode list \<Rightarrow> Padding" where
  "groupPadding x y w h memberIds ns =
     (let zero = \<lparr>pad_left = Finite 0, pad_top = Finite 0, pad_right = Finite 0, pad_bottom = Finite 0\<rparr>
      in if length memberIds > 0 then
           (let members = List.map_filter (\<lambda>i. find (\<lambda>n. nodeId n = i) ns) memberIds;
                minX = fold (\<lambda>n acc. xmin acc (originalX n)) members Infinity;
                minY = fold (\<lambda>n acc. xmin acc (originalY n)) members Infinity;
                maxX = fold (\<lambda>n acc. xmax acc (originalX n + width n)) members NegInfinity;
                maxY = fold (\<lambda>n acc. xmax acc (originalY n + height n)) members NegInfinity
            in if isFinite minX \<and> isFinite minY \<and> isFinite maxX \<and> isFinite maxY
               then \<lparr>pad_left = xsub minX (Finite x), pad_top = xsub minY (Finite y),
                     pad_right = xsub (Finite (x + w)) maxX,
                     pad_bottom = xsub (Finite (y + h)) maxY\<rparr>
               else zero)
         else zero)"

text \<open>
  The body of the loop of \<open>parseGroups\<close>, for one container rectangle; \<open>None\<close> is
  \<open>continue\<close>. The label is a text with an anchor, so its \<open>x\<close> and \<open>y\<close> are finite and the
  label offset is always present with it.
\<close>

definition parseGroup :: "SvgRect list \<Rightarrow> SvgText list \<Rightarrow> ParsedNode list \<Rightarrow> SvgRect \<Rightarrow> ParsedGroup option" where
  "parseGroup headerRects texts ns outer =
     (let x = rc_x outer; y = rc_y outer; w = rc_width outer; h = rc_height outer
      in if w \<le> 0 \<or> h \<le> 0 then None
         else
           (let header = find (\<lambda>hr. \<bar>rc_x hr - x\<bar> < 0.01 \<and> \<bar>rc_y hr - y\<bar> < 0.01 \<and>
                                       \<bar>rc_width hr - w\<bar> < 0.01) headerRects;
                hh = (case header of Some hr \<Rightarrow> rc_height hr | None \<Rightarrow> 0);
                headerBox = (case header of
                               Some hr \<Rightarrow> \<lparr>bb_x = x, bb_y = y, bb_width = w, bb_height = hh\<rparr>
                             | None \<Rightarrow> \<lparr>bb_x = x, bb_y = y, bb_width = w, bb_height = min 30 h\<rparr>);
                headerTexts = filter (\<lambda>t. case tx_anchor t of
                                             None \<Rightarrow> False
                                           | Some pt \<Rightarrow> pointInBBox pt headerBox 1 \<and> tx_fillSecondary t)
                                texts;
                labelEl = (if length headerTexts > 0 then Some (sort_key tx_x headerTexts ! 0)
                           else None);
                outerBox = \<lparr>bb_x = x, bb_y = y, bb_width = w, bb_height = h\<rparr>;
                memberIds = map nodeId
                              (filter (\<lambda>n. pointInBBox \<lparr>px = originalX n + width n / 2,
                                                         py = originalY n + height n / 2\<rparr> outerBox 1)
                                 ns);
                ident = generateGroupId outerBox
                          (case labelEl of None \<Rightarrow> None | Some t \<Rightarrow> tx_label t)
            in Some \<lparr>groupId = ident, outerRect = rc_element outer,
                      headerRect = map_option rc_element header,
                      groupLabelElement = map_option tx_element labelEl,
                      groupOriginalX = Finite x, groupOriginalY = Finite y,
                      groupOriginalWidth = Finite w, groupOriginalHeight = Finite h,
                      headerHeight = Finite hh,
                      memberNodeIds = memberIds,
                      padding = groupPadding x y w h memberIds ns,
                      labelOffset = (case labelEl of
                                       None \<Rightarrow> None
                                     | Some t \<Rightarrow> Some \<lparr>off_x = Finite (tx_x t - x),
                                                         off_y = Finite (tx_y t - y)\<rparr>)\<rparr>))"

definition parseGroups :: "SvgDocument \<Rightarrow> ParsedNode list \<Rightarrow> ParsedGroup list" where
  "parseGroups doc ns =
     (if length (doc_outerRects doc) = 0 then []
      else
        (let texts = filter (\<lambda>t. \<not> tx_inDefs t) (doc_texts doc)
         in List.map_filter (parseGroup (doc_headerRects doc) texts ns) (doc_outerRects doc)))"

subsection \<open>parse\<close>

record ParseResult =
  pr_nodes :: "ParsedNode list"
  pr_edges :: "ParsedEdge list"
  pr_groups :: "ParsedGroup list"
  pr_diagramType :: DiagramType

text \<open>
  \<open>parse\<close>: the result, and the parser afterwards. \<open>detectDiagramType\<close> is a query of the
  document, held by \<open>doc_diagramType\<close>.
\<close>

definition parse :: "SvgParser \<Rightarrow> SvgDocument \<Rightarrow> ParseResult \<times> SvgParser" where
  "parse p doc =
     (let p0 = p\<lparr>edgeCounter := 0\<rparr>;
          diagramType = doc_diagramType doc;
          ns = parseNodes doc;
          (es, p1) = parseEdges p0 doc ns;
          gs = parseGroups doc ns
      in (\<lparr>pr_nodes = ns, pr_edges = es, pr_groups = gs, pr_diagramType = diagramType\<rparr>, p1))"

section \<open>The position serializer (position-serializer.ts)\<close>

text \<open>
  The values that the serializer handles: \<open>undefined\<close>, \<open>null\<close>, booleans, numbers,
  strings, arrays, and objects. An object is the list of its own properties in the order
  of enumeration, every key once.
\<close>

datatype jsvalue =
    JUndefined
  | JNull
  | JBool bool
  | JNumber xnum
  | JString ustring
  | JArray "jsvalue list"
  | JObject "(ustring \<times> jsvalue) list"

text \<open>
  A string is kept as what \<open>JSON.parse\<close> reads in it: the syntax tree of a JSON text, or
  nothing when the string is not a JSON text. \<open>JSON.stringify\<close> writes a tree: a number
  that is not finite is written as \<open>null\<close>, a property whose value is \<open>undefined\<close> is left
  out, and \<open>undefined\<close> in an array is written as \<open>null\<close>. A finite number is written as a
  decimal that reads back as the same number.
\<close>

datatype json =
    TNull
  | TBool bool
  | TNumber real
  | TString ustring
  | TArray "json list"
  | TObject "(ustring \<times> json) list"

fun jsonStringify :: "jsvalue \<Rightarrow> json option"
  and stringifyItems :: "jsvalue list \<Rightarrow> json list"
  and stringifyProps :: "(ustring \<times> jsvalue) list \<Rightarrow> (ustring \<times> json) list" where
  "jsonStringify JUndefined = None"
| "jsonStringify JNull = Some TNull"
| "jsonStringify (JBool b) = Some (TBool b)"
| "jsonStringify (JNumber n) = Some (if isFinite n then TNumber (finiteValue n) else TNull)"
| "jsonStringify (JString s) = Some (TString s)"
| "jsonStringify (JArray vs) = Some (TArray (stringifyItems vs))"
| "jsonStringify (JObject ps) = Some (TObject (stringifyProps ps))"
| "stringifyItems [] = []"
| "stringifyItems (v # vs) =
     (case jsonStringify v of None \<Rightarrow> TNull | Some t \<Rightarrow> t) # stringifyItems vs"
| "stringifyProps [] = []"
| "stringifyProps ((k, v) # ps) =
     (case jsonStringify v of
        None \<Rightarrow> stringifyProps ps
      | Some t \<Rightarrow> (k, t) # stringifyProps ps)"

text \<open>
  \<open>JSON.parse\<close> of a tree. A key that the text repeats keeps its first place and takes
  the last value.
\<close>

fun jsonParse :: "json \<Rightarrow> jsvalue"
  and parseItems :: "json list \<Rightarrow> jsvalue list"
  and parseProps :: "(ustring \<times> jsvalue) list \<Rightarrow> (ustring \<times> json) list \<Rightarrow> (ustring \<times> jsvalue) list" where
  "jsonParse TNull = JNull"
| "jsonParse (TBool b) = JBool b"
| "jsonParse (TNumber n) = JNumber (Finite n)"
| "jsonParse (TString s) = JString s"
| "jsonParse (TArray ts) = JArray (parseItems ts)"
| "jsonParse (TObject ps) = JObject (parseProps [] ps)"
| "parseItems [] = []"
| "parseItems (t # ts) = jsonParse t # parseItems ts"
| "parseProps acc [] = acc"
| "parseProps acc ((k, t) # ps) = parseProps (AList.update k (jsonParse t) acc) ps"

text \<open>A property read \<open>v.k\<close> of a value that is not \<open>null\<close> or \<open>undefined\<close>.\<close>

definition getProperty :: "jsvalue \<Rightarrow> string \<Rightarrow> jsvalue" where
  "getProperty v k =
     (case v of
        JObject ps \<Rightarrow> (case map_of ps (ascii k) of None \<Rightarrow> JUndefined | Some x \<Rightarrow> x)
      | other \<Rightarrow> JUndefined)"

record Position =
  pos_x :: xnum
  pos_y :: xnum

text \<open>A \<open>Record<string, { x: number; y: number }>\<close> as a value.\<close>

definition positionsValue :: "(ustring \<times> Position) list \<Rightarrow> jsvalue" where
  "positionsValue positions =
     JObject (map (\<lambda>(ident, pos). (ident, JObject [(ascii ''x'', JNumber (pos_x pos)),
                                                     (ascii ''y'', JNumber (pos_y pos))]))
                positions)"

definition diagramTypeName :: "DiagramType \<Rightarrow> string" where
  "diagramTypeName t =
     (case t of Flowchart \<Rightarrow> ''flowchart'' | Sequence \<Rightarrow> ''sequence'' | State \<Rightarrow> ''state''
      | Class \<Rightarrow> ''class'' | Er \<Rightarrow> ''er'' | Unknown \<Rightarrow> ''unknown'')"

definition SERIALIZATION_VERSION :: real where
  "SERIALIZATION_VERSION = 1"

text \<open>\<open>serialize\<close>; \<open>now\<close> is the value of \<open>Date.now()\<close>.\<close>

definition serialize :: "real \<Rightarrow> (ustring \<times> Position) list \<Rightarrow> ustring \<Rightarrow> DiagramType option \<Rightarrow> json option" where
  "serialize now positions source diagramType =
     (let data = JObject [(ascii ''version'', JNumber (Finite SERIALIZATION_VERSION)),
                          (ascii ''source'', JString source),
                          (ascii ''positions'', positionsValue positions),
                          (ascii ''timestamp'', JNumber (Finite now)),
                          (ascii ''diagramType'',
                             (case diagramType of
                                None \<Rightarrow> JUndefined
                              | Some t \<Rightarrow> JString (ascii (diagramTypeName t))))]
      in jsonStringify data)"

text \<open>
  \<open>deserialize\<close>; the result \<open>None\<close> is \<open>null\<close>. \<open>JSON.parse\<close> throws on a string that is not
  a JSON text, and reading \<open>layout.version\<close> throws when the text is \<open>null\<close>; both end in
  the \<open>catch\<close>. A version other than 1 only logs a warning, and \<open>currentSource\<close> is not
  read.
\<close>

definition deserialize :: "json option \<Rightarrow> ustring \<Rightarrow> jsvalue option" where
  "deserialize data currentSource =
     (case data of
        None \<Rightarrow> None
      | Some text \<Rightarrow>
          (let layout = jsonParse text
           in if layout = JNull then None
              else Some (getProperty layout ''positions'')))"

section \<open>Notions used to state the properties\<close>

text \<open>The point at fraction \<open>u\<close> of the segment from \<open>a\<close> to \<open>b\<close>.\<close>

definition lerp :: "Point \<Rightarrow> Point \<Rightarrow> real \<Rightarrow> Point" where
  "lerp a b u = \<lparr>px = px a + (px b - px a) * u, py = py a + (py b - py a) * u\<rparr>"

text \<open>A sequence of \<open>updateNodePosition\<close> calls, one per entry (the loop of \<open>setPositions\<close>).\<close>

definition moveNodes :: "NodeTracker \<Rightarrow> (string \<times> Point) list \<Rightarrow> NodeTracker" where
  "moveNodes s moves =
     fold (\<lambda>(ident, pos) s'. snd (updateNodePosition s' ident (px pos) (py pos))) moves s"

text \<open>What one pass of \<open>applyEdgeUpdates\<close> does to the data of an edge.\<close>

definition edgeStep :: "(string \<times> ParsedNode) list \<Rightarrow> dom \<Rightarrow> ParsedEdge \<Rightarrow> ParsedEdge" where
  "edgeStep ns d e = maintainOrthogonalEdge d (updateEdgeEndpoints ns e)"

text \<open>
  A small scene for the concrete checks: two 10 by 10 boxes A and B side by side, joined
  by a horizontal two-point connector from the right side of A to the left side of B.
  \<open>demoTracker\<close> draws the connector as a polyline, \<open>demoLineTracker\<close> as a line.
\<close>

definition demoDocument :: dom where
  "demoDocument el =
     (if el = 2 then \<lparr>tagName = ''polyline'', attrs = Map.empty\<rparr>
      else if el = 3 then \<lparr>tagName = ''line'', attrs = Map.empty\<rparr>
      else \<lparr>tagName = ''rect'', attrs = Map.empty\<rparr>)"

definition demoNodeA :: ParsedNode where
  "demoNodeA = \<lparr>nodeId = ''node-a'', elements = [0], nodeX = 0, nodeY = 0, width = 10,
     height = 10, nodeLabel = Some [65], originalX = 0, originalY = 0\<rparr>"

definition demoNodeB :: ParsedNode where
  "demoNodeB = \<lparr>nodeId = ''node-b'', elements = [1], nodeX = 100, nodeY = 0, width = 10,
     height = 10, nodeLabel = Some [66], originalX = 100, originalY = 0\<rparr>"

definition demoEdge :: "elem \<Rightarrow> ParsedEdge" where
  "demoEdge el = \<lparr>edgeId = ''edge-0'', edgeElement = el,
     points = [\<lparr>px = 10, py = 5\<rparr>, \<lparr>px = 100, py = 5\<rparr>],
     sourceNodeId = Some ''node-a'', targetNodeId = Some ''node-b'',
     sourceOffset = Some \<lparr>px = 5, py = 0\<rparr>, targetOffset = Some \<lparr>px = - 5, py = 0\<rparr>,
     labelElement = None, labelBackground = None, labelInfo = None, decorations = None,
     firstSegmentVertical = Some False, lastSegmentVertical = Some False\<rparr>"

definition demoTracker :: NodeTracker where
  "demoTracker = newTracker [demoNodeA, demoNodeB] [demoEdge 2] [] demoDocument"

definition demoLineTracker :: NodeTracker where
  "demoLineTracker = newTracker [demoNodeA, demoNodeB] [demoEdge 3] [] demoDocument"

text \<open>
  Two points less than 0.5 apart on both axes: the test of the first step of
  \<open>simplifyPoints\<close>.
\<close>

definition closeTo :: "Point \<Rightarrow> Point \<Rightarrow> bool" where
  "closeTo q p = (\<bar>px q - px p\<bar> < 0.5 \<and> \<bar>py q - py p\<bar> < 0.5)"

text \<open>
  Every two consecutive points of the path differ by less than 1 on at least one axis.
\<close>

fun orthogonalPath :: "Point list \<Rightarrow> bool" where
  "orthogonalPath (a # b # ps) =
     ((\<bar>px a - px b\<bar> < 1 \<or> \<bar>py a - py b\<bar> < 1) \<and> orthogonalPath (b # ps))"
| "orthogonalPath ps = True"

text \<open>
  What one pass of \<open>polishEdges\<close> does to the data of an edge.
\<close>

definition polishStep :: "(string \<times> ParsedNode) list \<Rightarrow> dom \<Rightarrow> ParsedEdge \<Rightarrow> ParsedEdge" where
  "polishStep ns d e =
     recomputeEdgeHints ((edgeStep ns d e)\<lparr>points := simplifyPoints (points (edgeStep ns d e))\<rparr>)"

text \<open>
  A simple path: at most two points, or three points with complementary orientation
  hints.
\<close>

definition simplePath :: "ParsedEdge \<Rightarrow> bool" where
  "simplePath e =
     (length (points e) \<le> 2 \<or>
      (length (points e) = 3 \<and>
       (\<exists>v. firstSegmentVertical e = Some v \<and> lastSegmentVertical e = Some (\<not> v))))"

text \<open>
  The bend that \<open>maintainOrthogonalEdge\<close> puts between \<open>a\<close> and \<open>b\<close>, and the forms that a simple
  path has after that step: at most one point, two points on a common axis (within 1),
  or a path with this bend and the matching hints.
\<close>

definition bendPoint :: "bool \<Rightarrow> Point \<Rightarrow> Point \<Rightarrow> Point" where
  "bendPoint v a b = (if v then \<lparr>px = px a, py = py b\<rparr> else \<lparr>px = px b, py = py a\<rparr>)"

definition exactForm :: "ParsedEdge \<Rightarrow> bool" where
  "exactForm e =
     (length (points e) \<le> 1 \<or>
      (\<exists>a b. points e = [a, b] \<and> (\<bar>px b - px a\<bar> < 1 \<or> \<bar>py b - py a\<bar> < 1)) \<or>
      (\<exists>a b v. points e = [a, bendPoint v a b, b] \<and>
          firstSegmentVertical e = Some v \<and> lastSegmentVertical e = Some (\<not> v)))"

text \<open>
  The calls that change a tracker: \<open>updateNodePosition\<close>, \<open>applyPositionUpdates\<close> and
  \<open>polishLayout\<close>; \<open>runOps\<close> makes a sequence of them, first to last.
\<close>

datatype trackerOp = Move string real real | Apply | Polish

fun runOp :: "trackerOp \<Rightarrow> NodeTracker \<Rightarrow> NodeTracker" where
  "runOp (Move ident x y) s = snd (updateNodePosition s ident x y)"
| "runOp Apply s = applyPositionUpdates s"
| "runOp Polish s = polishLayout s"

definition runOps :: "trackerOp list \<Rightarrow> NodeTracker \<Rightarrow> NodeTracker" where
  "runOps ops s = fold runOp ops s"

text \<open>
  Edge \<open>i\<close> of the tracker is drawn as a polyline and has a simple path.
\<close>

definition simplePolylineAt :: "nat \<Rightarrow> NodeTracker \<Rightarrow> bool" where
  "simplePolylineAt i s =
     (i < length (edges s) \<and> simplePath (edges s ! i) \<and>
      tagName (document s (edgeElement (edges s ! i))) = ''polyline'')"

text \<open>
  The writes of a pass, as operations on single elements: \<open>Translate\<close> is \<open>applyTranslate\<close>,
  \<open>SetAttr\<close> is \<open>setAttribute\<close>. \<open>translateElement\<close> is \<open>applyTranslate\<close> on the element itself, and
  \<open>exec\<close> runs a list of operations on the document, first to last.
\<close>

datatype domOp = Translate real real | SetAttr string jstring

definition translateElement :: "real \<Rightarrow> real \<Rightarrow> Element \<Rightarrow> Element" where
  "translateElement dx dy el =
     (if dx = 0 \<and> dy = 0 then
        (if truthy (attrs el ''data-original-transform'')
         then el\<lparr>attrs := (attrs el)(''transform'' \<mapsto> orEmpty (attrs el ''data-original-transform''))\<rparr>
         else el\<lparr>attrs := (attrs el)(''transform'' := None)\<rparr>)
      else
        (let el1 = (if attrs el ''data-original-transform'' = None
                    then el\<lparr>attrs := (attrs el)(''data-original-transform'' \<mapsto> orEmpty (attrs el ''transform''))\<rparr>
                    else el);
             originalTransform = orEmpty (attrs el1 ''data-original-transform'')
         in if originalTransform \<noteq> []
            then el1\<lparr>attrs := (attrs el1)(''transform'' \<mapsto> originalTransform @ lit '' '' @ translateStr dx dy)\<rparr>
            else el1\<lparr>attrs := (attrs el1)(''transform'' \<mapsto> translateStr dx dy)\<rparr>))"

fun applyOp :: "domOp \<Rightarrow> Element \<Rightarrow> Element" where
  "applyOp (Translate dx dy) el = translateElement dx dy el"
| "applyOp (SetAttr k v) el = el\<lparr>attrs := (attrs el)(k \<mapsto> v)\<rparr>"

definition exec :: "(elem \<times> domOp) list \<Rightarrow> dom \<Rightarrow> dom" where
  "exec ops d = fold (\<lambda>(x, op) d'. d'(x := applyOp op (d' x))) ops d"

text \<open>
  The attributes \<open>transform\<close> and \<open>data-original-transform\<close> of an element, and what one
  translation makes of this pair.
\<close>

definition pairOf :: "Element \<Rightarrow> jstring option \<times> jstring option" where
  "pairOf el = (attrs el ''transform'', attrs el ''data-original-transform'')"

definition tstep :: "real \<times> real \<Rightarrow> jstring option \<times> jstring option \<Rightarrow> jstring option \<times> jstring option" where
  "tstep dl p = pairOf (translateElement (fst dl) (snd dl)
                   \<lparr>tagName = [], attrs = Map.empty(''transform'' := fst p, ''data-original-transform'' := snd p)\<rparr>)"

text \<open>
  The transform that a translation writes, from its delta and the stored original
  afterwards.
\<close>

definition written :: "real \<times> real \<Rightarrow> jstring option \<Rightarrow> jstring option" where
  "written dl orig =
     (if fst dl = 0 \<and> snd dl = 0 then (if truthy orig then orig else None)
      else Some (if orEmpty orig \<noteq> [] then orEmpty orig @ lit '' '' @ translateStr (fst dl) (snd dl)
                 else translateStr (fst dl) (snd dl)))"

text \<open>
  The deltas of the translations in a list of operations; the last value that the list
  sets for an attribute; and the operations that touch \<open>transform\<close> and
  \<open>data-original-transform\<close> only by a translation.
\<close>

fun deltas :: "domOp list \<Rightarrow> (real \<times> real) list" where
  "deltas [] = []"
| "deltas (Translate dx dy # os) = (dx, dy) # deltas os"
| "deltas (SetAttr k v # os) = deltas os"

fun lastSet :: "string \<Rightarrow> domOp list \<Rightarrow> jstring option" where
  "lastSet k [] = None"
| "lastSet k (Translate dx dy # os) = lastSet k os"
| "lastSet k (SetAttr k' v # os) =
     (case lastSet k os of Some w \<Rightarrow> Some w | None \<Rightarrow> (if k' = k then Some v else None))"

fun coordOp :: "domOp \<Rightarrow> bool" where
  "coordOp (Translate dx dy) = True"
| "coordOp (SetAttr k v) = (k \<noteq> ''transform'' \<and> k \<noteq> ''data-original-transform'')"

text \<open>
  The tag name of every element of the document.
\<close>

definition tagsOf :: "dom \<Rightarrow> elem \<Rightarrow> string" where
  "tagsOf d x = tagName (d x)"

text \<open>
  The operations of \<open>applyNodeTransform\<close>, of \<open>updateEdgeElement\<close>, of \<open>updateEdgeLabel\<close> and of
  \<open>updateEdgeDecorations\<close>, in the order of the code; \<open>edgeOps\<close> are those of one edge.
\<close>

definition nodeOps :: "ParsedNode \<Rightarrow> (elem \<times> domOp) list" where
  "nodeOps n = map (\<lambda>el. (el, Translate (nodeX n - originalX n) (nodeY n - originalY n))) (elements n)"

definition edgeElementOps :: "(elem \<Rightarrow> string) \<Rightarrow> ParsedEdge \<Rightarrow> (elem \<times> domOp) list" where
  "edgeElementOps tg e =
     (if tg (edgeElement e) = ''polyline''
      then [(edgeElement e, SetAttr ''points'' (pointsStr (points e)))]
      else if tg (edgeElement e) = ''line'' \<and> length (points e) \<ge> 2
      then [(edgeElement e, SetAttr ''x1'' [Num (px (points e ! 0))]),
            (edgeElement e, SetAttr ''y1'' [Num (py (points e ! 0))]),
            (edgeElement e, SetAttr ''x2'' [Num (px (points e ! (length (points e) - 1)))]),
            (edgeElement e, SetAttr ''y2'' [Num (py (points e ! (length (points e) - 1)))])]
      else [])"

definition labelDelta :: "ParsedEdge \<Rightarrow> LabelInfo \<Rightarrow> real \<times> real" where
  "labelDelta e info =
     (let desired = addPoint (pointOnPolyline (points e) (li_t info)) (li_offset info)
      in (px desired - px (li_anchor info), py desired - py (li_anchor info)))"

definition labelOps :: "ParsedEdge \<Rightarrow> (elem \<times> domOp) list" where
  "labelOps e =
     (case labelInfo e of
        None \<Rightarrow> []
      | Some info \<Rightarrow>
          (case labelBackground e of
             Some bg \<Rightarrow> [(bg, Translate (fst (labelDelta e info)) (snd (labelDelta e info)))]
           | None \<Rightarrow> []) @
          (case labelElement e of
             Some le \<Rightarrow> [(le, Translate (fst (labelDelta e info)) (snd (labelDelta e info)))]
           | None \<Rightarrow> []))"

definition decoDelta :: "ParsedEdge \<Rightarrow> Decoration \<Rightarrow> real \<times> real" where
  "decoDelta e deco =
     (let ep = points e ! (if deco_endpoint deco = Source then 0 else length (points e) - 1)
      in (px ep + px (deco_offset deco) - px (deco_anchor deco),
          py ep + py (deco_offset deco) - py (deco_anchor deco)))"

definition decoOps :: "ParsedEdge \<Rightarrow> (elem \<times> domOp) list" where
  "decoOps e =
     (case decorations e of
        None \<Rightarrow> []
      | Some decos \<Rightarrow>
          if length (points e) < 2 then []
          else map (\<lambda>deco. (deco_element deco,
                              Translate (fst (decoDelta e deco)) (snd (decoDelta e deco)))) decos)"

definition edgeOps :: "(elem \<Rightarrow> string) \<Rightarrow> ParsedEdge \<Rightarrow> (elem \<times> domOp) list" where
  "edgeOps tg e = edgeElementOps tg e @ labelOps e @ decoOps e"

text \<open>
  The endpoints of the path sit where the resolved nodes put them: at the centre of the
  node plus the cached offset.
\<close>

definition anchored :: "(string \<times> ParsedNode) list \<Rightarrow> ParsedEdge \<Rightarrow> bool" where
  "anchored ns e =
     (length (points e) < 2 \<or>
      ((\<forall>sid n. sourceNodeId e = Some sid \<and> sid \<noteq> [] \<and> map_of ns sid = Some n \<longrightarrow>
           (\<exists>off. sourceOffset e = Some off \<and>
                  points e ! 0 = \<lparr>px = px (nodeCenter n) + px off, py = py (nodeCenter n) + py off\<rparr>)) \<and>
       (\<forall>tid n. targetNodeId e = Some tid \<and> tid \<noteq> [] \<and> map_of ns tid = Some n \<longrightarrow>
           (\<exists>off. targetOffset e = Some off \<and>
                  last (points e) = \<lparr>px = px (nodeCenter n) + px off, py = py (nodeCenter n) + py off\<rparr>))))"

text \<open>
  The snapping of \<open>maintainOrthogonalEdge\<close> for three or more points: the point at index 1
  takes \<open>x\<close> or \<open>y\<close> of the first point, then the point at index \<open>length - 2\<close> takes \<open>x\<close> or \<open>y\<close>
  of the last.
\<close>

definition snapPoint :: "bool option \<Rightarrow> Point \<Rightarrow> Point \<Rightarrow> Point" where
  "snapPoint hint anchor p =
     (if hint = Some True then p\<lparr>px := px anchor\<rparr>
      else if hint = Some False then p\<lparr>py := py anchor\<rparr> else p)"

definition snapped :: "bool option \<Rightarrow> bool option \<Rightarrow> Point list \<Rightarrow> Point list" where
  "snapped h1 h2 P =
     (P[1 := snapPoint h1 (P ! 0) (P ! 1)])
       [length P - 2 := snapPoint h2 (P ! (length P - 1))
                          ((P[1 := snapPoint h1 (P ! 0) (P ! 1)]) ! (length P - 2))]"

text \<open>
  All the operations of one \<open>applyPositionUpdates\<close>: those of the nodes, then those of the
  edges after their own step.
\<close>

definition passOps :: "NodeTracker \<Rightarrow> (elem \<times> domOp) list" where
  "passOps s =
     concat (map (\<lambda>p. nodeOps (snd p)) (nodes s)) @
     concat (map (\<lambda>e. edgeOps (tagsOf (document s)) (edgeStep (nodes s) (document s) e)) (edges s))"

text \<open>
  The delta of a node: its live position less its original position.
\<close>

definition nodeDelta :: "ParsedNode \<Rightarrow> real \<times> real" where
  "nodeDelta n = (nodeX n - originalX n, nodeY n - originalY n)"

text \<open>
  The stored original transform after a translation by a delta.
\<close>

definition storedAfter :: "real \<times> real \<Rightarrow> jstring option \<Rightarrow> jstring option \<Rightarrow> jstring option" where
  "storedAfter dl t orig =
     (case orig of
        Some v \<Rightarrow> Some v
      | None \<Rightarrow> if fst dl = 0 \<and> snd dl = 0 then None else Some (orEmpty t))"

text \<open>
  The deltas of the translations that a list of operations applies to one element.
\<close>

definition projDeltas :: "elem \<Rightarrow> (elem \<times> domOp) list \<Rightarrow> (real \<times> real) list" where
  "projDeltas el ops = deltas (map snd (filter (\<lambda>p. fst p = el) ops))"

text \<open>
  The recomputed box of a group: the union of the boxes of its members, grown by the
  padding. The origin is the least \<open>x\<close> and the least \<open>y\<close> of a member less the left and
  the top padding; the width reaches from there to the greatest right side plus the right
  padding, and the height likewise.
\<close>

definition refitX :: "(string \<times> ParsedNode) list \<Rightarrow> ParsedGroup \<Rightarrow> xnum" where
  "refitX ns g = xsub (Finite (Min (nodeX ` set (groupMembers ns g)))) (pad_left (padding g))"

definition refitY :: "(string \<times> ParsedNode) list \<Rightarrow> ParsedGroup \<Rightarrow> xnum" where
  "refitY ns g = xsub (Finite (Min (nodeY ` set (groupMembers ns g)))) (pad_top (padding g))"

definition refitWidth :: "(string \<times> ParsedNode) list \<Rightarrow> ParsedGroup \<Rightarrow> xnum" where
  "refitWidth ns g =
     xsub (xadd (Finite (Max ((\<lambda>n. nodeX n + width n) ` set (groupMembers ns g))))
                (pad_right (padding g)))
          (refitX ns g)"

definition refitHeight :: "(string \<times> ParsedNode) list \<Rightarrow> ParsedGroup \<Rightarrow> xnum" where
  "refitHeight ns g =
     xsub (xadd (Finite (Max ((\<lambda>n. nodeY n + height n) ` set (groupMembers ns g))))
                (pad_bottom (padding g)))
          (refitY ns g)"

text \<open>
  A recomputed box is degenerate when its \<open>x\<close> or \<open>y\<close> is not finite or its width or height
  is not positive (\<open>w <= 0\<close>, which is false of \<open>NaN\<close>).
\<close>

definition degenerate :: "(string \<times> ParsedNode) list \<Rightarrow> ParsedGroup \<Rightarrow> bool" where
  "degenerate ns g =
     (\<not> isFinite (refitX ns g) \<or> \<not> isFinite (refitY ns g) \<or>
      xle (refitWidth ns g) (Finite 0) \<or> xle (refitHeight ns g) (Finite 0))"

text \<open>
  The offset of the label from the origin of the box: the one the group holds, or else
  12 to the right and half the header height down (14 down without a header).
\<close>

definition groupLabelOffset :: "ParsedGroup \<Rightarrow> Offset" where
  "groupLabelOffset g =
     (case labelOffset g of
        Some lo \<Rightarrow> lo
      | None \<Rightarrow> \<lparr>off_x = Finite 12,
                  off_y = (if xgt (headerHeight g) (Finite 0) then xhalf (headerHeight g)
                           else Finite 14)\<rparr>)"

text \<open>The container, the header band and the label of a group are three different elements.\<close>

definition distinctParts :: "ParsedGroup \<Rightarrow> bool" where
  "distinctParts g =
     (headerRect g \<noteq> Some (outerRect g) \<and> groupLabelElement g \<noteq> Some (outerRect g) \<and>
      (headerRect g = None \<or> groupLabelElement g \<noteq> headerRect g))"

text \<open>The writes of one refit, as a function of the recomputed box.\<close>

definition groupWrites :: "dom \<Rightarrow> ParsedGroup \<Rightarrow> xnum \<Rightarrow> xnum \<Rightarrow> xnum \<Rightarrow> xnum \<Rightarrow> dom" where
  "groupWrites d g newX newY newWidth newHeight =
     (let d1 = setAttribute d (outerRect g) ''x'' (xstr newX);
          d2 = setAttribute d1 (outerRect g) ''y'' (xstr newY);
          d3 = setAttribute d2 (outerRect g) ''width'' (xstr newWidth);
          d4 = setAttribute d3 (outerRect g) ''height'' (xstr newHeight);
          d5 = (case headerRect g of
                  None \<Rightarrow> d4
                | Some hr \<Rightarrow>
                    (let h1 = setAttribute d4 hr ''x'' (xstr newX);
                         h2 = setAttribute h1 hr ''y'' (xstr newY);
                         h3 = setAttribute h2 hr ''width'' (xstr newWidth)
                     in if xgt (headerHeight g) (Finite 0)
                        then setAttribute h3 hr ''height'' (xstr (headerHeight g))
                        else h3));
          d6 = (case groupLabelElement g of
                  None \<Rightarrow> d5
                | Some le \<Rightarrow>
                    (let l1 = setAttribute d5 le ''x'' (xstr (xadd newX (off_x (groupLabelOffset g))))
                     in setAttribute l1 le ''y'' (xstr (xadd newY (off_y (groupLabelOffset g))))))
      in d6)"

text \<open>
  A group around A for the concrete checks: container 4, header band 5 of height 15,
  label 6, padding 5 (20 at the top).
\<close>

definition demoGroup :: ParsedGroup where
  "demoGroup = \<lparr>groupId = ''group-a'', outerRect = 4, headerRect = Some 5,
     groupLabelElement = Some 6, groupOriginalX = Finite (- 5), groupOriginalY = Finite (- 20),
     groupOriginalWidth = Finite 20, groupOriginalHeight = Finite 35, headerHeight = Finite 15,
     memberNodeIds = [''node-a''],
     padding = \<lparr>pad_left = Finite 5, pad_top = Finite 20, pad_right = Finite 5,
                pad_bottom = Finite 5\<rparr>,
     labelOffset = None\<rparr>"

text \<open>
  The scene of \<open>demoTracker\<close> with a transform of its own on element 0, the shape of A, as
  the icon group of a sequence actor carries one.
\<close>

definition actorDocument :: dom where
  "actorDocument = demoDocument(0 := \<lparr>tagName = ''g'', attrs = [''transform'' \<mapsto> lit ''rotate(45)'']\<rparr>)"

definition actorTracker :: NodeTracker where
  "actorTracker = newTracker [demoNodeA, demoNodeB] [demoEdge 2] [] actorDocument"

text \<open>
  A segment is axis-parallel when its two points share \<open>x\<close> or share \<open>y\<close> exactly. A path
  is rectilinear when every segment is axis-parallel and is at least 1 long or has no
  length at all (a repeated point); it is strictly rectilinear when no point is repeated.
\<close>

definition axisSegment :: "Point \<Rightarrow> Point \<Rightarrow> bool" where
  "axisSegment a b =
     ((px a = px b \<and> 1 \<le> \<bar>py a - py b\<bar>) \<or> (py a = py b \<and> 1 \<le> \<bar>px a - px b\<bar>))"

fun rectilinear :: "Point list \<Rightarrow> bool" where
  "rectilinear (a # b # ps) = ((a = b \<or> axisSegment a b) \<and> rectilinear (b # ps))"
| "rectilinear ps = True"

fun strictlyRectilinear :: "Point list \<Rightarrow> bool" where
  "strictlyRectilinear (a # b # ps) = (axisSegment a b \<and> strictlyRectilinear (b # ps))"
| "strictlyRectilinear ps = True"

text \<open>
  Three more connectors between A and B for the concrete checks, all drawn as the
  polyline 2: a Z-shaped path of four points; a straight path with a redundant middle
  point; and a dangling path with two stubs of length 0.9 at its ends.
\<close>

definition zEdge :: ParsedEdge where
  "zEdge = (demoEdge 2)\<lparr>
     points := [\<lparr>px = 10, py = 5\<rparr>, \<lparr>px = 55, py = 5\<rparr>, \<lparr>px = 55, py = 30\<rparr>, \<lparr>px = 100, py = 30\<rparr>],
     targetOffset := Some \<lparr>px = - 5, py = 25\<rparr>\<rparr>"

definition straightEdge :: ParsedEdge where
  "straightEdge = (demoEdge 2)\<lparr>
     points := [\<lparr>px = 10, py = 5\<rparr>, \<lparr>px = 55, py = 5\<rparr>, \<lparr>px = 100, py = 5\<rparr>]\<rparr>"

definition stubEdge :: ParsedEdge where
  "stubEdge = (demoEdge 2)\<lparr>
     points := [\<lparr>px = 5, py = 49.1\<rparr>, \<lparr>px = 5, py = 50\<rparr>, \<lparr>px = 105, py = 50\<rparr>, \<lparr>px = 105, py = 50.9\<rparr>],
     sourceNodeId := None, targetNodeId := None, sourceOffset := None, targetOffset := None,
     firstSegmentVertical := Some True, lastSegmentVertical := Some True\<rparr>"

definition edgeTracker :: "ParsedEdge \<Rightarrow> NodeTracker" where
  "edgeTracker e = newTracker [demoNodeA, demoNodeB] [e] [] demoDocument"

text \<open>
  A small document for the concrete checks: the boxes A and B of \<open>demoTracker\<close>, A
  labelled, a polyline and a marker-bearing line from A to B, a polyline with a single
  point and a line without marker, and a group with a header around A.
\<close>

definition demoSvg :: SvgDocument where
  "demoSvg = \<lparr>doc_diagramType = Flowchart,
     doc_candidateShapes =
       [\<lparr>sh_element = 0, sh_box = \<lparr>bb_x = 0, bb_y = 0, bb_width = 10, bb_height = 10\<rparr>\<rparr>,
        \<lparr>sh_element = 1, sh_box = \<lparr>bb_x = 100, bb_y = 0, bb_width = 10, bb_height = 10\<rparr>\<rparr>],
     doc_texts =
       [\<lparr>tx_element = 7, tx_anchor = Some \<lparr>px = 5, py = 5\<rparr>, tx_x = 5, tx_y = 5,
         tx_label = Some [65], tx_mono = False, tx_fillSecondary = False, tx_inDefs = False\<rparr>,
        \<lparr>tx_element = 6, tx_anchor = Some \<lparr>px = 7, py = - 12\<rparr>, tx_x = 7, tx_y = - 12,
         tx_label = Some [71], tx_mono = False, tx_fillSecondary = True, tx_inDefs = False\<rparr>],
     doc_outerRects = [\<lparr>rc_element = 4, rc_x = - 5, rc_y = - 20, rc_width = 20, rc_height = 35\<rparr>],
     doc_headerRects = [\<lparr>rc_element = 5, rc_x = - 5, rc_y = - 20, rc_width = 20, rc_height = 15\<rparr>],
     doc_polylines = [\<lparr>pl_element = 2, pl_points = [\<lparr>px = 10, py = 5\<rparr>, \<lparr>px = 100, py = 5\<rparr>]\<rparr>,
                      \<lparr>pl_element = 8, pl_points = [\<lparr>px = 1, py = 1\<rparr>]\<rparr>],
     doc_lines = [\<lparr>ln_element = 3, ln_marker = True, ln_x1 = 10, ln_y1 = 5, ln_x2 = 100, ln_y2 = 5\<rparr>,
                  \<lparr>ln_element = 9, ln_marker = False, ln_x1 = 0, ln_y1 = 0, ln_x2 = 1, ln_y2 = 1\<rparr>]\<rparr>"

text \<open>The coordinates of every entry are finite numbers.\<close>

definition finitePositions :: "(ustring \<times> Position) list \<Rightarrow> bool" where
  "finitePositions positions =
     list_all (\<lambda>(ident, pos). isFinite (pos_x pos) \<and> isFinite (pos_y pos)) positions"

section \<open>Properties\<close>

subsection \<open>pointOnPolyline\<close>

lemma foldl_plus_sum: "foldl (+) (a::real) xs = a + sum_list xs"
  by (induction xs arbitrary: a) auto

lemma hypot_axis [simp]: "hypot a 0 = \<bar>a\<bar>" "hypot 0 b = \<bar>b\<bar>"
  by (simp_all add: hypot_def)

lemma hypot_nonneg: "0 \<le> hypot a b"
  by (simp add: hypot_def)

lemma segLens_nonneg: "l \<in> set (segLens ps) \<Longrightarrow> 0 \<le> l"
  by (induction ps rule: segLens.induct) (auto simp: hypot_def)

lemma segLens_length: "length (segLens ps) = length ps - 1"
  by (induction ps rule: segLens.induct) auto

text \<open>
  With exact arithmetic the walk always stops inside the path: the fall-through to the
  last point is never taken when the target is at most the total length.
\<close>

lemma walk_reaches:
  "target \<le> acc + sum_list (segLens ps) \<Longrightarrow> 2 \<le> length ps \<Longrightarrow>
   \<exists>p. walkSegments ps (segLens ps) acc target = Some p"
proof (induction ps arbitrary: acc rule: segLens.induct)
  case (1 a b ps)
  show ?case
  proof (cases "acc + hypot (px b - px a) (py b - py a) \<ge> target")
    case True
    then show ?thesis by (simp add: Let_def)
  next
    case False
    have "ps \<noteq> []" using False 1(2) by (cases ps) auto
    then have "2 \<le> length (b # ps)" by (cases ps) auto
    then show ?thesis using 1 False by (simp add: add.assoc)
  qed
qed auto

lemma walk_arc:
  "walkSegments ps (segLens ps) acc target = Some p \<Longrightarrow> acc \<le> target \<Longrightarrow>
   \<exists>i u. Suc i < length ps \<and> 0 \<le> u \<and> u \<le> 1 \<and> p = lerp (ps ! i) (ps ! Suc i) u \<and>
         acc + sum_list (take i (segLens ps)) + u * (segLens ps ! i) = target"
proof (induction ps arbitrary: acc rule: segLens.induct)
  case (1 a b ps)
  let ?len = "hypot (px b - px a) (py b - py a)"
  have len0: "0 \<le> ?len" by (rule hypot_nonneg)
  show ?case
  proof (cases "acc + ?len \<ge> target")
    case True
    let ?u = "if ?len = 0 then 0 else (target - acc) / ?len"
    have p: "p = lerp a b ?u" using 1(2) True by (simp add: Let_def lerp_def)
    have u0: "0 \<le> ?u" using 1(3) len0 by simp
    have u1: "?u \<le> 1" using True len0 by (simp add: divide_le_eq)
    have tgt: "acc + ?u * ?len = target" using True 1(3) len0 by auto
    show ?thesis
      apply (rule exI[of _ 0], rule exI[of _ ?u])
      using p u0 u1 tgt by simp
  next
    case False
    then have w: "walkSegments (b # ps) (segLens (b # ps)) (acc + ?len) target = Some p"
      using 1(2) by simp
    have "acc + ?len \<le> target" using False by simp
    from 1(1)[OF w this] obtain i u where
      iu: "Suc i < length (b # ps)" "0 \<le> u" "u \<le> 1"
          "p = lerp ((b # ps) ! i) ((b # ps) ! Suc i) u"
          "acc + ?len + sum_list (take i (segLens (b # ps))) + u * (segLens (b # ps) ! i) = target"
      by blast
    show ?thesis
      apply (rule exI[of _ "Suc i"], rule exI[of _ u])
      using iu by (simp add: add.assoc)
  qed
qed auto

lemma pointOnPolyline_arc:
  assumes len: "2 \<le> length ps" and pos: "0 < sum_list (segLens ps)"
  shows "\<exists>i u. Suc i < length ps \<and> 0 \<le> u \<and> u \<le> 1 \<and>
           pointOnPolyline ps t = lerp (ps ! i) (ps ! Suc i) u \<and>
           sum_list (take i (segLens ps)) + u * (segLens ps ! i)
             = sum_list (segLens ps) * max 0 (min 1 t)"
proof -
  let ?total = "sum_list (segLens ps)"
  let ?target = "?total * max 0 (min 1 t)"
  have t1: "?target \<le> 0 + ?total"
    using pos by (simp add: mult_left_le)
  have t0: "0 \<le> ?target" using pos by simp
  from walk_reaches[OF t1 len] obtain p where
    w: "walkSegments ps (segLens ps) 0 ?target = Some p" by blast
  have ne: "length ps \<noteq> 0" "length ps \<noteq> 1" using len by auto
  have r: "pointOnPolyline ps t = p"
    using ne pos w by (simp add: pointOnPolyline_def Let_def foldl_plus_sum)
  from walk_arc[OF w t0] show ?thesis using r by simp
qed



subsection \<open>The document and the data of an edge\<close>

lemma tagName_setAttribute [simp]: "tagName (setAttribute d el k v x) = tagName (d x)"
  by (simp add: setAttribute_def)

lemma tagName_removeAttribute [simp]: "tagName (removeAttribute d el k x) = tagName (d x)"
  by (simp add: removeAttribute_def)

lemma tagName_applyTranslate [simp]: "tagName (applyTranslate d el dx dy x) = tagName (d x)"
  by (simp add: applyTranslate_def Let_def)

lemma tagName_updateEdgeElement [simp]: "tagName (updateEdgeElement d e x) = tagName (d x)"
  by (simp add: updateEdgeElement_def Let_def)

lemma tagName_updateEdgeLabel [simp]: "tagName (updateEdgeLabel d e x) = tagName (d x)"
  by (simp add: updateEdgeLabel_def Let_def split: option.splits)

lemma tagName_fold_applyTranslate:
  "tagName (fold (\<lambda>a d'. applyTranslate d' (f a) (g a) (h a)) xs d x) = tagName (d x)"
  by (induction xs arbitrary: d) auto

lemma tagName_updateEdgeDecorations [simp]: "tagName (updateEdgeDecorations d e x) = tagName (d x)"
  by (simp add: updateEdgeDecorations_def Let_def tagName_fold_applyTranslate split: option.splits)

lemma maintain_cong:
  "tagName (d (edgeElement e)) = tagName (d' (edgeElement e)) \<Longrightarrow>
   maintainOrthogonalEdge d e = maintainOrthogonalEdge d' e"
  by (simp add: maintainOrthogonalEdge_def)

lemma edgeElement_updateEdgeEndpoints [simp]:
  "edgeElement (updateEdgeEndpoints ns e) = edgeElement e"
  by (simp add: updateEdgeEndpoints_def Let_def split: option.splits)

lemma length_updateEdgeEndpoints [simp]:
  "length (points (updateEdgeEndpoints ns e)) = length (points e)"
  by (simp add: updateEdgeEndpoints_def Let_def split: option.splits)

lemma maintain_keeps_first:
  "points (maintainOrthogonalEdge d e) ! 0 = points e ! 0"
  by (cases "points e" rule: list.exhaust; cases "tl (points e)")
     (auto simp: maintainOrthogonalEdge_def Let_def nth_list_update)

lemma maintain_keeps_last:
  "last (points (maintainOrthogonalEdge d e)) = last (points e)"
proof (cases "length (points e) < 3")
  case True
  then show ?thesis
    by (cases "points e" rule: list.exhaust; cases "tl (points e)")
       (auto simp: maintainOrthogonalEdge_def Let_def)
next
  case False
  then have n: "3 \<le> length (points e)" by simp
  then have ne: "points e \<noteq> []" by auto
  show ?thesis using n ne
    by (auto simp: maintainOrthogonalEdge_def Let_def last_list_update)
qed

lemma length_maintain:
  "length (points e) \<le> length (points (maintainOrthogonalEdge d e))"
  by (auto simp: maintainOrthogonalEdge_def Let_def)

lemma updateEdgeEndpoints_source:
  assumes "2 \<le> length (points e)" "sourceNodeId e = Some sid" "sid \<noteq> []" "map_of ns sid = Some n"
  shows "sourceOffset (updateEdgeEndpoints ns e)
           = Some (case sourceOffset e of
                     None \<Rightarrow> \<lparr>px = px (points e ! 0) - px (nodeCenter n),
                               py = py (points e ! 0) - py (nodeCenter n)\<rparr>
                   | Some cached \<Rightarrow> cached)"
    and "points (updateEdgeEndpoints ns e) ! 0
           = addPoint (nodeCenter n) (the (sourceOffset (updateEdgeEndpoints ns e)))"
proof -
  have n0: "0 < length (points e)" "0 < length (points e) - 1" using assms(1) by auto
  show "sourceOffset (updateEdgeEndpoints ns e)
           = Some (case sourceOffset e of
                     None \<Rightarrow> \<lparr>px = px (points e ! 0) - px (nodeCenter n),
                               py = py (points e ! 0) - py (nodeCenter n)\<rparr>
                   | Some cached \<Rightarrow> cached)"
    using assms
    by (auto simp: updateEdgeEndpoints_def Let_def split: option.splits)
  show "points (updateEdgeEndpoints ns e) ! 0
           = addPoint (nodeCenter n) (the (sourceOffset (updateEdgeEndpoints ns e)))"
    using assms n0
    by (auto simp: updateEdgeEndpoints_def Let_def addPoint_def nth_list_update split: option.splits)
qed

lemma updateEdgeEndpoints_target:
  assumes "2 \<le> length (points e)" "targetNodeId e = Some tid" "tid \<noteq> []" "map_of ns tid = Some n"
  shows "targetOffset (updateEdgeEndpoints ns e)
           = Some (case targetOffset e of
                     None \<Rightarrow> \<lparr>px = px (last (points e)) - px (nodeCenter n),
                               py = py (last (points e)) - py (nodeCenter n)\<rparr>
                   | Some cached \<Rightarrow> cached)"
    and "last (points (updateEdgeEndpoints ns e))
           = addPoint (nodeCenter n) (the (targetOffset (updateEdgeEndpoints ns e)))"
proof -
  have ne: "points e \<noteq> []" using assms(1) by auto
  show "targetOffset (updateEdgeEndpoints ns e)
           = Some (case targetOffset e of
                     None \<Rightarrow> \<lparr>px = px (last (points e)) - px (nodeCenter n),
                               py = py (last (points e)) - py (nodeCenter n)\<rparr>
                   | Some cached \<Rightarrow> cached)"
    using assms ne
    by (auto simp: updateEdgeEndpoints_def Let_def last_conv_nth split: option.splits)
  show "last (points (updateEdgeEndpoints ns e))
           = addPoint (nodeCenter n) (the (targetOffset (updateEdgeEndpoints ns e)))"
    using assms ne
    by (auto simp: updateEdgeEndpoints_def Let_def addPoint_def last_list_update split: option.splits)
qed

lemma offsets_maintain [simp]:
  "sourceOffset (maintainOrthogonalEdge d e) = sourceOffset e"
  "targetOffset (maintainOrthogonalEdge d e) = targetOffset e"
  "sourceNodeId (maintainOrthogonalEdge d e) = sourceNodeId e"
  "targetNodeId (maintainOrthogonalEdge d e) = targetNodeId e"
  "edgeElement (maintainOrthogonalEdge d e) = edgeElement e"
  by (auto simp: maintainOrthogonalEdge_def Let_def)

lemma tagName_applyEdgeUpdate [simp]:
  "tagName (fst (applyEdgeUpdate ns d e) x) = tagName (d x)"
  by (simp add: applyEdgeUpdate_def Let_def)

lemma snd_applyEdgeUpdate [simp]: "snd (applyEdgeUpdate ns d e) = edgeStep ns d e"
  by (simp add: applyEdgeUpdate_def Let_def edgeStep_def)

lemma edgeStep_cong:
  "(\<And>x. tagName (d x) = tagName (d' x)) \<Longrightarrow> edgeStep ns d e = edgeStep ns d' e"
  unfolding edgeStep_def by (rule maintain_cong) simp

lemma applyEdgeUpdates_edges:
  "snd (applyEdgeUpdates ns d es) = map (edgeStep ns d) es \<and>
   (\<forall>x. tagName (fst (applyEdgeUpdates ns d es) x) = tagName (d x))"
proof (induction es arbitrary: d)
  case Nil
  show ?case by simp
next
  case (Cons e es)
  obtain d1 e1 where s1: "applyEdgeUpdate ns d e = (d1, e1)" by (cases "applyEdgeUpdate ns d e")
  have t1: "\<And>x. tagName (d1 x) = tagName (d x)"
    using tagName_applyEdgeUpdate[of ns d e] s1 by simp
  have e1: "e1 = edgeStep ns d e" using snd_applyEdgeUpdate[of ns d e] s1 by simp
  obtain d2 es2 where s2: "applyEdgeUpdates ns d1 es = (d2, es2)" by (cases "applyEdgeUpdates ns d1 es")
  from Cons[of d1] s2 have ih: "es2 = map (edgeStep ns d1) es" "\<And>x. tagName (d2 x) = tagName (d1 x)"
    by auto
  have "map (edgeStep ns d1) es = map (edgeStep ns d) es"
    using edgeStep_cong[OF t1] by (intro map_cong) auto
  then show ?case using s1 s2 ih e1 t1 by simp
qed

lemma applyNodeTransform_fold:
  "applyNodeTransform d n =
     fold (\<lambda>el d'. applyTranslate d' el (nodeX n - originalX n) (nodeY n - originalY n))
       (elements n) d"
proof -
  define dx where "dx = nodeX n - originalX n"
  define dy where "dy = nodeY n - originalY n"
  have A: "applyNodeTransform d n =
     (if dx = 0 \<and> dy = 0 then
           fold (\<lambda>element d'.
                  if truthy (getAttribute d' element ''data-original-transform'')
                  then setAttribute d' element ''transform''
                         (orEmpty (getAttribute d' element ''data-original-transform''))
                  else removeAttribute d' element ''transform'')
             (elements n) d
         else
           fold (\<lambda>element d'.
                  (let d1 = (if \<not> hasAttribute d' element ''data-original-transform''
                             then setAttribute d' element ''data-original-transform''
                                    (orEmpty (getAttribute d' element ''transform''))
                             else d');
                       originalTransform =
                         orEmpty (getAttribute d1 element ''data-original-transform'');
                       translate = translateStr dx dy
                   in if originalTransform \<noteq> []
                      then setAttribute d1 element ''transform''
                             (originalTransform @ lit '' '' @ translate)
                      else setAttribute d1 element ''transform'' translate))
             (elements n) d)"
    by (simp only: applyNodeTransform_def Let_def dx_def dy_def)
  have B: "applyNodeTransform d n = fold (\<lambda>el d'. applyTranslate d' el dx dy) (elements n) d"
  proof (cases "dx = 0 \<and> dy = 0")
    case True
    have "(\<lambda>el d'. applyTranslate d' el dx dy)
        = (\<lambda>element d'.
                  if truthy (getAttribute d' element ''data-original-transform'')
                  then setAttribute d' element ''transform''
                         (orEmpty (getAttribute d' element ''data-original-transform''))
                  else removeAttribute d' element ''transform'')"
      using True by (intro ext) (simp add: applyTranslate_def)
    then show ?thesis using True by (simp add: A)
  next
    case False
    have "(\<lambda>el d'. applyTranslate d' el dx dy)
        = (\<lambda>element d'.
                  (let d1 = (if \<not> hasAttribute d' element ''data-original-transform''
                             then setAttribute d' element ''data-original-transform''
                                    (orEmpty (getAttribute d' element ''transform''))
                             else d');
                       originalTransform =
                         orEmpty (getAttribute d1 element ''data-original-transform'');
                       translate = translateStr dx dy
                   in if originalTransform \<noteq> []
                      then setAttribute d1 element ''transform''
                             (originalTransform @ lit '' '' @ translate)
                      else setAttribute d1 element ''transform'' translate))"
      using False by (intro ext) (simp only: applyTranslate_def if_False)
    then show ?thesis by (simp only: A False if_False)
  qed
  show ?thesis using B by (simp only: dx_def dy_def)
qed

lemma tagName_applyNodeTransform [simp]:
  "tagName (applyNodeTransform d n x) = tagName (d x)"
  by (simp add: applyNodeTransform_fold tagName_fold_applyTranslate)

lemma tagName_fold_nodes:
  "tagName (fold (\<lambda>(ident, node) d'. applyNodeTransform d' node) ns d x) = tagName (d x)"
  by (induction ns arbitrary: d) auto

lemma applyPositionUpdates_edges:
  "edges (applyPositionUpdates s) = map (edgeStep (nodes s) (document s)) (edges s)"
proof -
  let ?d1 = "fold (\<lambda>(ident, node) d. applyNodeTransform d node) (nodes s) (document s)"
  have "snd (applyEdgeUpdates (nodes s) ?d1 (edges s)) = map (edgeStep (nodes s) ?d1) (edges s)"
    using applyEdgeUpdates_edges by blast
  moreover have "map (edgeStep (nodes s) ?d1) (edges s) = map (edgeStep (nodes s) (document s)) (edges s)"
    by (intro map_cong refl edgeStep_cong) (simp add: tagName_fold_nodes)
  ultimately have "snd (applyEdgeUpdates (nodes s) ?d1 (edges s)) = map (edgeStep (nodes s) (document s)) (edges s)"
    by simp
  then show ?thesis
    by (cases "applyEdgeUpdates (nodes s) ?d1 (edges s)") (simp add: applyPositionUpdates_def Let_def)
qed

lemma applyPositionUpdates_nodes [simp]:
  "nodes (applyPositionUpdates s) = nodes s"
  by (simp add: applyPositionUpdates_def Let_def split: prod.splits)

lemma updateNodePosition_unchanged [simp]:
  "edges (snd (updateNodePosition s i x y)) = edges s"
  "document (snd (updateNodePosition s i x y)) = document s"
  "groups (snd (updateNodePosition s i x y)) = groups s"
  "originalPositions (snd (updateNodePosition s i x y)) = originalPositions s"
  by (auto simp: updateNodePosition_def split: option.splits)

lemma map_of_update_None:
  "(map_of (AList.update k v al) k' = None) = (k' \<noteq> k \<and> map_of al k' = None)"
  by (simp add: update_conv')

lemma updateNodePosition_keys:
  "(map_of (nodes (snd (updateNodePosition s i x y))) k = None) = (map_of (nodes s) k = None)"
  by (auto simp: updateNodePosition_def map_of_update_None split: option.splits)

lemma moveNodes_Nil [simp]: "moveNodes s [] = s"
  by (simp add: moveNodes_def)

lemma moveNodes_Cons [simp]:
  "moveNodes s (m # ms) = moveNodes (snd (updateNodePosition s (fst m) (px (snd m)) (py (snd m)))) ms"
  by (cases m) (simp add: moveNodes_def)

lemma moveNodes_edges [simp]: "edges (moveNodes s m) = edges s"
  by (induction m arbitrary: s) simp_all

lemma moveNodes_document [simp]: "document (moveNodes s m) = document s"
  by (induction m arbitrary: s) simp_all

lemma moveNodes_groups [simp]: "groups (moveNodes s m) = groups s"
  by (induction m arbitrary: s) simp_all

lemma moveNodes_originalPositions [simp]: "originalPositions (moveNodes s m) = originalPositions s"
  by (induction m arbitrary: s) simp_all

lemma moveNodes_keys:
  "(map_of (nodes (moveNodes s m)) k = None) = (map_of (nodes s) k = None)"
  by (induction m arbitrary: s) (simp_all add: updateNodePosition_keys)

lemma edgeStep_source:
  assumes "2 \<le> length (points e)" "sourceNodeId e = Some sid" "sid \<noteq> []" "map_of ns sid = Some n"
  shows "\<exists>off. sourceOffset (edgeStep ns d e) = Some off \<and>
           points (edgeStep ns d e) ! 0 = addPoint (nodeCenter n) off \<and>
           (\<forall>c. sourceOffset e = Some c \<longrightarrow> off = c)"
  using updateEdgeEndpoints_source[OF assms]
  by (auto simp: edgeStep_def maintain_keeps_first split: option.splits)

lemma edgeStep_target:
  assumes "2 \<le> length (points e)" "targetNodeId e = Some tid" "tid \<noteq> []" "map_of ns tid = Some n"
  shows "\<exists>off. targetOffset (edgeStep ns d e) = Some off \<and>
           last (points (edgeStep ns d e)) = addPoint (nodeCenter n) off \<and>
           (\<forall>c. targetOffset e = Some c \<longrightarrow> off = c)"
  using updateEdgeEndpoints_target[OF assms]
  by (auto simp: edgeStep_def maintain_keeps_last split: option.splits)

text \<open>
  Claim C2, as amended. Take an edge with at least two points whose source and target
  identifiers both name a node of the tracker. After any sequence of \<open>updateNodePosition\<close>
  calls and one \<open>applyPositionUpdates\<close>, the first point of its path is the centre of the
  source node plus the cached source offset and the last point is the centre of the
  target node plus the cached target offset; an offset that was cached before is kept.
  The orthogonality step leaves the first and the last point of every path where they
  are.
\<close>

theorem edge_endpoints_follow_nodes:
  assumes "i < length (edges s)"
    and "2 \<le> length (points (edges s ! i))"
    and "sourceNodeId (edges s ! i) = Some sid" "sid \<noteq> []" "map_of (nodes s) sid \<noteq> None"
    and "targetNodeId (edges s ! i) = Some tid" "tid \<noteq> []" "map_of (nodes s) tid \<noteq> None"
  shows "(let s' = applyPositionUpdates (moveNodes s moves); e' = edges s' ! i in
          \<exists>sn tn soff toff.
            map_of (nodes s') sid = Some sn \<and> map_of (nodes s') tid = Some tn \<and>
            sourceOffset e' = Some soff \<and> targetOffset e' = Some toff \<and>
            points e' ! 0 = addPoint (nodeCenter sn) soff \<and>
            last (points e') = addPoint (nodeCenter tn) toff \<and>
            (\<forall>c. sourceOffset (edges s ! i) = Some c \<longrightarrow> soff = c) \<and>
            (\<forall>c. targetOffset (edges s ! i) = Some c \<longrightarrow> toff = c)) \<and>
         (\<forall>d e. points (maintainOrthogonalEdge d e) ! 0 = points e ! 0 \<and>
                last (points (maintainOrthogonalEdge d e)) = last (points e))"
proof -
  let ?s1 = "moveNodes s moves"
  let ?e = "edges s ! i"
  obtain sn where sn: "map_of (nodes ?s1) sid = Some sn"
    using assms(5) moveNodes_keys[of s moves sid] by (cases "map_of (nodes ?s1) sid") auto
  obtain tn where tn: "map_of (nodes ?s1) tid = Some tn"
    using assms(8) moveNodes_keys[of s moves tid] by (cases "map_of (nodes ?s1) tid") auto
  have e': "edges (applyPositionUpdates ?s1) ! i = edgeStep (nodes ?s1) (document ?s1) ?e"
    using assms(1) by (simp add: applyPositionUpdates_edges)
  from edgeStep_source[OF assms(2,3,4) sn, of "document ?s1"] obtain soff where
    so: "sourceOffset (edgeStep (nodes ?s1) (document ?s1) ?e) = Some soff"
        "points (edgeStep (nodes ?s1) (document ?s1) ?e) ! 0 = addPoint (nodeCenter sn) soff"
        "\<forall>c. sourceOffset ?e = Some c \<longrightarrow> soff = c" by blast
  from edgeStep_target[OF assms(2,6,7) tn, of "document ?s1"] obtain toff where
    to: "targetOffset (edgeStep (nodes ?s1) (document ?s1) ?e) = Some toff"
        "last (points (edgeStep (nodes ?s1) (document ?s1) ?e)) = addPoint (nodeCenter tn) toff"
        "\<forall>c. targetOffset ?e = Some c \<longrightarrow> toff = c" by blast
  show ?thesis
    unfolding Let_def e'
    using sn tn so to maintain_keeps_first maintain_keeps_last by simp
qed

lemma demoTracker_simps:
  "nodes demoTracker = [(''node-a'', demoNodeA), (''node-b'', demoNodeB)]"
  "originalPositions demoTracker = [(''node-a'', \<lparr>px = 0, py = 0\<rparr>), (''node-b'', \<lparr>px = 100, py = 0\<rparr>)]"
  "edges demoTracker = [demoEdge 2]"
  "groups demoTracker = []"
  "document demoTracker = demoDocument"
  by (simp_all add: demoTracker_def newTracker_def demoNodeA_def demoNodeB_def)

theorem edge_endpoints_follow_nodes_witness:
  "points (edges (applyPositionUpdates
             (moveNodes demoTracker [(''node-b'', \<lparr>px = 100, py = 50\<rparr>)])) ! 0) ! 0
     = \<lparr>px = 10, py = 5\<rparr> \<and>
   last (points (edges (applyPositionUpdates
             (moveNodes demoTracker [(''node-b'', \<lparr>px = 100, py = 50\<rparr>)])) ! 0))
     = \<lparr>px = 100, py = 55\<rparr>"
proof -
  let ?m = "[(''node-b'', \<lparr>px = 100, py = 50\<rparr>)]"
  have h: "0 < length (edges demoTracker)" "2 \<le> length (points (edges demoTracker ! 0))"
    "sourceNodeId (edges demoTracker ! 0) = Some ''node-a''" "''node-a'' \<noteq> []"
    "map_of (nodes demoTracker) ''node-a'' \<noteq> None"
    "targetNodeId (edges demoTracker ! 0) = Some ''node-b''" "''node-b'' \<noteq> []"
    "map_of (nodes demoTracker) ''node-b'' \<noteq> None"
    by (simp_all add: demoTracker_simps demoEdge_def)
  have n: "nodes (applyPositionUpdates (moveNodes demoTracker ?m))
      = [(''node-a'', demoNodeA), (''node-b'', demoNodeB\<lparr>nodeX := 100, nodeY := 50\<rparr>)]"
    by (simp add: demoTracker_simps updateNodePosition_def)
  have o: "sourceOffset (edges demoTracker ! 0) = Some \<lparr>px = 5, py = 0\<rparr>"
     "targetOffset (edges demoTracker ! 0) = Some \<lparr>px = - 5, py = 0\<rparr>"
    by (simp_all add: demoTracker_simps demoEdge_def)
  show ?thesis
    using edge_endpoints_follow_nodes[OF h, of ?m] n o
    by (auto simp: Let_def addPoint_def nodeCenter_def demoNodeA_def demoNodeB_def)
qed

lemma dedupeLoop_Cons:
  "dedupeLoop acc (c # rest)
     = (if closeTo c (last acc) then dedupeLoop acc rest else dedupeLoop (acc @ [c]) rest)"
  by (simp add: closeTo_def Let_def)

lemma length_dedupeLoop: "length acc \<le> length (dedupeLoop acc rest)"
proof (induction rest arbitrary: acc)
  case (Cons c rest)
  have "length acc \<le> length (acc @ [c])" by simp
  also have "\<dots> \<le> length (dedupeLoop (acc @ [c]) rest)" by (rule Cons)
  finally show ?case using Cons[of acc] by (simp add: dedupeLoop_Cons del: dedupeLoop.simps)
qed simp

lemma dedupeLoop_grows:
  "(length acc < length (dedupeLoop acc rest)) = (\<exists>q \<in> set rest. \<not> closeTo q (last acc))"
proof (induction rest arbitrary: acc)
  case (Cons c rest)
  show ?case
  proof (cases "closeTo c (last acc)")
    case True
    then show ?thesis using Cons[of acc] by (simp add: dedupeLoop_Cons del: dedupeLoop.simps)
  next
    case False
    have "length acc < length (acc @ [c])" by simp
    also have "\<dots> \<le> length (dedupeLoop (acc @ [c]) rest)" by (rule length_dedupeLoop)
    finally show ?thesis using False by (auto simp add: dedupeLoop_Cons simp del: dedupeLoop.simps)
  qed
qed simp

lemma length_collinearLoop: "length out \<le> length (collinearLoop out rest)"
proof (induction out rest rule: collinearLoop.induct)
  case (1 out b c rest)
  then show ?case by (auto simp: Let_def intro: order_trans[where y="length (out @ [b])"])
qed auto

lemma simplifyPoints_nonempty: "pts \<noteq> [] \<Longrightarrow> simplifyPoints pts \<noteq> []"
proof -
  assume ne: "pts \<noteq> []"
  have "1 \<le> length (dedupeLoop [pts ! 0] (tl pts))"
    using length_dedupeLoop[of "[pts ! 0]" "tl pts"] by simp
  then have "dedupeLoop [pts ! 0] (tl pts) \<noteq> []" by auto
  then show ?thesis using ne by (auto simp: simplifyPoints_def Let_def)
qed

lemma simplifyPoints_two:
  "(2 \<le> length (simplifyPoints pts))
     = (2 \<le> length pts \<and> (\<exists>q \<in> set (tl pts). \<not> closeTo q (pts ! 0)))"
proof (cases "length pts < 2")
  case True
  then show ?thesis by (simp add: simplifyPoints_def)
next
  case False
  let ?dd = "dedupeLoop [pts ! 0] (tl pts)"
  have g: "(1 < length ?dd) = (\<exists>q \<in> set (tl pts). \<not> closeTo q (pts ! 0))"
    using dedupeLoop_grows[of "[pts ! 0]" "tl pts"] by simp
  have c: "1 \<le> length (collinearLoop [?dd ! 0] (tl ?dd))"
    using length_collinearLoop[of "[?dd ! 0]" "tl ?dd"] by simp
  show ?thesis
  proof (cases "length ?dd < 3")
    case True
    then show ?thesis using False g by (auto simp: simplifyPoints_def Let_def)
  next
    case F3: False
    then have "1 < length ?dd" by simp
    then show ?thesis using False g F3 c by (auto simp: simplifyPoints_def Let_def)
  qed
qed

lemma points_recomputeEdgeHints [simp]: "points (recomputeEdgeHints e) = points e"
  by (simp add: recomputeEdgeHints_def Let_def)

lemma edgeElement_recomputeEdgeHints [simp]: "edgeElement (recomputeEdgeHints e) = edgeElement e"
  by (simp add: recomputeEdgeHints_def Let_def)

lemma points_polishStep:
  "points (polishStep ns d e) = simplifyPoints (points (edgeStep ns d e))"
  by (simp add: polishStep_def)

lemma snd_polishEdge [simp]: "snd (polishEdge ns d e) = polishStep ns d e"
  by (simp add: polishEdge_def polishStep_def edgeStep_def Let_def)

lemma tagName_polishEdge [simp]: "tagName (fst (polishEdge ns d e) x) = tagName (d x)"
  by (simp add: polishEdge_def Let_def)

lemma polishStep_cong:
  "(\<And>x. tagName (d x) = tagName (d' x)) \<Longrightarrow> polishStep ns d e = polishStep ns d' e"
  unfolding polishStep_def by (simp add: edgeStep_cong[of d d'])

lemma polishEdges_edges:
  "snd (polishEdges ns d es) = map (polishStep ns d) es \<and>
   (\<forall>x. tagName (fst (polishEdges ns d es) x) = tagName (d x))"
proof (induction es arbitrary: d)
  case Nil
  show ?case by simp
next
  case (Cons e es)
  obtain d1 e1 where s1: "polishEdge ns d e = (d1, e1)" by (cases "polishEdge ns d e")
  have t1: "\<And>x. tagName (d1 x) = tagName (d x)"
    using tagName_polishEdge[of ns d e] s1 by simp
  have e1: "e1 = polishStep ns d e" using snd_polishEdge[of ns d e] s1 by simp
  obtain d2 es2 where s2: "polishEdges ns d1 es = (d2, es2)" by (cases "polishEdges ns d1 es")
  from Cons[of d1] s2 have ih: "es2 = map (polishStep ns d1) es" "\<And>x. tagName (d2 x) = tagName (d1 x)"
    by auto
  have "map (polishStep ns d1) es = map (polishStep ns d) es"
    using polishStep_cong[OF t1] by (intro map_cong) auto
  then show ?case using s1 s2 ih e1 t1 by simp
qed

lemma polishLayout_edges:
  "edges (polishLayout s) = map (polishStep (nodes s) (document s)) (edges s)"
proof -
  have "snd (polishEdges (nodes s) (document s) (edges s))
          = map (polishStep (nodes s) (document s)) (edges s)"
    using polishEdges_edges by blast
  then show ?thesis
    by (cases "polishEdges (nodes s) (document s) (edges s)") (simp add: polishLayout_def Let_def)
qed

lemma polishLayout_nodes [simp]: "nodes (polishLayout s) = nodes s"
  by (cases "polishEdges (nodes s) (document s) (edges s)") (simp add: polishLayout_def Let_def)

lemma simplify_two: "orthogonalPath [a, b] \<Longrightarrow> orthogonalPath (simplifyPoints [a, b])"
  by (auto simp: simplifyPoints_def Let_def)

lemma simplify_bend_vertical:
  "1 \<le> \<bar>px b - px a\<bar> \<Longrightarrow> 1 \<le> \<bar>py b - py a\<bar> \<Longrightarrow>
   simplifyPoints [a, \<lparr>px = px a, py = py b\<rparr>, b] = [a, \<lparr>px = px a, py = py b\<rparr>, b]"
  by (auto simp: simplifyPoints_def Let_def)

lemma simplify_bend_horizontal:
  "1 \<le> \<bar>px b - px a\<bar> \<Longrightarrow> 1 \<le> \<bar>py b - py a\<bar> \<Longrightarrow>
   simplifyPoints [a, \<lparr>px = px b, py = py a\<rparr>, b] = [a, \<lparr>px = px b, py = py a\<rparr>, b]"
  by (auto simp: simplifyPoints_def Let_def)

lemma two_point_polyline_polished:
  assumes "length (points e) = 2" "tagName (d (edgeElement e)) = ''polyline''"
  shows "orthogonalPath (simplifyPoints (points (maintainOrthogonalEdge d e)))"
proof -
  obtain a b where ab: "points e = [a, b]"
    using assms(1) by (cases "points e"; cases "tl (points e)") auto
  show ?thesis
  proof (cases "1 \<le> \<bar>px b - px a\<bar> \<and> 1 \<le> \<bar>py b - py a\<bar>")
    case True
    then show ?thesis using ab assms(2)
      by (auto simp: maintainOrthogonalEdge_def Let_def simplify_bend_vertical
            simplify_bend_horizontal split: option.splits)
  next
    case False
    then have "orthogonalPath [a, b]" by auto
    then have "orthogonalPath (simplifyPoints [a, b])" by (rule simplify_two)
    then show ?thesis using ab assms(2) False
      by (auto simp: maintainOrthogonalEdge_def Let_def)
  qed
qed

lemma tagName_applyPositionUpdates [simp]:
  "tagName (document (applyPositionUpdates s) x) = tagName (document s x)"
proof -
  let ?d1 = "fold (\<lambda>(ident, node) d. applyNodeTransform d node) (nodes s) (document s)"
  have "tagName (fst (applyEdgeUpdates (nodes s) ?d1 (edges s)) x) = tagName (?d1 x)"
    using applyEdgeUpdates_edges by blast
  then show ?thesis
    by (cases "applyEdgeUpdates (nodes s) ?d1 (edges s)")
       (simp add: applyPositionUpdates_def Let_def tagName_fold_nodes)
qed

lemma exactForm_orthogonal: "exactForm e \<Longrightarrow> orthogonalPath (points e) \<and> simplePath e"
proof -
  assume "exactForm e"
  then consider (short) "length (points e) \<le> 1"
    | (two) a b where "points e = [a, b]" "\<bar>px b - px a\<bar> < 1 \<or> \<bar>py b - py a\<bar> < 1"
    | (bend) a b v where "points e = [a, bendPoint v a b, b]"
        "firstSegmentVertical e = Some v" "lastSegmentVertical e = Some (\<not> v)"
    unfolding exactForm_def by blast
  then show ?thesis
  proof cases
    case short
    then have "points e = [] \<or> (\<exists>p. points e = [p])"
      by (cases "points e"; cases "tl (points e)") auto
    then show ?thesis using short by (auto simp: simplePath_def)
  next
    case two
    then show ?thesis by (auto simp: simplePath_def)
  next
    case bend
    then show ?thesis by (cases v) (auto simp: simplePath_def bendPoint_def)
  qed
qed

lemma edgeStep_exactForm:
  assumes "simplePath e" "tagName (d (edgeElement e)) = ''polyline''"
  shows "exactForm (edgeStep ns d e)"
proof -
  let ?e1 = "updateEdgeEndpoints ns e"
  have len: "length (points ?e1) = length (points e)" by simp
  have tag: "tagName (d (edgeElement ?e1)) = ''polyline''" using assms(2) by simp
  consider (short) "length (points e) \<le> 1" | (two) "length (points e) = 2"
    | (three) "length (points e) = 3"
    using assms(1) unfolding simplePath_def by linarith
  then show ?thesis
  proof cases
    case short
    then show ?thesis using len
      by (auto simp: edgeStep_def exactForm_def maintainOrthogonalEdge_def Let_def)
  next
    case two
    then obtain a b where ab: "points ?e1 = [a, b]"
      using len by (cases "points ?e1"; cases "tl (points ?e1)") auto
    show ?thesis using ab tag
      by (auto simp: edgeStep_def exactForm_def maintainOrthogonalEdge_def Let_def bendPoint_def
            split: option.splits)
  next
    case three
    then obtain v where hv: "firstSegmentVertical e = Some v" "lastSegmentVertical e = Some (\<not> v)"
      using assms(1) unfolding simplePath_def by auto
    have h1: "firstSegmentVertical ?e1 = Some v" "lastSegmentVertical ?e1 = Some (\<not> v)"
      using hv by (auto simp: updateEdgeEndpoints_def Let_def split: option.splits)
    obtain a m b where amb: "points ?e1 = [a, m, b]"
      using three len by (cases "points ?e1"; cases "tl (points ?e1)"; cases "tl (tl (points ?e1))") auto
    show ?thesis using amb tag h1
      by (cases v) (auto simp: edgeStep_def exactForm_def maintainOrthogonalEdge_def Let_def bendPoint_def)
  qed
qed

lemma simplify3:
  "simplifyPoints [a, m, b] =
     (if closeTo m a then (if closeTo b a then [a] else [a, b])
      else if closeTo b m then [a, m]
      else if (\<bar>px a - px m\<bar> < 1 \<and> \<bar>px m - px b\<bar> < 1) \<or> (\<bar>py a - py m\<bar> < 1 \<and> \<bar>py m - py b\<bar> < 1)
      then [a, b] else [a, m, b])"
  by (cases "closeTo m a"; cases "closeTo b a"; cases "closeTo b m")
     (simp_all add: simplifyPoints_def dedupeLoop_Cons Let_def del: dedupeLoop.simps(2))

lemma simplify2:
  "simplifyPoints [a, b] = (if closeTo b a then [a] else [a, b])"
  by (cases "closeTo b a")
     (simp_all add: simplifyPoints_def dedupeLoop_Cons Let_def del: dedupeLoop.simps(2))

lemma recompute_simple1 [simp]:
  "simplePath (recomputeEdgeHints (e\<lparr>points := [a]\<rparr>))"
  "simplePath (recomputeEdgeHints (e\<lparr>points := [a, b]\<rparr>))"
  by (simp_all add: simplePath_def)

lemma recompute_three:
  "\<bar>px m - px a\<bar> < 1 \<Longrightarrow> 1 \<le> \<bar>px b - px m\<bar> \<Longrightarrow> \<bar>py b - py m\<bar> < 1 \<Longrightarrow>
   simplePath (recomputeEdgeHints (e\<lparr>points := [a, m, b]\<rparr>))"
  "1 \<le> \<bar>px m - px a\<bar> \<Longrightarrow> \<bar>py m - py a\<bar> < 1 \<Longrightarrow> \<bar>px b - px m\<bar> < 1 \<Longrightarrow>
   simplePath (recomputeEdgeHints (e\<lparr>points := [a, m, b]\<rparr>))"
  by (auto simp add: simplePath_def recomputeEdgeHints_def Let_def)

lemma polishTail_bend_vertical:
  assumes m: "px m = px a" "py m = py b"
  shows "orthogonalPath (simplifyPoints [a, m, b]) \<and>
         simplePath (recomputeEdgeHints (e\<lparr>points := simplifyPoints [a, m, b]\<rparr>))"
proof -
  consider (c1) "closeTo m a" "closeTo b a" | (c2) "closeTo m a" "\<not> closeTo b a"
    | (c3) "\<not> closeTo m a" "closeTo b m"
    | (c4) "\<not> closeTo m a" "\<not> closeTo b m"
           "(\<bar>px a - px m\<bar> < 1 \<and> \<bar>px m - px b\<bar> < 1) \<or> (\<bar>py a - py m\<bar> < 1 \<and> \<bar>py m - py b\<bar> < 1)"
    | (c5) "\<not> closeTo m a" "\<not> closeTo b m"
           "\<not> ((\<bar>px a - px m\<bar> < 1 \<and> \<bar>px m - px b\<bar> < 1) \<or> (\<bar>py a - py m\<bar> < 1 \<and> \<bar>py m - py b\<bar> < 1))"
    by blast
  then show ?thesis
  proof cases
    case c1
    have eq: "simplifyPoints [a, m, b] = [a]" using c1 by (simp only: simplify3 if_True)
    show ?thesis unfolding eq by simp
  next
    case c2
    have eq: "simplifyPoints [a, m, b] = [a, b]" using c2 by (simp only: simplify3 if_True if_False)
    have "\<bar>py a - py b\<bar> < 1" using c2(1) m by (auto simp: closeTo_def abs_if split: if_splits)
    then show ?thesis unfolding eq by simp
  next
    case c3
    have eq: "simplifyPoints [a, m, b] = [a, m]" using c3 by (simp only: simplify3 if_True if_False)
    have "\<bar>px a - px m\<bar> < 1" using m by simp
    then show ?thesis unfolding eq by simp
  next
    case c4
    have eq: "simplifyPoints [a, m, b] = [a, b]" using c4 by (simp only: simplify3 if_True if_False)
    have "\<bar>px a - px b\<bar> < 1 \<or> \<bar>py a - py b\<bar> < 1" using c4(3) m by auto
    then show ?thesis unfolding eq by simp
  next
    case c5
    have eq: "simplifyPoints [a, m, b] = [a, m, b]" using c5 by (simp only: simplify3 if_True if_False)
    have x: "1 \<le> \<bar>px b - px m\<bar>" using c5(3) m by auto
    have s: "simplePath (recomputeEdgeHints (e\<lparr>points := [a, m, b]\<rparr>))"
      by (rule recompute_three(1)) (use m x in auto)
    have o: "orthogonalPath [a, m, b]" using m by simp
    show ?thesis unfolding eq using s o by simp
  qed
qed

lemma polishTail_bend_horizontal:
  assumes m: "px m = px b" "py m = py a"
  shows "orthogonalPath (simplifyPoints [a, m, b]) \<and>
         simplePath (recomputeEdgeHints (e\<lparr>points := simplifyPoints [a, m, b]\<rparr>))"
proof -
  consider (c1) "closeTo m a" "closeTo b a" | (c2) "closeTo m a" "\<not> closeTo b a"
    | (c3) "\<not> closeTo m a" "closeTo b m"
    | (c4) "\<not> closeTo m a" "\<not> closeTo b m"
           "(\<bar>px a - px m\<bar> < 1 \<and> \<bar>px m - px b\<bar> < 1) \<or> (\<bar>py a - py m\<bar> < 1 \<and> \<bar>py m - py b\<bar> < 1)"
    | (c5) "\<not> closeTo m a" "\<not> closeTo b m"
           "\<not> ((\<bar>px a - px m\<bar> < 1 \<and> \<bar>px m - px b\<bar> < 1) \<or> (\<bar>py a - py m\<bar> < 1 \<and> \<bar>py m - py b\<bar> < 1))"
    by blast
  then show ?thesis
  proof cases
    case c1
    have eq: "simplifyPoints [a, m, b] = [a]" using c1 by (simp only: simplify3 if_True)
    show ?thesis unfolding eq by simp
  next
    case c2
    have eq: "simplifyPoints [a, m, b] = [a, b]" using c2 by (simp only: simplify3 if_True if_False)
    have "\<bar>px a - px b\<bar> < 1" using c2(1) m by (auto simp: closeTo_def abs_if split: if_splits)
    then show ?thesis unfolding eq by simp
  next
    case c3
    have eq: "simplifyPoints [a, m, b] = [a, m]" using c3 by (simp only: simplify3 if_True if_False)
    have "\<bar>py a - py m\<bar> < 1" using m by simp
    then show ?thesis unfolding eq by simp
  next
    case c4
    have eq: "simplifyPoints [a, m, b] = [a, b]" using c4 by (simp only: simplify3 if_True if_False)
    have "\<bar>px a - px b\<bar> < 1 \<or> \<bar>py a - py b\<bar> < 1" using c4(3) m by auto
    then show ?thesis unfolding eq by simp
  next
    case c5
    have eq: "simplifyPoints [a, m, b] = [a, m, b]" using c5 by (simp only: simplify3 if_True if_False)
    have x: "1 \<le> \<bar>px m - px a\<bar>" using c5(3) m by auto
    have s: "simplePath (recomputeEdgeHints (e\<lparr>points := [a, m, b]\<rparr>))"
      by (rule recompute_three(2)) (use m x in auto)
    have o: "orthogonalPath [a, m, b]" using m by simp
    show ?thesis unfolding eq using s o by simp
  qed
qed

lemma polishTail_simple:
  assumes "exactForm e"
  shows "orthogonalPath (points (recomputeEdgeHints (e\<lparr>points := simplifyPoints (points e)\<rparr>))) \<and>
         simplePath (recomputeEdgeHints (e\<lparr>points := simplifyPoints (points e)\<rparr>))"
proof -
  from assms consider (short) "length (points e) \<le> 1"
    | (two) a b where "points e = [a, b]" "\<bar>px b - px a\<bar> < 1 \<or> \<bar>py b - py a\<bar> < 1"
    | (bend) a b v where "points e = [a, bendPoint v a b, b]"
    unfolding exactForm_def by blast
  then show ?thesis
  proof cases
    case short
    then have eq: "simplifyPoints (points e) = points e" by (simp add: simplifyPoints_def)
    have "points e = [] \<or> (\<exists>p. points e = [p])"
      using short by (cases "points e"; cases "tl (points e)") auto
    then show ?thesis unfolding eq using short by (auto simp: simplePath_def)
  next
    case two
    have o: "\<bar>px a - px b\<bar> < 1 \<or> \<bar>py a - py b\<bar> < 1" using two(2) by auto
    show ?thesis
    proof (cases "closeTo b a")
      case True
      then have eq: "simplifyPoints (points e) = [a]" using two(1) by (simp add: simplify2)
      show ?thesis unfolding eq by simp
    next
      case False
      then have eq: "simplifyPoints (points e) = [a, b]" using two(1) by (simp add: simplify2)
      show ?thesis unfolding eq using o by simp
    qed
  next
    case bend
    show ?thesis
    proof (cases v)
      case True
      have "px (bendPoint v a b) = px a" "py (bendPoint v a b) = py b"
        using True by (simp_all add: bendPoint_def)
      from polishTail_bend_vertical[OF this, of e] show ?thesis using bend(1) by simp
    next
      case False
      have "px (bendPoint v a b) = px b" "py (bendPoint v a b) = py a"
        using False by (simp_all add: bendPoint_def)
      from polishTail_bend_horizontal[OF this, of e] show ?thesis using bend(1) by simp
    qed
  qed
qed

lemma tagName_polishGroup [simp]: "tagName (polishGroup ns d g x) = tagName (d x)"
  by (simp add: polishGroup_def Let_def split: option.splits)

lemma tagName_polishGroups [simp]: "tagName (polishGroups ns d gs x) = tagName (d x)"
proof -
  have "tagName (fold (\<lambda>g d'. polishGroup ns d' g) gs d x) = tagName (d x)"
    by (induction gs arbitrary: d) auto
  then show ?thesis by (simp add: polishGroups_def)
qed

lemma tagName_polishLayout [simp]:
  "tagName (document (polishLayout s) x) = tagName (document s x)"
proof -
  have "tagName (fst (polishEdges (nodes s) (document s) (edges s)) x) = tagName (document s x)"
    using polishEdges_edges by blast
  then show ?thesis
    by (cases "polishEdges (nodes s) (document s) (edges s)") (simp add: polishLayout_def Let_def)
qed

lemma edgeElement_edgeStep [simp]: "edgeElement (edgeStep ns d e) = edgeElement e"
  by (simp add: edgeStep_def)

lemma edgeElement_polishStep [simp]: "edgeElement (polishStep ns d e) = edgeElement e"
  by (simp add: polishStep_def)

lemma simplePolylineAt_apply:
  assumes "simplePolylineAt i s"
  shows "simplePolylineAt i (applyPositionUpdates s)"
    and "orthogonalPath (points (edges (applyPositionUpdates s) ! i))"
proof -
  have i: "i < length (edges s)" and sp: "simplePath (edges s ! i)"
    and tag: "tagName (document s (edgeElement (edges s ! i))) = ''polyline''"
    using assms by (auto simp: simplePolylineAt_def)
  have ex: "exactForm (edgeStep (nodes s) (document s) (edges s ! i))"
    using sp tag by (rule edgeStep_exactForm[where e="edges s ! i" and d="document s"])
  have e: "edges (applyPositionUpdates s) ! i = edgeStep (nodes s) (document s) (edges s ! i)"
    using i by (simp add: applyPositionUpdates_edges)
  show "simplePolylineAt i (applyPositionUpdates s)"
    using exactForm_orthogonal[OF ex] i tag
    by (simp add: simplePolylineAt_def e) (simp add: applyPositionUpdates_edges)
  show "orthogonalPath (points (edges (applyPositionUpdates s) ! i))"
    using exactForm_orthogonal[OF ex] by (simp add: e)
qed

lemma simplePolylineAt_polish:
  assumes "simplePolylineAt i s"
  shows "simplePolylineAt i (polishLayout s)"
    and "orthogonalPath (points (edges (polishLayout s) ! i))"
proof -
  have i: "i < length (edges s)" and sp: "simplePath (edges s ! i)"
    and tag: "tagName (document s (edgeElement (edges s ! i))) = ''polyline''"
    using assms by (auto simp: simplePolylineAt_def)
  have ex: "exactForm (edgeStep (nodes s) (document s) (edges s ! i))"
    using sp tag by (rule edgeStep_exactForm[where e="edges s ! i" and d="document s"])
  have e: "edges (polishLayout s) ! i = polishStep (nodes s) (document s) (edges s ! i)"
    using i by (simp add: polishLayout_edges)
  have t: "orthogonalPath (points (polishStep (nodes s) (document s) (edges s ! i))) \<and>
           simplePath (polishStep (nodes s) (document s) (edges s ! i))"
    using polishTail_simple[OF ex] by (simp add: polishStep_def)
  show "simplePolylineAt i (polishLayout s)"
    using t i tag by (simp add: simplePolylineAt_def e) (simp add: polishLayout_edges)
  show "orthogonalPath (points (edges (polishLayout s) ! i))"
    using t by (simp add: e)
qed

lemma simplePolylineAt_move:
  "simplePolylineAt i s \<Longrightarrow> simplePolylineAt i (snd (updateNodePosition s ident x y))"
  by (simp add: simplePolylineAt_def)

lemma simplePolylineAt_runOps:
  "simplePolylineAt i s \<Longrightarrow> simplePolylineAt i (runOps ops s)"
  unfolding runOps_def
proof (induction ops arbitrary: s)
  case (Cons op ops)
  have "simplePolylineAt i (runOp op s)"
    using Cons(2) by (cases op) (simp_all add: simplePolylineAt_move simplePolylineAt_apply(1) simplePolylineAt_polish(1))
  then show ?case using Cons(1) by simp
qed simp

lemma demoLineTracker_simps:
  "nodes demoLineTracker = [(''node-a'', demoNodeA), (''node-b'', demoNodeB)]"
  "originalPositions demoLineTracker = [(''node-a'', \<lparr>px = 0, py = 0\<rparr>), (''node-b'', \<lparr>px = 100, py = 0\<rparr>)]"
  "edges demoLineTracker = [demoEdge 3]"
  "groups demoLineTracker = []"
  "document demoLineTracker = demoDocument"
  by (simp_all add: demoLineTracker_def newTracker_def demoNodeA_def demoNodeB_def)


lemma length_edgeStep: "length (points e) \<le> length (points (edgeStep ns d e))"
  using length_maintain[of "updateEdgeEndpoints ns e" d] by (simp add: edgeStep_def)

lemma apply_keeps_points:
  "i < length (edges s) \<Longrightarrow>
   length (points (edges s ! i)) \<le> length (points (edges (applyPositionUpdates s) ! i))"
  by (simp add: applyPositionUpdates_edges length_edgeStep)

lemma polish_path_length:
  assumes "i < length (edges s)"
  shows "(points (edges s ! i) \<noteq> [] \<longrightarrow> points (edges (polishLayout s) ! i) \<noteq> [])"
    and "(2 \<le> length (points (edges (polishLayout s) ! i)))
           = (2 \<le> length (points (edgeStep (nodes s) (document s) (edges s ! i))) \<and>
              (\<exists>q \<in> set (tl (points (edgeStep (nodes s) (document s) (edges s ! i)))).
                  \<not> closeTo q (points (edgeStep (nodes s) (document s) (edges s ! i)) ! 0)))"
proof -
  have e: "points (edges (polishLayout s) ! i)
             = simplifyPoints (points (edgeStep (nodes s) (document s) (edges s ! i)))"
    using assms by (simp add: polishLayout_edges points_polishStep)
  show "points (edges s ! i) \<noteq> [] \<longrightarrow> points (edges (polishLayout s) ! i) \<noteq> []"
  proof
    assume "points (edges s ! i) \<noteq> []"
    then have "points (edgeStep (nodes s) (document s) (edges s ! i)) \<noteq> []"
      using length_edgeStep[of "edges s ! i" "nodes s" "document s"] by auto
    then show "points (edges (polishLayout s) ! i) \<noteq> []"
      unfolding e by (rule simplifyPoints_nonempty)
  qed
  show "(2 \<le> length (points (edges (polishLayout s) ! i)))
           = (2 \<le> length (points (edgeStep (nodes s) (document s) (edges s ! i))) \<and>
              (\<exists>q \<in> set (tl (points (edgeStep (nodes s) (document s) (edges s ! i)))).
                  \<not> closeTo q (points (edgeStep (nodes s) (document s) (edges s ! i)) ! 0)))"
    unfolding e by (rule simplifyPoints_two)
qed

lemma demo_collapse:
  "points (edges (polishLayout (runOps [Move ''node-b'' 10 0, Apply] demoTracker)) ! 0)
     = [\<lparr>px = 10, py = 5\<rparr>]"
proof -
  let ?s1 = "snd (updateNodePosition demoTracker ''node-b'' 10 0)"
  have n: "nodes ?s1 = [(''node-a'', demoNodeA), (''node-b'', demoNodeB\<lparr>nodeX := 10, nodeY := 0\<rparr>)]"
    by (simp add: demoTracker_simps updateNodePosition_def)
  have e1: "edgeStep (nodes ?s1) demoDocument (demoEdge 2)
     = (demoEdge 2)\<lparr>points := [\<lparr>px = 10, py = 5\<rparr>, \<lparr>px = 10, py = 5\<rparr>]\<rparr>"
    by (simp add: n edgeStep_def updateEdgeEndpoints_def maintainOrthogonalEdge_def Let_def
          demoEdge_def demoDocument_def nodeCenter_def demoNodeA_def demoNodeB_def)
  have e2: "edges (applyPositionUpdates ?s1) = [(demoEdge 2)\<lparr>points := [\<lparr>px = 10, py = 5\<rparr>, \<lparr>px = 10, py = 5\<rparr>]\<rparr>]"
    by (simp add: applyPositionUpdates_edges demoTracker_simps e1)
  show ?thesis
    apply (simp add: runOps_def polishLayout_edges e2 n)
    apply (simp add: points_polishStep edgeStep_def updateEdgeEndpoints_def maintainOrthogonalEdge_def Let_def
          demoEdge_def demoTracker_simps demoDocument_def nodeCenter_def demoNodeA_def demoNodeB_def simplify2 closeTo_def)
    done
qed

lemma exec_Nil [simp]: "exec [] d = d"
  by (simp add: exec_def)

lemma exec_Cons [simp]: "exec ((x, op) # ops) d = exec ops (d(x := applyOp op (d x)))"
  by (simp add: exec_def)

lemma exec_append [simp]: "exec (ops @ ops') d = exec ops' (exec ops d)"
  by (simp add: exec_def)

lemma applyTranslate_exec: "applyTranslate d x dx dy = exec [(x, Translate dx dy)] d"
  by (auto simp: applyTranslate_def translateElement_def setAttribute_def removeAttribute_def
        getAttribute_def hasAttribute_def Let_def)

lemma setAttribute_exec: "setAttribute d x k v = exec [(x, SetAttr k v)] d"
  by (simp add: setAttribute_def)

lemma exec_project:
  "exec ops d x = fold applyOp (map snd (filter (\<lambda>p. fst p = x) ops)) (d x)"
proof (induction ops arbitrary: d)
  case (Cons p ops)
  obtain y op where p: "p = (y, op)" by (cases p)
  show ?case by (simp add: p Cons)
qed simp

lemma tstep_eq:
  "tstep dl (t, orig) =
     (if fst dl = 0 \<and> snd dl = 0 then (if truthy orig then orig else None, orig)
      else (let o' = (if orig = None then Some (orEmpty t) else orig)
            in (written dl o', o')))"
  by (auto simp: tstep_def pairOf_def translateElement_def written_def Let_def truthy_def orEmpty_def
        split: option.splits)

lemma pairOf_translate:
  "pairOf (translateElement dx dy el) = tstep (dx, dy) (pairOf el)"
  by (auto simp: tstep_def pairOf_def translateElement_def Let_def)

lemma tstep_written: "fst (tstep dl p) = written dl (snd (tstep dl p))"
  by (cases p) (auto simp: tstep_eq written_def Let_def)

lemma tstep_orig_Some: "snd (tstep dl (t, Some orig)) = Some orig"
  by (simp add: tstep_eq Let_def)

lemma tstep_orig_None:
  "snd (tstep dl p) = None \<Longrightarrow> dl = (0, 0) \<and> snd p = None \<and> tstep dl p = (None, None)"
  by (cases p; cases dl) (auto simp: tstep_eq Let_def truthy_def split: if_splits)

lemma fold_tstep_orig_Some: "snd (fold tstep ds (t, Some orig)) = Some orig"
proof (induction ds arbitrary: t)
  case (Cons dl ds)
  obtain t' where "tstep dl (t, Some orig) = (t', Some orig)"
    using tstep_orig_Some[of dl t orig] by (cases "tstep dl (t, Some orig)") auto
  then show ?case using Cons by simp
qed simp

lemma fold_tstep_last:
  "ds \<noteq> [] \<Longrightarrow> fst (fold tstep ds p) = written (last ds) (snd (fold tstep ds p))"
  by (cases ds rule: rev_cases) (simp_all add: tstep_written)

lemma fold_tstep_None:
  "snd (fold tstep ds p) = None \<Longrightarrow>
   (\<forall>dl \<in> set ds. dl = (0, 0)) \<and> snd p = None \<and> (ds \<noteq> [] \<longrightarrow> fold tstep ds p = (None, None))"
proof (induction ds rule: rev_induct)
  case (snoc dl ds)
  from snoc(2) have s: "snd (tstep dl (fold tstep ds p)) = None" by simp
  from tstep_orig_None[OF s] have
    a: "dl = (0, 0)" "snd (fold tstep ds p) = None" "tstep dl (fold tstep ds p) = (None, None)"
    by auto
  from snoc(1)[OF a(2)] a show ?case by simp
qed simp

lemma fold_tstep_zero:
  "\<forall>dl \<in> set ds. dl = (0, 0) \<Longrightarrow> fold tstep ds (None, None) = (None, None)"
  by (induction ds) (simp_all add: tstep_eq truthy_def)

lemma fold_tstep_idem: "fold tstep ds (fold tstep ds p) = fold tstep ds p"
proof (cases "ds = []")
  case True
  then show ?thesis by simp
next
  case False
  obtain t1 o1 where r: "fold tstep ds p = (t1, o1)" by (cases "fold tstep ds p")
  show ?thesis
  proof (cases o1)
    case None
    from fold_tstep_None[of ds p] r None False
    have z: "\<forall>dl \<in> set ds. dl = (0, 0)" and n: "fold tstep ds p = (None, None)" by auto
    show ?thesis using fold_tstep_zero[OF z] n by simp
  next
    case (Some orig)
    have t1: "t1 = written (last ds) (Some orig)"
      using fold_tstep_last[OF False, of p] r Some by simp
    have o2: "snd (fold tstep ds (t1, Some orig)) = Some orig" by (rule fold_tstep_orig_Some)
    have t2: "fst (fold tstep ds (t1, Some orig)) = written (last ds) (Some orig)"
      using fold_tstep_last[OF False, of "(t1, Some orig)"] o2 by simp
    have "fold tstep ds (t1, Some orig) = (t1, Some orig)"
      using t1 o2 t2 by (simp add: prod_eq_iff)
    then show ?thesis using r Some by simp
  qed
qed

lemma tagName_applyOp [simp]: "tagName (applyOp op el) = tagName el"
  by (cases op) (simp_all add: translateElement_def Let_def)

lemma tagName_fold_applyOp [simp]: "tagName (fold applyOp os el) = tagName el"
  by (induction os arbitrary: el) simp_all

lemma pairOf_applyOp:
  "coordOp op \<Longrightarrow> pairOf (applyOp op el) = fold tstep (deltas [op]) (pairOf el)"
proof (cases op)
  case (Translate dx dy)
  then show ?thesis by (simp add: pairOf_translate)
next
  case (SetAttr k v)
  assume "coordOp op"
  then show ?thesis using SetAttr by (auto simp: pairOf_def)
qed

lemma pairOf_fold:
  "\<forall>op \<in> set os. coordOp op \<Longrightarrow> pairOf (fold applyOp os el) = fold tstep (deltas os) (pairOf el)"
proof (induction os arbitrary: el)
  case (Cons op os)
  then show ?case using pairOf_applyOp[of op el] by (cases op) simp_all
qed simp

lemma other_applyOp:
  "k \<noteq> ''transform'' \<Longrightarrow> k \<noteq> ''data-original-transform'' \<Longrightarrow>
   attrs (translateElement dx dy el) k = attrs el k"
  by (simp add: translateElement_def Let_def)

lemma other_fold:
  "k \<noteq> ''transform'' \<Longrightarrow> k \<noteq> ''data-original-transform'' \<Longrightarrow>
   attrs (fold applyOp os el) k = (case lastSet k os of Some v \<Rightarrow> Some v | None \<Rightarrow> attrs el k)"
proof (induction os arbitrary: el)
  case (Cons op os)
  then show ?case by (cases op) (auto simp: other_applyOp split: option.splits)
qed simp

lemma fold_applyOp_idem:
  assumes "\<forall>op \<in> set os. coordOp op"
  shows "fold applyOp os (fold applyOp os el) = fold applyOp os el"
proof (rule Element.equality)
  show "tagName (fold applyOp os (fold applyOp os el)) = tagName (fold applyOp os el)" by simp
  have p: "pairOf (fold applyOp os (fold applyOp os el)) = pairOf (fold applyOp os el)"
    by (simp add: pairOf_fold[OF assms] fold_tstep_idem)
  show "attrs (fold applyOp os (fold applyOp os el)) = attrs (fold applyOp os el)"
  proof
    fix k
    show "attrs (fold applyOp os (fold applyOp os el)) k = attrs (fold applyOp os el) k"
    proof (cases "k = ''transform'' \<or> k = ''data-original-transform''")
      case True
      then show ?thesis using p by (auto simp: pairOf_def)
    next
      case False
      then show ?thesis by (simp add: other_fold split: option.splits)
    qed
  qed
qed simp

lemma exec_idem:
  assumes "\<forall>p \<in> set ops. coordOp (snd p)"
  shows "exec ops (exec ops d) = exec ops d"
proof
  fix x
  have "\<forall>op \<in> set (map snd (filter (\<lambda>p. fst p = x) ops)). coordOp op"
    using assms by auto
  then show "exec ops (exec ops d) x = exec ops d x"
    by (simp add: exec_project[of ops] fold_applyOp_idem)
qed

lemma tagsOf_exec [simp]: "tagsOf (exec ops d) = tagsOf d"
  by (rule ext) (simp add: tagsOf_def exec_project)

lemma fold_applyTranslate_exec:
  "fold (\<lambda>a d'. applyTranslate d' (f a) (g a) (h a)) xs d
     = exec (map (\<lambda>a. (f a, Translate (g a) (h a))) xs) d"
  by (induction xs arbitrary: d) (simp_all add: applyTranslate_exec)

lemma applyNodeTransform_exec: "applyNodeTransform d n = exec (nodeOps n) d"
  by (simp add: applyNodeTransform_fold nodeOps_def fold_applyTranslate_exec)

lemma updateEdgeElement_exec:
  "updateEdgeElement d e = exec (edgeElementOps (tagsOf d) e) d"
  by (simp add: updateEdgeElement_def edgeElementOps_def tagsOf_def Let_def setAttribute_exec)

lemma updateEdgeLabel_exec: "updateEdgeLabel d e = exec (labelOps e) d"
  by (auto simp: updateEdgeLabel_def labelOps_def labelDelta_def Let_def applyTranslate_exec
        split: option.splits)

lemma updateEdgeDecorations_exec: "updateEdgeDecorations d e = exec (decoOps e) d"
proof (cases "decorations e")
  case None
  then show ?thesis by (simp add: updateEdgeDecorations_def decoOps_def)
next
  case (Some decos)
  show ?thesis
  proof (cases "length (points e) < 2")
    case True
    then show ?thesis using Some by (simp add: updateEdgeDecorations_def decoOps_def)
  next
    case False
    have "fold (\<lambda>deco d'. applyTranslate d' (deco_element deco) (fst (decoDelta e deco)) (snd (decoDelta e deco))) decos d
        = exec (map (\<lambda>deco. (deco_element deco, Translate (fst (decoDelta e deco)) (snd (decoDelta e deco)))) decos) d"
      by (rule fold_applyTranslate_exec)
    then show ?thesis using Some False
      by (cases decos) (simp_all add: updateEdgeDecorations_def decoOps_def decoDelta_def Let_def)
  qed
qed

lemma applyEdgeUpdate_exec:
  "fst (applyEdgeUpdate ns d e) = exec (edgeOps (tagsOf d) (edgeStep ns d e)) d"
  by (simp add: applyEdgeUpdate_def Let_def edgeOps_def edgeStep_def updateEdgeElement_exec
        updateEdgeLabel_exec updateEdgeDecorations_exec)

lemma edgeStep_tags:
  "tagsOf d = tagsOf d' \<Longrightarrow> edgeStep ns d e = edgeStep ns d' e"
  by (rule edgeStep_cong) (simp add: tagsOf_def fun_eq_iff)

lemma applyEdgeUpdates_exec:
  "fst (applyEdgeUpdates ns d es)
     = exec (concat (map (\<lambda>e. edgeOps (tagsOf d) (edgeStep ns d e)) es)) d"
proof (induction es arbitrary: d)
  case Nil
  show ?case by simp
next
  case (Cons e es)
  let ?d1 = "exec (edgeOps (tagsOf d) (edgeStep ns d e)) d"
  have d1: "fst (applyEdgeUpdate ns d e) = ?d1" by (rule applyEdgeUpdate_exec)
  have t: "tagsOf ?d1 = tagsOf d" by simp
  have m: "map (\<lambda>e. edgeOps (tagsOf ?d1) (edgeStep ns ?d1 e)) es
         = map (\<lambda>e. edgeOps (tagsOf d) (edgeStep ns d e)) es"
    using edgeStep_tags[OF t] by simp
  have "fst (applyEdgeUpdates ns d (e # es)) = fst (applyEdgeUpdates ns (fst (applyEdgeUpdate ns d e)) es)"
    by (simp split: prod.splits)
  also have "\<dots> = exec (concat (map (\<lambda>e. edgeOps (tagsOf ?d1) (edgeStep ns ?d1 e)) es)) ?d1"
    by (simp only: d1 Cons)
  also have "\<dots> = exec (concat (map (\<lambda>e. edgeOps (tagsOf d) (edgeStep ns d e)) es)) ?d1"
    by (simp only: m)
  finally show ?case by simp
qed

lemma record_same [simp]:
  "sourceOffset e = Some off \<Longrightarrow> e\<lparr>sourceOffset := Some off, points := points e\<rparr> = e"
  "targetOffset e = Some off \<Longrightarrow> e\<lparr>targetOffset := Some off, points := points e\<rparr> = e"
  by simp_all

lemma anchored_fixed:
  assumes "anchored ns e"
  shows "updateEdgeEndpoints ns e = e"
proof (cases "length (points e) < 2")
  case True
  then show ?thesis by (simp add: updateEdgeEndpoints_def)
next
  case False
  then have n: "0 < length (points e)" "length (points e) - 1 < length (points e)" "points e \<noteq> []"
    by auto
  have src: "\<And>sid n. sourceNodeId e = Some sid \<Longrightarrow> sid \<noteq> [] \<Longrightarrow> map_of ns sid = Some n \<Longrightarrow>
           (\<exists>off. sourceOffset e = Some off \<and>
                  points e ! 0 = \<lparr>px = px (nodeCenter n) + px off, py = py (nodeCenter n) + py off\<rparr>)"
    using assms False unfolding anchored_def by blast
  have tgt: "\<And>tid n. targetNodeId e = Some tid \<Longrightarrow> tid \<noteq> [] \<Longrightarrow> map_of ns tid = Some n \<Longrightarrow>
           (\<exists>off. targetOffset e = Some off \<and>
                  points e ! (length (points e) - 1) = \<lparr>px = px (nodeCenter n) + px off, py = py (nodeCenter n) + py off\<rparr>)"
    using assms False n unfolding anchored_def by (simp add: last_conv_nth)
  let ?e1 = "(case sourceNodeId e of
                  None \<Rightarrow> e
                | Some sid \<Rightarrow>
                    if sid = [] then e
                    else (case map_of ns sid of
                            None \<Rightarrow> e
                          | Some node \<Rightarrow>
                              (let center = nodeCenter node;
                                   off = (case sourceOffset e of
                                            None \<Rightarrow> \<lparr>px = px (points e ! 0) - px center,
                                                      py = py (points e ! 0) - py center\<rparr>
                                          | Some cached \<Rightarrow> cached)
                               in e\<lparr>sourceOffset := Some off,
                                       points := (points e)
                                         [0 := \<lparr>px = px center + px off,
                                                py = py center + py off\<rparr>]\<rparr>)))"
  have e1: "?e1 = e"
  proof (cases "sourceNodeId e")
    case (Some sid)
    show ?thesis
    proof (cases "sid = [] \<or> map_of ns sid = None")
      case True
      then show ?thesis using Some by auto
    next
      case F: False
      then obtain node where nd: "map_of ns sid = Some node" by auto
      from src[OF Some _ nd] F obtain off where
        off: "sourceOffset e = Some off"
          "points e ! 0 = \<lparr>px = px (nodeCenter node) + px off, py = py (nodeCenter node) + py off\<rparr>"
        by auto
      have "(points e)[0 := \<lparr>px = px (nodeCenter node) + px off, py = py (nodeCenter node) + py off\<rparr>] = points e"
        using off(2) n(1) by (simp add: list_update_same_conv)
      then show ?thesis using Some F nd off by (simp add: Let_def)
    qed
  qed simp
  have e2: "(case targetNodeId e of
                  None \<Rightarrow> e
                | Some tid \<Rightarrow>
                    if tid = [] then e
                    else (case map_of ns tid of
                            None \<Rightarrow> e
                          | Some node \<Rightarrow>
                              (let center = nodeCenter node;
                                   off = (case targetOffset e of
                                            None \<Rightarrow> \<lparr>px = px (points e ! (length (points e) - 1)) - px center,
                                                      py = py (points e ! (length (points e) - 1)) - py center\<rparr>
                                          | Some cached \<Rightarrow> cached)
                               in e\<lparr>targetOffset := Some off,
                                        points := (points e)
                                          [length (points e) - 1 :=
                                             \<lparr>px = px center + px off,
                                              py = py center + py off\<rparr>]\<rparr>))) = e"
  proof (cases "targetNodeId e")
    case (Some tid)
    show ?thesis
    proof (cases "tid = [] \<or> map_of ns tid = None")
      case True
      then show ?thesis using Some by auto
    next
      case F: False
      then obtain node where nd: "map_of ns tid = Some node" by auto
      from tgt[OF Some _ nd] F obtain off where
        off: "targetOffset e = Some off"
          "points e ! (length (points e) - 1) = \<lparr>px = px (nodeCenter node) + px off, py = py (nodeCenter node) + py off\<rparr>"
        by auto
      have "(points e)[length (points e) - 1 := \<lparr>px = px (nodeCenter node) + px off, py = py (nodeCenter node) + py off\<rparr>] = points e"
        using off(2) n(2) by (simp add: list_update_same_conv)
      then show ?thesis using Some F nd off by (simp add: Let_def)
    qed
  qed simp
  show ?thesis
    unfolding updateEdgeEndpoints_def Let_def
    by (simp only: e1[unfolded Let_def] e2[unfolded Let_def] if_cancel)
qed

lemma ids_updateEdgeEndpoints [simp]:
  "sourceNodeId (updateEdgeEndpoints ns e) = sourceNodeId e"
  "targetNodeId (updateEdgeEndpoints ns e) = targetNodeId e"
  by (auto simp: updateEdgeEndpoints_def Let_def split: option.splits)

lemma anchored_update: "anchored ns (updateEdgeEndpoints ns e)"
proof (cases "length (points e) < 2")
  case True
  then show ?thesis by (simp add: anchored_def)
next
  case False
  then have len: "2 \<le> length (points e)" by simp
  show ?thesis
    unfolding anchored_def
    using updateEdgeEndpoints_source[OF len, of _ ns] updateEdgeEndpoints_target[OF len, of _ ns]
    by (auto simp: addPoint_def)
qed

lemma maintain_short: "length (points e) < 2 \<Longrightarrow> maintainOrthogonalEdge d e = e"
  by (simp add: maintainOrthogonalEdge_def)

lemma anchored_maintain: "anchored ns e \<Longrightarrow> anchored ns (maintainOrthogonalEdge d e)"
proof (cases "length (points e) < 2")
  case True
  assume "anchored ns e"
  then show ?thesis using True by (simp add: maintain_short)
next
  case False
  assume "anchored ns e"
  then show ?thesis using False length_maintain[of e d]
    by (auto simp: anchored_def maintain_keeps_first maintain_keeps_last)
qed

lemma maintain_long:
  assumes "tagName (d (edgeElement e)) = ''polyline''" "3 \<le> length (points e)"
  shows "maintainOrthogonalEdge d e
           = e\<lparr>points := snapped (firstSegmentVertical e) (lastSegmentVertical e) (points e)\<rparr>"
proof -
  have n: "\<not> length (points e) < 2" "length (points e) \<noteq> 2" using assms(2) by auto
  show ?thesis
    unfolding maintainOrthogonalEdge_def Let_def snapped_def snapPoint_def
    using assms(1) n by (cases "firstSegmentVertical e = Some True";
        cases "firstSegmentVertical e = Some False"; cases "lastSegmentVertical e = Some True";
        cases "lastSegmentVertical e = Some False") simp_all
qed

lemma snapPoint_idem: "snapPoint h a (snapPoint h a p) = snapPoint h a p"
  by (simp add: snapPoint_def)

lemma snapPoint_twice:
  "snapPoint h2 b (snapPoint h1 a (snapPoint h2 b (snapPoint h1 a p))) = snapPoint h2 b (snapPoint h1 a p)"
  by (simp add: snapPoint_def)

lemma snapped_idem:
  assumes "3 \<le> length P"
  shows "snapped h1 h2 (snapped h1 h2 P) = snapped h1 h2 P"
proof -
  let ?n = "length P"
  let ?Q = "snapped h1 h2 P"
  have lq: "length ?Q = ?n" by (simp add: snapped_def)
  have q0: "?Q ! 0 = P ! 0" using assms by (simp add: snapped_def nth_list_update)
  have qn: "?Q ! (?n - 1) = P ! (?n - 1)" using assms by (simp add: snapped_def nth_list_update)
  show ?thesis
  proof (cases "?n = 3")
    case True
    then obtain a m b where amb: "P = [a, m, b]"
      by (cases P; cases "tl P"; cases "tl (tl P)") auto
    show ?thesis unfolding amb by (simp add: snapped_def snapPoint_twice)
  next
    case False
    then have n4: "4 \<le> ?n" using assms by simp
    have q1: "?Q ! 1 = snapPoint h1 (P ! 0) (P ! 1)"
      using n4 by (simp add: snapped_def nth_list_update)
    have q2: "?Q ! (?n - 2) = snapPoint h2 (P ! (?n - 1)) (P ! (?n - 2))"
      using n4 by (simp add: snapped_def nth_list_update)
    have s1: "?Q[1 := snapPoint h1 (?Q ! 0) (?Q ! 1)] = ?Q"
      using n4 q0 q1 by (simp add: snapPoint_idem list_update_same_conv lq)
    have s2: "?Q[?n - 2 := snapPoint h2 (?Q ! (?n - 1)) (?Q ! (?n - 2))] = ?Q"
      using n4 qn q2 by (simp add: snapPoint_idem list_update_same_conv lq)
    have "snapped h1 h2 ?Q
        = (?Q[1 := snapPoint h1 (?Q ! 0) (?Q ! 1)])
            [?n - 2 := snapPoint h2 (?Q ! (?n - 1)) ((?Q[1 := snapPoint h1 (?Q ! 0) (?Q ! 1)]) ! (?n - 2))]"
      unfolding snapped_def[of h1 h2 ?Q] lq by (rule refl)
    then show ?thesis by (simp only: s1 s2)
  qed
qed

lemma maintain_idem:
  "maintainOrthogonalEdge d (maintainOrthogonalEdge d e) = maintainOrthogonalEdge d e"
proof (cases "tagName (d (edgeElement e)) \<noteq> ''polyline'' \<or> length (points e) < 2")
  case True
  then show ?thesis by (auto simp: maintainOrthogonalEdge_def)
next
  case False
  then have tag: "tagName (d (edgeElement e)) = ''polyline''" and len: "2 \<le> length (points e)"
    by auto
  show ?thesis
  proof (cases "length (points e) = 2")
    case True
    then obtain a b where ab: "points e = [a, b]"
      by (cases "points e"; cases "tl (points e)") auto
    show ?thesis using ab tag
      by (auto simp: maintainOrthogonalEdge_def Let_def split: option.splits)
  next
    case F: False
    then have l3: "3 \<le> length (points e)" using len by simp
    let ?e1 = "e\<lparr>points := snapped (firstSegmentVertical e) (lastSegmentVertical e) (points e)\<rparr>"
    have m1: "maintainOrthogonalEdge d e = ?e1" by (rule maintain_long[of d e, OF tag l3])
    have l3': "3 \<le> length (points ?e1)" using l3 by (simp add: snapped_def)
    have tag': "tagName (d (edgeElement ?e1)) = ''polyline''" using tag by simp
    have "maintainOrthogonalEdge d ?e1 = ?e1"
      using maintain_long[of d ?e1, OF tag' l3'] snapped_idem[OF l3] by simp
    then show ?thesis by (simp add: m1)
  qed
qed

lemma edgeStep_idem: "edgeStep ns d (edgeStep ns d e) = edgeStep ns d e"
proof -
  have "anchored ns (edgeStep ns d e)"
    unfolding edgeStep_def by (intro anchored_maintain anchored_update)
  then have "updateEdgeEndpoints ns (edgeStep ns d e) = edgeStep ns d e"
    by (rule anchored_fixed)
  then show ?thesis
    by (simp add: edgeStep_def maintain_idem)
qed

lemma fold_nodes_exec:
  "fold (\<lambda>(ident, node) d. applyNodeTransform d node) ns d
     = exec (concat (map (\<lambda>p. nodeOps (snd p)) ns)) d"
  by (induction ns arbitrary: d) (auto simp: applyNodeTransform_exec)

lemma applyPositionUpdates_document:
  "document (applyPositionUpdates s) = exec (passOps s) (document s)"
proof -
  let ?d1 = "exec (concat (map (\<lambda>p. nodeOps (snd p)) (nodes s))) (document s)"
  have t: "tagsOf ?d1 = tagsOf (document s)" by simp
  have "fst (applyEdgeUpdates (nodes s) ?d1 (edges s))
      = exec (concat (map (\<lambda>e. edgeOps (tagsOf ?d1) (edgeStep (nodes s) ?d1 e)) (edges s))) ?d1"
    by (rule applyEdgeUpdates_exec)
  also have "\<dots> = exec (concat (map (\<lambda>e. edgeOps (tagsOf (document s)) (edgeStep (nodes s) (document s) e)) (edges s))) ?d1"
    using edgeStep_tags[OF t] by (simp only: t)
  finally have "fst (applyEdgeUpdates (nodes s) ?d1 (edges s)) = exec (passOps s) (document s)"
    by (simp add: passOps_def)
  then show ?thesis
    by (cases "applyEdgeUpdates (nodes s) ?d1 (edges s)")
       (simp add: applyPositionUpdates_def Let_def fold_nodes_exec)
qed

lemma applyPositionUpdates_eq:
  "applyPositionUpdates s
     = s\<lparr>edges := map (edgeStep (nodes s) (document s)) (edges s),
         document := exec (passOps s) (document s)\<rparr>"
proof -
  have "applyPositionUpdates s
      = s\<lparr>edges := edges (applyPositionUpdates s), document := document (applyPositionUpdates s)\<rparr>"
    by (cases "applyEdgeUpdates (nodes s)
                 (fold (\<lambda>(ident, node) d. applyNodeTransform d node) (nodes s) (document s)) (edges s)")
       (simp add: applyPositionUpdates_def Let_def)
  then show ?thesis by (simp only: applyPositionUpdates_edges applyPositionUpdates_document)
qed

lemma coordOp_edgeOps: "p \<in> set (edgeOps tg e) \<Longrightarrow> coordOp (snd p)"
  by (auto simp: edgeOps_def edgeElementOps_def labelOps_def decoOps_def split: option.splits if_splits)

lemma coordOp_passOps: "\<forall>p \<in> set (passOps s). coordOp (snd p)"
  by (auto simp: passOps_def nodeOps_def dest: coordOp_edgeOps)

lemma passOps_stable: "passOps (applyPositionUpdates s) = passOps s"
proof -
  let ?d' = "exec (passOps s) (document s)"
  have t: "tagsOf ?d' = tagsOf (document s)" by simp
  have "\<And>e. edgeStep (nodes s) ?d' (edgeStep (nodes s) (document s) e) = edgeStep (nodes s) (document s) e"
    using edgeStep_tags[OF t] edgeStep_idem by simp
  then show ?thesis
    by (simp add: passOps_def applyPositionUpdates_edges applyPositionUpdates_document o_def)
qed

text \<open>
  Claim C3. \<open>applyPositionUpdates\<close> is idempotent on every tracker state: a second call
  with no change in between returns the state of the first call unchanged, that is the
  same node positions, the same point list and cached offsets of every edge, and the
  same attributes of every element of the document (node transforms, the \<open>points\<close> or
  \<open>x1, y1, x2, y2\<close> attributes of the connectors, label and decoration transforms). No
  assumption is made on how elements are shared between nodes and edges.
\<close>

theorem applyPositionUpdates_idempotent:
  "applyPositionUpdates (applyPositionUpdates s) = applyPositionUpdates s"
proof -
  let ?s' = "applyPositionUpdates s"
  have e: "map (edgeStep (nodes ?s') (document ?s')) (edges ?s') = edges ?s'"
  proof -
    have t: "tagsOf (document ?s') = tagsOf (document s)"
      by (simp add: applyPositionUpdates_document)
    show ?thesis
      using edgeStep_tags[OF t] edgeStep_idem
      by (simp add: applyPositionUpdates_edges)
  qed
  have d: "exec (passOps ?s') (document ?s') = document ?s'"
    by (simp add: passOps_stable applyPositionUpdates_document exec_idem coordOp_passOps)
  have "applyPositionUpdates ?s' = ?s'\<lparr>edges := edges ?s', document := document ?s'\<rparr>"
    using applyPositionUpdates_eq[of ?s'] by (simp only: e d)
  then show ?thesis by simp
qed

lemma labels_updateEdgeEndpoints [simp]:
  "labelElement (updateEdgeEndpoints ns e) = labelElement e"
  "labelBackground (updateEdgeEndpoints ns e) = labelBackground e"
  "labelInfo (updateEdgeEndpoints ns e) = labelInfo e"
  "decorations (updateEdgeEndpoints ns e) = decorations e"
  by (simp_all add: updateEdgeEndpoints_def Let_def split: option.splits)

lemma labels_maintain [simp]:
  "labelElement (maintainOrthogonalEdge d e) = labelElement e"
  "labelBackground (maintainOrthogonalEdge d e) = labelBackground e"
  "labelInfo (maintainOrthogonalEdge d e) = labelInfo e"
  "decorations (maintainOrthogonalEdge d e) = decorations e"
  by (simp_all add: maintainOrthogonalEdge_def Let_def)

lemma labels_edgeStep [simp]:
  "labelElement (edgeStep ns d e) = labelElement e"
  "labelBackground (edgeStep ns d e) = labelBackground e"
  "labelInfo (edgeStep ns d e) = labelInfo e"
  "decorations (edgeStep ns d e) = decorations e"
  by (simp_all add: edgeStep_def)

lemma tstep_char:
  "tstep dl (t, orig) = (written dl (storedAfter dl t orig), storedAfter dl t orig)"
proof (cases "fst dl = 0 \<and> snd dl = 0")
  case True
  then show ?thesis
    by (cases orig) (auto simp add: tstep_eq storedAfter_def written_def truthy_def)
next
  case False
  then show ?thesis
    by (cases orig) (auto simp add: tstep_eq storedAfter_def Let_def)
qed

lemma storedAfter_idem: "storedAfter dl t' (storedAfter dl t orig) = storedAfter dl t orig"
  by (cases orig) (simp_all add: storedAfter_def)

lemma fold_tstep_same:
  assumes "ds \<noteq> []" "\<forall>x \<in> set ds. x = dl"
  shows "fold tstep ds (t, orig) = (written dl (storedAfter dl t orig), storedAfter dl t orig)"
  using assms
proof (induction ds rule: rev_induct)
  case (snoc x ds)
  have x: "x = dl" using snoc(3) by simp
  show ?case
  proof (cases "ds = []")
    case True
    then show ?thesis using x by (simp add: tstep_char)
  next
    case False
    then have ih: "fold tstep ds (t, orig) = (written dl (storedAfter dl t orig), storedAfter dl t orig)"
      using snoc by simp
    show ?thesis using x by (simp add: ih tstep_char storedAfter_idem)
  qed
qed simp

lemma deltas_filter_edgeOps:
  assumes "labelElement e \<noteq> Some el" "labelBackground e \<noteq> Some el"
    and "\<forall>decos. decorations e = Some decos \<longrightarrow> el \<notin> deco_element ` set decos"
  shows "deltas (map snd (filter (\<lambda>p. fst p = el) (edgeOps tg e))) = []"
proof -
  have a: "deltas (map snd (filter (\<lambda>p. fst p = el) (edgeElementOps tg e))) = []"
    by (simp add: edgeElementOps_def)
  have b: "filter (\<lambda>p. fst p = el) (labelOps e) = []"
    using assms(1,2) by (auto simp: labelOps_def split: option.splits)
  have c: "filter (\<lambda>p. fst p = el) (decoOps e) = []"
  proof (cases "decorations e")
    case None
    then show ?thesis by (simp add: decoOps_def)
  next
    case (Some decos)
    then have "el \<notin> deco_element ` set decos" using assms(3) by simp
    then show ?thesis using Some by (auto simp: decoOps_def filter_empty_conv)
  qed
  have app: "\<And>xs ys. deltas (xs @ ys) = deltas xs @ deltas ys"
  proof -
    fix xs ys :: "domOp list"
    show "deltas (xs @ ys) = deltas xs @ deltas ys"
      by (induction xs rule: deltas.induct) simp_all
  qed
  show ?thesis by (simp add: edgeOps_def a b c app)
qed

lemma deltas_append: "deltas (xs @ ys) = deltas xs @ deltas ys"
  by (induction xs rule: deltas.induct) simp_all

lemma projDeltas_append [simp]: "projDeltas el (xs @ ys) = projDeltas el xs @ projDeltas el ys"
  by (simp add: projDeltas_def deltas_append)

lemma projDeltas_Nil [simp]: "projDeltas el [] = []"
  by (simp add: projDeltas_def)

lemma projDeltas_nodeOps:
  "projDeltas el (nodeOps n) = replicate (count_list (elements n) el) (nodeDelta n)"
proof -
  have "\<And>xs. projDeltas el (map (\<lambda>x. (x, Translate (fst (nodeDelta n)) (snd (nodeDelta n)))) xs)
           = replicate (count_list xs el) (nodeDelta n)"
  proof -
    fix xs show "projDeltas el (map (\<lambda>x. (x, Translate (fst (nodeDelta n)) (snd (nodeDelta n)))) xs)
           = replicate (count_list xs el) (nodeDelta n)"
      by (induction xs) (simp_all add: projDeltas_def)
  qed
  then show ?thesis by (simp add: nodeOps_def nodeDelta_def)
qed

lemma projDeltas_nodes_set:
  "x \<in> set (projDeltas el (concat (map (\<lambda>p. nodeOps (snd p)) ns))) \<Longrightarrow>
   \<exists>q \<in> set ns. el \<in> set (elements (snd q)) \<and> x = nodeDelta (snd q)"
proof (induction ns)
  case (Cons p ns)
  from Cons(2) have "x \<in> set (projDeltas el (nodeOps (snd p))) \<or>
      x \<in> set (projDeltas el (concat (map (\<lambda>p. nodeOps (snd p)) ns)))" by simp
  then show ?case
  proof
    assume "x \<in> set (projDeltas el (nodeOps (snd p)))"
    then have "count_list (elements (snd p)) el \<noteq> 0 \<and> x = nodeDelta (snd p)"
      by (auto simp: projDeltas_nodeOps)
    then show ?thesis by (auto simp: count_list_0_iff)
  next
    assume "x \<in> set (projDeltas el (concat (map (\<lambda>p. nodeOps (snd p)) ns)))"
    then show ?thesis using Cons(1) by auto
  qed
qed simp

lemma projDeltas_nodes_nonempty:
  "q \<in> set ns \<Longrightarrow> el \<in> set (elements (snd q)) \<Longrightarrow>
   projDeltas el (concat (map (\<lambda>p. nodeOps (snd p)) ns)) \<noteq> []"
proof (induction ns)
  case (Cons p ns)
  show ?case
  proof (cases "q = p")
    case True
    then have "count_list (elements (snd p)) el \<noteq> 0" using Cons(3) by (simp add: count_list_0_iff)
    then show ?thesis by (simp add: projDeltas_nodeOps)
  next
    case False
    then show ?thesis using Cons by simp
  qed
qed simp

lemma projDeltas_edges:
  assumes "\<forall>e \<in> set es. labelElement e \<noteq> Some el \<and> labelBackground e \<noteq> Some el \<and>
             (\<forall>decos. decorations e = Some decos \<longrightarrow> el \<notin> deco_element ` set decos)"
  shows "projDeltas el (concat (map (\<lambda>e. edgeOps tg (edgeStep ns d e)) es)) = []"
  using assms
proof (induction es)
  case (Cons e es)
  have "projDeltas el (edgeOps tg (edgeStep ns d e)) = []"
    unfolding projDeltas_def using Cons(2) by (intro deltas_filter_edgeOps) simp_all
  then show ?case using Cons by simp
qed simp

lemma exec_pair:
  assumes "\<forall>p \<in> set ops. coordOp (snd p)"
  shows "pairOf (exec ops d el) = fold tstep (projDeltas el ops) (pairOf (d el))"
proof -
  have "\<forall>op \<in> set (map snd (filter (\<lambda>p. fst p = el) ops)). coordOp op" using assms by auto
  then show ?thesis by (simp add: exec_project[of ops] pairOf_fold projDeltas_def)
qed

lemma coordOp_nodeOps: "\<forall>p \<in> set (nodeOps n). coordOp (snd p)"
  by (auto simp: nodeOps_def)

lemma node_transform_core:
  assumes "p \<in> set (nodes s)" and "el \<in> set (elements (snd p))"
    and "\<forall>q \<in> set (nodes s). el \<in> set (elements (snd q)) \<longrightarrow> nodeDelta (snd q) = nodeDelta (snd p)"
    and "\<forall>e \<in> set (edges s). labelElement e \<noteq> Some el \<and> labelBackground e \<noteq> Some el \<and>
             (\<forall>decos. decorations e = Some decos \<longrightarrow> el \<notin> deco_element ` set decos)"
  shows "(let stored = storedAfter (nodeDelta (snd p))
                         (getAttribute (document s) el ''transform'')
                         (getAttribute (document s) el ''data-original-transform'')
          in getAttribute (document (applyPositionUpdates s)) el ''data-original-transform'' = stored \<and>
             getAttribute (document (applyPositionUpdates s)) el ''transform''
               = written (nodeDelta (snd p)) stored) \<and>
         (\<forall>d. let stored = storedAfter (nodeDelta (snd p))
                         (getAttribute d el ''transform'')
                         (getAttribute d el ''data-original-transform'')
              in getAttribute (applyNodeTransform d (snd p)) el ''data-original-transform'' = stored \<and>
                 getAttribute (applyNodeTransform d (snd p)) el ''transform''
                   = written (nodeDelta (snd p)) stored)"
proof -
  let ?dl = "nodeDelta (snd p)"
  let ?D = "projDeltas el (passOps s)"
  have D: "?D = projDeltas el (concat (map (\<lambda>p. nodeOps (snd p)) (nodes s)))"
    by (simp add: passOps_def projDeltas_edges[OF assms(4)])
  have ne: "?D \<noteq> []" unfolding D by (rule projDeltas_nodes_nonempty[OF assms(1,2)])
  have all: "\<forall>x \<in> set ?D. x = ?dl"
    unfolding D
  proof
    fix x assume "x \<in> set (projDeltas el (concat (map (\<lambda>p. nodeOps (snd p)) (nodes s))))"
    from projDeltas_nodes_set[OF this] obtain q where
      q: "q \<in> set (nodes s)" "el \<in> set (elements (snd q))" "x = nodeDelta (snd q)" by blast
    then show "x = ?dl" using assms(3) by blast
  qed
  have "pairOf (document (applyPositionUpdates s) el)
          = fold tstep ?D (pairOf (document s el))"
    by (simp add: applyPositionUpdates_document exec_pair coordOp_passOps)
  then have a: "pairOf (document (applyPositionUpdates s) el)
          = (written ?dl (storedAfter ?dl (getAttribute (document s) el ''transform'')
                            (getAttribute (document s) el ''data-original-transform'')),
             storedAfter ?dl (getAttribute (document s) el ''transform'')
                            (getAttribute (document s) el ''data-original-transform''))"
    using fold_tstep_same[OF ne all] by (simp add: pairOf_def getAttribute_def)
  have b: "\<And>d. pairOf (applyNodeTransform d (snd p) el)
          = (written ?dl (storedAfter ?dl (getAttribute d el ''transform'')
                            (getAttribute d el ''data-original-transform'')),
             storedAfter ?dl (getAttribute d el ''transform'')
                            (getAttribute d el ''data-original-transform''))"
  proof -
    fix d
    have c: "count_list (elements (snd p)) el \<noteq> 0" using assms(2) by (simp add: count_list_0_iff)
    have "pairOf (applyNodeTransform d (snd p) el)
          = fold tstep (replicate (count_list (elements (snd p)) el) ?dl) (pairOf (d el))"
      by (simp add: applyNodeTransform_exec exec_pair coordOp_nodeOps projDeltas_nodeOps)
    then show "pairOf (applyNodeTransform d (snd p) el)
          = (written ?dl (storedAfter ?dl (getAttribute d el ''transform'')
                            (getAttribute d el ''data-original-transform'')),
             storedAfter ?dl (getAttribute d el ''transform'')
                            (getAttribute d el ''data-original-transform''))"
      using fold_tstep_same[of "replicate (count_list (elements (snd p)) el) ?dl" ?dl] c
      by (simp add: pairOf_def getAttribute_def)
  qed
  show ?thesis
    using a b by (simp add: pairOf_def getAttribute_def Let_def)
qed

theorem applyPositionUpdates_idempotent_witness:
  "applyPositionUpdates (applyPositionUpdates (moveNodes demoTracker [(''node-b'', \<lparr>px = 100, py = 50\<rparr>)]))
     = applyPositionUpdates (moveNodes demoTracker [(''node-b'', \<lparr>px = 100, py = 50\<rparr>)])"
  by (rule applyPositionUpdates_idempotent)

lemma setPositions_moveNodes: "setPositions s ps = applyPositionUpdates (moveNodes s ps)"
  by (simp add: setPositions_def moveNodes_def)

lemma resetAllPositions_moveNodes: "resetAllPositions s = moveNodes s (originalPositions s)"
  by (simp add: resetAllPositions_def moveNodes_def)

lemma updateNodePosition_unknown:
  "map_of (nodes s) ident = None \<Longrightarrow> updateNodePosition s ident x y = (False, s)"
  by (simp add: updateNodePosition_def)

lemma moveNodes_filter_known:
  "(\<And>k. (map_of (nodes s) k = None) = (k \<notin> K)) \<Longrightarrow>
   moveNodes s (filter (\<lambda>p. fst p \<in> K) ps) = moveNodes s ps"
proof (induction ps arbitrary: s)
  case (Cons p ps)
  let ?s1 = "snd (updateNodePosition s (fst p) (px (snd p)) (py (snd p)))"
  have k1: "\<And>k. (map_of (nodes ?s1) k = None) = (k \<notin> K)"
    using Cons(2) by (simp add: updateNodePosition_keys)
  show ?case
  proof (cases "fst p \<in> K")
    case True
    then show ?thesis using Cons(1)[of ?s1] k1 by simp
  next
    case False
    then have "map_of (nodes s) (fst p) = None" using Cons(2) by simp
    then have "?s1 = s" by (simp add: updateNodePosition_unknown)
    then show ?thesis using False Cons(1)[of s] Cons(2) by simp
  qed
qed simp

lemma applyPositionUpdates_other [simp]:
  "originalPositions (applyPositionUpdates s) = originalPositions s"
  "groups (applyPositionUpdates s) = groups s"
  by (simp_all add: applyPositionUpdates_eq)

text \<open>
  Claim C8, as amended. \<open>setPositions\<close> calls \<open>updateNodePosition\<close> once per entry of the
  map, in order, and then \<open>applyPositionUpdates\<close> once; an entry whose identifier is not a
  node of the tracker changes nothing (\<open>updateNodePosition\<close> returns false and the state
  as it was), so dropping such entries gives the same result. \<open>resetAllPositions\<close> calls
  \<open>updateNodePosition\<close> once per entry of the original positions and stops there: it
  leaves the document and the edges as they are.
\<close>

theorem bulk_position_helpers:
  "setPositions s ps = applyPositionUpdates (moveNodes s ps) \<and>
   setPositions s ps = setPositions s (filter (\<lambda>p. map_of (nodes s) (fst p) \<noteq> None) ps) \<and>
   (map_of (nodes s) ident = None \<longrightarrow> updateNodePosition s ident x y = (False, s)) \<and>
   resetAllPositions s = moveNodes s (originalPositions s) \<and>
   document (resetAllPositions s) = document s \<and>
   edges (resetAllPositions s) = edges s"
proof -
  have f: "moveNodes s (filter (\<lambda>p. fst p \<in> {k. map_of (nodes s) k \<noteq> None}) ps) = moveNodes s ps"
    by (rule moveNodes_filter_known) simp
  show ?thesis
    using f by (simp add: setPositions_moveNodes resetAllPositions_moveNodes updateNodePosition_unknown)
qed

theorem bulk_position_helpers_witness:
  "setPositions demoTracker [(''node-x'', \<lparr>px = 1, py = 2\<rparr>), (''node-b'', \<lparr>px = 150, py = 0\<rparr>)]
     = setPositions demoTracker [(''node-b'', \<lparr>px = 150, py = 0\<rparr>)] \<and>
   updateNodePosition demoTracker ''node-x'' 1 2 = (False, demoTracker)"
proof -
  have h: "map_of (nodes demoTracker) ''node-x'' = None" by (simp add: demoTracker_simps)
  have f: "filter (\<lambda>p. map_of (nodes demoTracker) (fst p) \<noteq> None)
             [(''node-x'', \<lparr>px = 1, py = 2\<rparr>), (''node-b'', \<lparr>px = 150, py = 0\<rparr>)]
           = [(''node-b'', \<lparr>px = 150, py = 0\<rparr>)]"
    by (simp add: demoTracker_simps)
  show ?thesis
    using bulk_position_helpers[of demoTracker
        "[(''node-x'', \<lparr>px = 1, py = 2\<rparr>), (''node-b'', \<lparr>px = 150, py = 0\<rparr>)]" "''node-x''" 1 2] h
    unfolding f by blast
qed

lemma demo_b_moved:
  "getAttribute (document (applyPositionUpdates
       (moveNodes demoTracker [(''node-b'', \<lparr>px = 150, py = 0\<rparr>)]))) 1 ''transform''
     = Some (translateStr 50 0)"
  "getAttribute (document (applyPositionUpdates
       (moveNodes demoTracker [(''node-b'', \<lparr>px = 150, py = 0\<rparr>)]))) 1 ''data-original-transform''
     = Some []"
proof -
  let ?s = "moveNodes demoTracker [(''node-b'', \<lparr>px = 150, py = 0\<rparr>)]"
  let ?b = "(''node-b'', demoNodeB\<lparr>nodeX := 150, nodeY := 0\<rparr>)"
  have n: "nodes ?s = [(''node-a'', demoNodeA), ?b]"
    by (simp add: demoTracker_simps updateNodePosition_def)
  have e: "edges ?s = [demoEdge 2]" "document ?s = demoDocument"
    by (simp_all add: demoTracker_simps)
  have hb: "?b \<in> set (nodes ?s)" "1 \<in> set (elements (snd ?b))"
    "\<forall>q \<in> set (nodes ?s). 1 \<in> set (elements (snd q)) \<longrightarrow> nodeDelta (snd q) = nodeDelta (snd ?b)"
    "\<forall>e \<in> set (edges ?s). labelElement e \<noteq> Some 1 \<and> labelBackground e \<noteq> Some 1 \<and>
             (\<forall>decos. decorations e = Some decos \<longrightarrow> 1 \<notin> deco_element ` set decos)"
    unfolding n e by (simp_all add: demoNodeA_def demoNodeB_def demoEdge_def nodeDelta_def)
  have db: "nodeDelta (snd ?b) = (50, 0)"
    by (simp add: nodeDelta_def demoNodeB_def)
  have g: "getAttribute demoDocument 1 ''transform'' = None"
    "getAttribute demoDocument 1 ''data-original-transform'' = None"
    by (simp_all add: getAttribute_def demoDocument_def)
  have c: "getAttribute (document (applyPositionUpdates ?s)) 1 ''data-original-transform'' = Some [] \<and>
        getAttribute (document (applyPositionUpdates ?s)) 1 ''transform'' = Some (translateStr 50 0)"
    using node_transform_core[OF hb]
    unfolding e db Let_def g
    by (simp add: storedAfter_def written_def orEmpty_def truthy_def)
  show "getAttribute (document (applyPositionUpdates ?s)) 1 ''transform'' = Some (translateStr 50 0)"
    using c by simp
  show "getAttribute (document (applyPositionUpdates ?s)) 1 ''data-original-transform'' = Some []"
    using c by simp
qed

text \<open>
  The claim as stated fails for \<open>resetAllPositions\<close>: after B was moved by 50 and the move
  applied, resetting leaves \<open>translate(50, 0)\<close> on the element of B, where one more
  \<open>applyPositionUpdates\<close> would have removed it.
\<close>

theorem resetAllPositions_does_not_apply:
  "resetAllPositions (setPositions demoTracker [(''node-b'', \<lparr>px = 150, py = 0\<rparr>)])
     \<noteq> applyPositionUpdates
         (moveNodes (setPositions demoTracker [(''node-b'', \<lparr>px = 150, py = 0\<rparr>)])
            (originalPositions (setPositions demoTracker [(''node-b'', \<lparr>px = 150, py = 0\<rparr>)])))"
proof -
  let ?s = "setPositions demoTracker [(''node-b'', \<lparr>px = 150, py = 0\<rparr>)]"
  let ?m = "moveNodes demoTracker [(''node-b'', \<lparr>px = 150, py = 0\<rparr>)]"
  have s: "?s = applyPositionUpdates ?m" by (rule setPositions_moveNodes)
  have t: "getAttribute (document ?s) 1 ''transform'' = Some (translateStr 50 0)"
    "getAttribute (document ?s) 1 ''data-original-transform'' = Some []"
    using demo_b_moved unfolding s by blast+
  have o: "originalPositions ?s = originalPositions demoTracker"
    unfolding s by simp
  let ?r = "moveNodes ?s (originalPositions ?s)"
  have r1: "getAttribute (document (resetAllPositions ?s)) 1 ''transform'' = Some (translateStr 50 0)"
    using t(1) by (simp add: resetAllPositions_moveNodes)
  have nr: "nodes ?r = [(''node-a'', demoNodeA), (''node-b'', demoNodeB)]"
    unfolding s
    by (simp add: demoTracker_simps updateNodePosition_def demoNodeA_def demoNodeB_def)
  have er: "edges ?r = edges ?s" "document ?r = document ?s" by simp_all
  have el: "labelElement e = None \<and> labelBackground e = None \<and> decorations e = None"
    if "e \<in> set (edges ?s)" for e
    using that unfolding s by (auto simp: applyPositionUpdates_edges demoTracker_simps demoEdge_def)
  have hb: "(''node-b'', demoNodeB) \<in> set (nodes ?r)" "1 \<in> set (elements (snd (''node-b'', demoNodeB)))"
    "\<forall>q \<in> set (nodes ?r). 1 \<in> set (elements (snd q)) \<longrightarrow> nodeDelta (snd q) = nodeDelta (snd (''node-b'', demoNodeB))"
    "\<forall>e \<in> set (edges ?r). labelElement e \<noteq> Some 1 \<and> labelBackground e \<noteq> Some 1 \<and>
             (\<forall>decos. decorations e = Some decos \<longrightarrow> 1 \<notin> deco_element ` set decos)"
    unfolding nr er using el by (simp_all add: demoNodeA_def demoNodeB_def)
  have "getAttribute (document (applyPositionUpdates ?r)) 1 ''transform''
          = written (nodeDelta demoNodeB)
              (storedAfter (nodeDelta demoNodeB) (getAttribute (document ?r) 1 ''transform'')
                 (getAttribute (document ?r) 1 ''data-original-transform''))"
    using node_transform_core[OF hb] by (simp add: Let_def)
  then have r2: "getAttribute (document (applyPositionUpdates ?r)) 1 ''transform'' = None"
    unfolding er t by (simp add: nodeDelta_def demoNodeB_def storedAfter_def written_def truthy_def)
  show ?thesis using r1 r2 by (auto simp: translateStr_def)
qed

lemma fold_xmin_Finite:
  "fold (\<lambda>n acc. xmin acc (f n)) ms (Finite a) = Finite (Min (insert a (f ` set ms)))"
proof (induction ms arbitrary: a)
  case (Cons m ms)
  have "Min (insert (min a (f m)) (f ` set ms)) = Min (insert a (insert (f m) (f ` set ms)))"
    by (cases "f ` set ms = {}") (simp_all add: Min.insert min.assoc)
  then show ?case using Cons[of "min a (f m)"] by simp
qed simp

lemma fold_xmax_Finite:
  "fold (\<lambda>n acc. xmax acc (f n)) ms (Finite a) = Finite (Max (insert a (f ` set ms)))"
proof (induction ms arbitrary: a)
  case (Cons m ms)
  have "Max (insert (max a (f m)) (f ` set ms)) = Max (insert a (insert (f m) (f ` set ms)))"
    by (cases "f ` set ms = {}") (simp_all add: Max.insert max.assoc)
  then show ?case using Cons[of "max a (f m)"] by simp
qed simp

lemma fold_xmin_Infinity:
  "ms \<noteq> [] \<Longrightarrow> fold (\<lambda>n acc. xmin acc (f n)) ms Infinity = Finite (Min (f ` set ms))"
  by (cases ms) (simp_all add: fold_xmin_Finite)

lemma fold_xmax_NegInfinity:
  "ms \<noteq> [] \<Longrightarrow> fold (\<lambda>n acc. xmax acc (f n)) ms NegInfinity = Finite (Max (f ` set ms))"
  by (cases ms) (simp_all add: fold_xmax_Finite)

lemma polishGroup_eq:
  "polishGroup ns d g =
     (if groupMembers ns g = [] \<or> degenerate ns g then d
      else groupWrites d g (refitX ns g) (refitY ns g) (refitWidth ns g) (refitHeight ns g))"
proof (cases "groupMembers ns g = []")
  case True
  then show ?thesis by (simp add: polishGroup_def)
next
  case False
  then have ids: "length (memberNodeIds g) \<noteq> 0"
    by (auto simp: groupMembers_def List.map_filter_def)
  have len: "length (groupMembers ns g) \<noteq> 0" using False by simp
  show ?thesis
    unfolding polishGroup_def
    using False ids len
    by (simp add: fold_xmin_Infinity fold_xmax_NegInfinity Let_def groupWrites_def degenerate_def
          refitX_def refitY_def refitWidth_def refitHeight_def groupLabelOffset_def
          cong: option.case_cong)
qed

lemma getAttribute_setAttribute [simp]:
  "getAttribute (setAttribute d el k v) el' k'
     = (if el' = el \<and> k' = k then Some v else getAttribute d el' k')"
  by (simp add: getAttribute_def setAttribute_def)

lemma groupWrites_outer:
  assumes "distinctParts g"
  shows "getAttribute (groupWrites d g X Y W H) (outerRect g) ''x'' = Some (xstr X)"
    and "getAttribute (groupWrites d g X Y W H) (outerRect g) ''y'' = Some (xstr Y)"
    and "getAttribute (groupWrites d g X Y W H) (outerRect g) ''width'' = Some (xstr W)"
    and "getAttribute (groupWrites d g X Y W H) (outerRect g) ''height'' = Some (xstr H)"
  using assms
  by (auto simp: groupWrites_def distinctParts_def Let_def split: option.splits)

lemma groupWrites_header:
  assumes "distinctParts g" "headerRect g = Some hr"
  shows "getAttribute (groupWrites d g X Y W H) hr ''x'' = Some (xstr X)"
    and "getAttribute (groupWrites d g X Y W H) hr ''y'' = Some (xstr Y)"
    and "getAttribute (groupWrites d g X Y W H) hr ''width'' = Some (xstr W)"
    and "getAttribute (groupWrites d g X Y W H) hr ''height''
           = (if xgt (headerHeight g) (Finite 0) then Some (xstr (headerHeight g))
              else getAttribute d hr ''height'')"
  using assms
  by (auto simp: groupWrites_def distinctParts_def Let_def split: option.splits)

lemma groupWrites_label:
  assumes "groupLabelElement g = Some le"
  shows "getAttribute (groupWrites d g X Y W H) le ''x''
           = Some (xstr (xadd X (off_x (groupLabelOffset g))))"
    and "getAttribute (groupWrites d g X Y W H) le ''y''
           = Some (xstr (xadd Y (off_y (groupLabelOffset g))))"
  using assms
  by (auto simp: groupWrites_def Let_def split: option.splits)

lemma polishGroups_Cons:
  "polishGroups ns d (g # gs) = polishGroups ns (polishGroup ns d g) gs"
  by (simp add: polishGroups_def)

lemma polishLayout_document:
  "document (polishLayout s)
     = polishGroups (nodes s) (fst (polishEdges (nodes s) (document s) (edges s))) (groups s)"
  by (cases "polishEdges (nodes s) (document s) (edges s)") (simp add: polishLayout_def Let_def)

text \<open>
  Claim C7. \<open>polishGroup\<close> is the body of the loop of \<open>polishGroups\<close>, which the polish
  pass runs on the document left by the edge pass. A group none of whose member
  identifiers names a node of the tracker leaves the document as it is, and so does a
  group whose recomputed box is degenerate: an \<open>x\<close> or \<open>y\<close> that is not finite, or a width
  or height that is not positive. Otherwise, for a group whose container, header and
  label are different elements, the container gets \<open>x\<close>, \<open>y\<close>, \<open>width\<close> and \<open>height\<close> of the
  union of the member boxes grown by the padding; the header gets the same \<open>x\<close>, \<open>y\<close> and
  \<open>width\<close>, and its height attribute is set to the header height when that is positive;
  the label gets \<open>x\<close> and \<open>y\<close> of the new origin plus the label offset. A group that is
  skipped does not stop the pass: the loop goes on with the next group.
\<close>

theorem group_refit:
  "(groupMembers ns g = [] \<longrightarrow> polishGroup ns d g = d) \<and>
   (degenerate ns g \<longrightarrow> polishGroup ns d g = d) \<and>
   (groupMembers ns g \<noteq> [] \<and> \<not> degenerate ns g \<and> distinctParts g \<longrightarrow>
      getAttribute (polishGroup ns d g) (outerRect g) ''x'' = Some (xstr (refitX ns g)) \<and>
      getAttribute (polishGroup ns d g) (outerRect g) ''y'' = Some (xstr (refitY ns g)) \<and>
      getAttribute (polishGroup ns d g) (outerRect g) ''width'' = Some (xstr (refitWidth ns g)) \<and>
      getAttribute (polishGroup ns d g) (outerRect g) ''height'' = Some (xstr (refitHeight ns g)) \<and>
      (\<forall>hr. headerRect g = Some hr \<longrightarrow>
         getAttribute (polishGroup ns d g) hr ''x'' = Some (xstr (refitX ns g)) \<and>
         getAttribute (polishGroup ns d g) hr ''y'' = Some (xstr (refitY ns g)) \<and>
         getAttribute (polishGroup ns d g) hr ''width'' = Some (xstr (refitWidth ns g)) \<and>
         getAttribute (polishGroup ns d g) hr ''height''
           = (if xgt (headerHeight g) (Finite 0) then Some (xstr (headerHeight g))
              else getAttribute d hr ''height'')) \<and>
      (\<forall>le. groupLabelElement g = Some le \<longrightarrow>
         getAttribute (polishGroup ns d g) le ''x''
           = Some (xstr (xadd (refitX ns g) (off_x (groupLabelOffset g)))) \<and>
         getAttribute (polishGroup ns d g) le ''y''
           = Some (xstr (xadd (refitY ns g) (off_y (groupLabelOffset g)))))) \<and>
   polishGroups ns d (g # gs) = polishGroups ns (polishGroup ns d g) gs \<and>
   document (polishLayout s)
     = polishGroups (nodes s) (fst (polishEdges (nodes s) (document s) (edges s))) (groups s)"
proof -
  have a: "groupMembers ns g = [] \<longrightarrow> polishGroup ns d g = d"
    by (simp add: polishGroup_eq)
  have b: "degenerate ns g \<longrightarrow> polishGroup ns d g = d"
    by (simp add: polishGroup_eq)
  have c: "polishGroup ns d g
             = groupWrites d g (refitX ns g) (refitY ns g) (refitWidth ns g) (refitHeight ns g)"
    if "groupMembers ns g \<noteq> []" "\<not> degenerate ns g"
    using that by (simp add: polishGroup_eq)
  show ?thesis
    using a b c groupWrites_outer[of g d] groupWrites_header[of g _ d] groupWrites_label[of g _ d]
      polishGroups_Cons[of ns d g gs] polishLayout_document[of s]
    by simp
qed

lemma demoGroup_refit:
  "groupMembers (nodes demoTracker) demoGroup = [demoNodeA]"
  "refitX (nodes demoTracker) demoGroup = Finite (- 5)"
  "refitY (nodes demoTracker) demoGroup = Finite (- 20)"
  "refitWidth (nodes demoTracker) demoGroup = Finite 20"
  "refitHeight (nodes demoTracker) demoGroup = Finite 35"
  "distinctParts demoGroup"
  "groupLabelOffset demoGroup = \<lparr>off_x = Finite 12, off_y = Finite (15 / 2)\<rparr>"
proof -
  show m: "groupMembers (nodes demoTracker) demoGroup = [demoNodeA]"
    by (simp add: groupMembers_def List.map_filter_def demoGroup_def demoTracker_simps)
  show "refitX (nodes demoTracker) demoGroup = Finite (- 5)"
    by (simp add: refitX_def m) (simp add: demoGroup_def demoNodeA_def xsub_def)
  show y: "refitY (nodes demoTracker) demoGroup = Finite (- 20)"
    by (simp add: refitY_def m) (simp add: demoGroup_def demoNodeA_def xsub_def)
  show "refitWidth (nodes demoTracker) demoGroup = Finite 20"
    by (simp add: refitWidth_def refitX_def m) (simp add: demoGroup_def demoNodeA_def xsub_def)
  show "refitHeight (nodes demoTracker) demoGroup = Finite 35"
    by (simp add: refitHeight_def refitY_def m) (simp add: demoGroup_def demoNodeA_def xsub_def)
  show "distinctParts demoGroup" by (simp add: distinctParts_def demoGroup_def)
  show "groupLabelOffset demoGroup = \<lparr>off_x = Finite 12, off_y = Finite (15 / 2)\<rparr>"
    by (simp add: groupLabelOffset_def demoGroup_def)
qed

lemma demoGroup_unbounded:
  "groupMembers (nodes demoTracker)
     (demoGroup\<lparr>padding := (padding demoGroup)\<lparr>pad_left := Infinity\<rparr>\<rparr>) = [demoNodeA]"
  "refitX (nodes demoTracker)
     (demoGroup\<lparr>padding := (padding demoGroup)\<lparr>pad_left := Infinity\<rparr>\<rparr>) = NegInfinity"
  "refitWidth (nodes demoTracker)
     (demoGroup\<lparr>padding := (padding demoGroup)\<lparr>pad_left := Infinity\<rparr>\<rparr>) = Infinity"
  "degenerate (nodes demoTracker)
     (demoGroup\<lparr>padding := (padding demoGroup)\<lparr>pad_left := Infinity\<rparr>\<rparr>)"
proof -
  let ?g = "demoGroup\<lparr>padding := (padding demoGroup)\<lparr>pad_left := Infinity\<rparr>\<rparr>"
  show m: "groupMembers (nodes demoTracker) ?g = [demoNodeA]"
    by (simp add: groupMembers_def List.map_filter_def demoGroup_def demoTracker_simps)
  show x: "refitX (nodes demoTracker) ?g = NegInfinity"
    by (simp add: refitX_def m) (simp add: demoGroup_def demoNodeA_def xsub_def)
  show "refitWidth (nodes demoTracker) ?g = Infinity"
    by (simp add: refitWidth_def x m) (simp add: demoGroup_def demoNodeA_def xsub_def)
  show "degenerate (nodes demoTracker) ?g"
    by (simp add: degenerate_def x)
qed

theorem group_refit_witness:
  "getAttribute (polishGroup (nodes demoTracker) demoDocument demoGroup) 4 ''x'' = Some [Num (- 5)] \<and>
   getAttribute (polishGroup (nodes demoTracker) demoDocument demoGroup) 4 ''width'' = Some [Num 20] \<and>
   getAttribute (polishGroup (nodes demoTracker) demoDocument demoGroup) 5 ''height'' = Some [Num 15] \<and>
   getAttribute (polishGroup (nodes demoTracker) demoDocument demoGroup) 6 ''x'' = Some [Num 7] \<and>
   polishGroup (nodes demoTracker) demoDocument (demoGroup\<lparr>memberNodeIds := [''node-x'']\<rparr>)
     = demoDocument \<and>
   polishGroup (nodes demoTracker) demoDocument
       (demoGroup\<lparr>padding := (padding demoGroup)\<lparr>pad_left := Infinity\<rparr>\<rparr>)
     = demoDocument"
proof -
  have h: "groupMembers (nodes demoTracker) demoGroup \<noteq> [] \<and>
           \<not> degenerate (nodes demoTracker) demoGroup \<and> distinctParts demoGroup"
    by (simp add: demoGroup_refit degenerate_def)
  have p: "headerRect demoGroup = Some 5" "groupLabelElement demoGroup = Some 6"
    "outerRect demoGroup = 4" "headerHeight demoGroup = Finite 15"
    by (simp_all add: demoGroup_def)
  have e: "groupMembers (nodes demoTracker) (demoGroup\<lparr>memberNodeIds := [''node-x'']\<rparr>) = []"
    by (simp add: groupMembers_def List.map_filter_def demoTracker_simps)
  show ?thesis
    using group_refit[of "nodes demoTracker" demoGroup demoDocument "[]" demoTracker]
      group_refit[of "nodes demoTracker" "demoGroup\<lparr>memberNodeIds := [''node-x'']\<rparr>" demoDocument "[]" demoTracker]
      group_refit[of "nodes demoTracker" "demoGroup\<lparr>padding := (padding demoGroup)\<lparr>pad_left := Infinity\<rparr>\<rparr>" demoDocument "[]" demoTracker]
      h p e demoGroup_unbounded(4)
    by (simp add: demoGroup_refit)
qed

subsection \<open>Elements with a transform of their own, and collapsed paths\<close>

lemma actorTracker_simps:
  "nodes actorTracker = [(''node-a'', demoNodeA), (''node-b'', demoNodeB)]"
  "edges actorTracker = [demoEdge 2]"
  "document actorTracker = actorDocument"
  by (simp_all add: actorTracker_def newTracker_def demoNodeA_def demoNodeB_def)

lemma move_first:
  "nodes s = [(a, na), (b, nb)] \<Longrightarrow>
   nodes (moveNodes s [(a, p)]) = [(a, na\<lparr>nodeX := px p, nodeY := py p\<rparr>), (b, nb)]"
  by (simp add: updateNodePosition_def)

lemma move_second:
  "nodes s = [(a, na), (b, nb)] \<Longrightarrow> a \<noteq> b \<Longrightarrow>
   nodes (moveNodes s [(b, p)]) = [(a, na), (b, nb\<lparr>nodeX := px p, nodeY := py p\<rparr>)]"
  by (simp add: updateNodePosition_def)

lemma demo_collapse_edge:
  "edges (polishLayout (runOps [Move ''node-b'' 10 0, Apply] demoTracker))
     = [(demoEdge 2)\<lparr>points := [\<lparr>px = 10, py = 5\<rparr>]\<rparr>]"
proof -
  let ?s1 = "snd (updateNodePosition demoTracker ''node-b'' 10 0)"
  have n: "nodes ?s1 = [(''node-a'', demoNodeA), (''node-b'', demoNodeB\<lparr>nodeX := 10, nodeY := 0\<rparr>)]"
    by (simp add: demoTracker_simps updateNodePosition_def)
  have e1: "edgeStep (nodes ?s1) demoDocument (demoEdge 2)
     = (demoEdge 2)\<lparr>points := [\<lparr>px = 10, py = 5\<rparr>, \<lparr>px = 10, py = 5\<rparr>]\<rparr>"
    by (simp add: n edgeStep_def updateEdgeEndpoints_def maintainOrthogonalEdge_def Let_def
          demoEdge_def demoDocument_def nodeCenter_def demoNodeA_def demoNodeB_def)
  have e2: "edges (applyPositionUpdates ?s1) = [(demoEdge 2)\<lparr>points := [\<lparr>px = 10, py = 5\<rparr>, \<lparr>px = 10, py = 5\<rparr>]\<rparr>]"
    by (simp add: applyPositionUpdates_edges demoTracker_simps e1)
  show ?thesis
    apply (simp add: runOps_def polishLayout_edges e2 n)
    apply (simp add: polishStep_def recomputeEdgeHints_def edgeStep_def updateEdgeEndpoints_def maintainOrthogonalEdge_def Let_def
          demoEdge_def demoTracker_simps demoDocument_def nodeCenter_def demoNodeA_def demoNodeB_def simplify2 closeTo_def)
    done
qed

lemma actor_pass:
  assumes n: "nodes s = [(''node-a'', a), (''node-b'', b)]"
    and el: "elements a = [0]" "elements b = [1]"
    and e: "edges s = [e0]" "labelElement e0 = None" "labelBackground e0 = None" "decorations e0 = None"
  shows "getAttribute (document (applyPositionUpdates s)) 0 ''data-original-transform''
           = storedAfter (nodeDelta a) (getAttribute (document s) 0 ''transform'')
                         (getAttribute (document s) 0 ''data-original-transform'')"
    and "getAttribute (document (applyPositionUpdates s)) 0 ''transform''
           = written (nodeDelta a) (storedAfter (nodeDelta a) (getAttribute (document s) 0 ''transform'')
                         (getAttribute (document s) 0 ''data-original-transform''))"
proof -
  have h: "(''node-a'', a) \<in> set (nodes s)" "0 \<in> set (elements (snd (''node-a'', a)))"
    "\<forall>q \<in> set (nodes s). 0 \<in> set (elements (snd q)) \<longrightarrow> nodeDelta (snd q) = nodeDelta (snd (''node-a'', a))"
    "\<forall>e \<in> set (edges s). labelElement e \<noteq> Some 0 \<and> labelBackground e \<noteq> Some 0 \<and>
             (\<forall>decos. decorations e = Some decos \<longrightarrow> 0 \<notin> deco_element ` set decos)"
    unfolding n e by (simp_all add: el e)
  from node_transform_core[OF h]
  show "getAttribute (document (applyPositionUpdates s)) 0 ''data-original-transform''
           = storedAfter (nodeDelta a) (getAttribute (document s) 0 ''transform'')
                         (getAttribute (document s) 0 ''data-original-transform'')"
    and "getAttribute (document (applyPositionUpdates s)) 0 ''transform''
           = written (nodeDelta a) (storedAfter (nodeDelta a) (getAttribute (document s) 0 ''transform'')
                         (getAttribute (document s) 0 ''data-original-transform''))"
    by (simp_all add: Let_def)
qed

text \<open>
  Claim C1. The claim fails on the code. Element 0 of \<open>actorTracker\<close> carries the transform
  \<open>rotate(45)\<close> and its node A has never been moved (delta \<open>(0, 0)\<close>). One
  \<open>applyPositionUpdates\<close>, alone or after B has been moved, removes the transform of the
  element: nothing is restored, as no original has been stored yet. Had A been moved
  first, the original would have been stored with the first translation, and moving A
  back restores it.
\<close>

theorem unmoved_element_loses_transform:
  "getAttribute (document actorTracker) 0 ''transform'' = Some (lit ''rotate(45)'') \<and>
   map (\<lambda>p. nodeDelta (snd p)) (nodes actorTracker) = [(0, 0), (0, 0)] \<and>
   getAttribute (document (applyPositionUpdates actorTracker)) 0 ''transform'' = None \<and>
   getAttribute (document (applyPositionUpdates
       (moveNodes actorTracker [(''node-b'', \<lparr>px = 150, py = 0\<rparr>)]))) 0 ''transform'' = None \<and>
   getAttribute (document (applyPositionUpdates
       (moveNodes actorTracker [(''node-a'', \<lparr>px = 50, py = 0\<rparr>)]))) 0 ''transform''
     = Some (lit ''rotate(45) '' @ translateStr 50 0) \<and>
   getAttribute (document (applyPositionUpdates (moveNodes (applyPositionUpdates
       (moveNodes actorTracker [(''node-a'', \<lparr>px = 50, py = 0\<rparr>)]))
          [(''node-a'', \<lparr>px = 0, py = 0\<rparr>)]))) 0 ''transform''
     = Some (lit ''rotate(45)'')"
proof -
  have g: "getAttribute actorDocument 0 ''transform'' = Some (lit ''rotate(45)'')"
    "getAttribute actorDocument 0 ''data-original-transform'' = None"
    by (simp_all add: getAttribute_def actorDocument_def)
  have el: "elements demoNodeA = [0]" "elements demoNodeB = [1]"
    "labelElement (demoEdge 2) = None" "labelBackground (demoEdge 2) = None" "decorations (demoEdge 2) = None"
    by (simp_all add: demoNodeA_def demoNodeB_def demoEdge_def)
  have c1: "getAttribute (document actorTracker) 0 ''transform'' = Some (lit ''rotate(45)'')"
    by (simp add: actorTracker_simps g)
  have c2: "map (\<lambda>p. nodeDelta (snd p)) (nodes actorTracker) = [(0, 0), (0, 0)]"
    by (simp add: actorTracker_simps nodeDelta_def demoNodeA_def demoNodeB_def)
  have c3: "getAttribute (document (applyPositionUpdates actorTracker)) 0 ''transform'' = None"
    using actor_pass(2)[of actorTracker demoNodeA demoNodeB "demoEdge 2"]
    by (simp add: actorTracker_simps el g nodeDelta_def demoNodeA_def storedAfter_def written_def truthy_def)
  let ?sb = "moveNodes actorTracker [(''node-b'', \<lparr>px = 150, py = 0\<rparr>)]"
  have nb: "nodes ?sb = [(''node-a'', demoNodeA), (''node-b'', demoNodeB\<lparr>nodeX := 150, nodeY := 0\<rparr>)]"
    using move_second[OF actorTracker_simps(1), of "\<lparr>px = 150, py = 0\<rparr>"] by simp
  have c4: "getAttribute (document (applyPositionUpdates ?sb)) 0 ''transform'' = None"
    using actor_pass(2)[of ?sb demoNodeA "demoNodeB\<lparr>nodeX := 150, nodeY := 0\<rparr>" "demoEdge 2"]
    unfolding nb
    by (simp add: actorTracker_simps el g nodeDelta_def demoNodeA_def storedAfter_def written_def truthy_def)
  let ?sa = "moveNodes actorTracker [(''node-a'', \<lparr>px = 50, py = 0\<rparr>)]"
  have na: "nodes ?sa = [(''node-a'', demoNodeA\<lparr>nodeX := 50, nodeY := 0\<rparr>), (''node-b'', demoNodeB)]"
    using move_first[OF actorTracker_simps(1), of "\<lparr>px = 50, py = 0\<rparr>"] by simp
  have pa: "getAttribute (document (applyPositionUpdates ?sa)) 0 ''data-original-transform'' = Some (lit ''rotate(45)'')"
    "getAttribute (document (applyPositionUpdates ?sa)) 0 ''transform'' = Some (lit ''rotate(45) '' @ translateStr 50 0)"
    using actor_pass[of ?sa "demoNodeA\<lparr>nodeX := 50, nodeY := 0\<rparr>" demoNodeB "demoEdge 2"]
    unfolding na
    by (simp_all add: actorTracker_simps el g nodeDelta_def demoNodeA_def storedAfter_def written_def truthy_def orEmpty_def lit_def)
  let ?s2 = "moveNodes (applyPositionUpdates ?sa) [(''node-a'', \<lparr>px = 0, py = 0\<rparr>)]"
  have na': "nodes (applyPositionUpdates ?sa) = [(''node-a'', demoNodeA\<lparr>nodeX := 50, nodeY := 0\<rparr>), (''node-b'', demoNodeB)]"
    unfolding applyPositionUpdates_nodes by (rule na)
  have n2: "nodes ?s2 = [(''node-a'', demoNodeA\<lparr>nodeX := 0, nodeY := 0\<rparr>), (''node-b'', demoNodeB)]"
    using move_first[OF na', of "\<lparr>px = 0, py = 0\<rparr>"] by simp
  have e2: "\<exists>e0. edges ?s2 = [e0] \<and> labelElement e0 = None \<and> labelBackground e0 = None \<and> decorations e0 = None"
    by (simp add: applyPositionUpdates_edges actorTracker_simps el)
  then obtain e0 where e0: "edges ?s2 = [e0]" "labelElement e0 = None" "labelBackground e0 = None" "decorations e0 = None"
    by blast
  have c6: "getAttribute (document (applyPositionUpdates ?s2)) 0 ''transform'' = Some (lit ''rotate(45)'')"
    using actor_pass(2)[of ?s2 "demoNodeA\<lparr>nodeX := 0, nodeY := 0\<rparr>" demoNodeB e0, OF n2 _ _ e0]
    unfolding moveNodes_document pa
    by (simp add: el nodeDelta_def demoNodeA_def storedAfter_def written_def truthy_def lit_def)
  show ?thesis using c1 c2 c3 c4 pa(2) c6 by blast
qed

text \<open>
  The claim as stated fails for an edge whose path a polish pass has collapsed to one
  point: \<open>updateEdgeEndpoints\<close> returns at once for it. B is moved onto A so that the two
  endpoints of the connector coincide, the polish pass leaves the single point (10, 5),
  and when B is then moved to (100, 50) the path is still that point, while the centre
  of B plus the cached target offset is (100, 55).
\<close>

theorem collapsed_edge_left_behind:
  "sourceNodeId (edges (applyPositionUpdates (moveNodes
       (polishLayout (runOps [Move ''node-b'' 10 0, Apply] demoTracker))
       [(''node-b'', \<lparr>px = 100, py = 50\<rparr>)])) ! 0) = Some ''node-a'' \<and>
   targetNodeId (edges (applyPositionUpdates (moveNodes
       (polishLayout (runOps [Move ''node-b'' 10 0, Apply] demoTracker))
       [(''node-b'', \<lparr>px = 100, py = 50\<rparr>)])) ! 0) = Some ''node-b'' \<and>
   targetOffset (edges (applyPositionUpdates (moveNodes
       (polishLayout (runOps [Move ''node-b'' 10 0, Apply] demoTracker))
       [(''node-b'', \<lparr>px = 100, py = 50\<rparr>)])) ! 0) = Some \<lparr>px = - 5, py = 0\<rparr> \<and>
   map_of (nodes (applyPositionUpdates (moveNodes
       (polishLayout (runOps [Move ''node-b'' 10 0, Apply] demoTracker))
       [(''node-b'', \<lparr>px = 100, py = 50\<rparr>)]))) ''node-b''
     = Some (demoNodeB\<lparr>nodeX := 100, nodeY := 50\<rparr>) \<and>
   addPoint (nodeCenter (demoNodeB\<lparr>nodeX := 100, nodeY := 50\<rparr>)) \<lparr>px = - 5, py = 0\<rparr>
     = \<lparr>px = 100, py = 55\<rparr> \<and>
   last (points (edges (applyPositionUpdates (moveNodes
       (polishLayout (runOps [Move ''node-b'' 10 0, Apply] demoTracker))
       [(''node-b'', \<lparr>px = 100, py = 50\<rparr>)])) ! 0)) = \<lparr>px = 10, py = 5\<rparr>"
proof -
  let ?p = "polishLayout (runOps [Move ''node-b'' 10 0, Apply] demoTracker)"
  let ?s = "moveNodes ?p [(''node-b'', \<lparr>px = 100, py = 50\<rparr>)]"
  have n0: "nodes ?p = [(''node-a'', demoNodeA), (''node-b'', demoNodeB\<lparr>nodeX := 10, nodeY := 0\<rparr>)]"
    by (simp add: runOps_def demoTracker_simps updateNodePosition_def)
  have n: "nodes ?s = [(''node-a'', demoNodeA), (''node-b'', demoNodeB\<lparr>nodeX := 100, nodeY := 50\<rparr>)]"
    using move_second[OF n0, of "\<lparr>px = 100, py = 50\<rparr>"] by simp
  have ed: "edges ?p = [(demoEdge 2)\<lparr>points := [\<lparr>px = 10, py = 5\<rparr>]\<rparr>]" by (rule demo_collapse_edge)
  have len: "length (edges ?p) = 1" "points (edges ?p ! 0) = [\<lparr>px = 10, py = 5\<rparr>]"
    unfolding ed by simp_all
  have ids: "sourceNodeId (edges ?p ! 0) = Some ''node-a''" "targetNodeId (edges ?p ! 0) = Some ''node-b''"
    "targetOffset (edges ?p ! 0) = Some \<lparr>px = - 5, py = 0\<rparr>"
    unfolding ed by (simp_all add: demoEdge_def)
  have st: "edges (applyPositionUpdates ?s) ! 0 = edges ?p ! 0"
    using len
    by (simp add: applyPositionUpdates_edges edgeStep_def updateEdgeEndpoints_def maintain_short)
  show ?thesis
    unfolding st
    using ids len n by (simp add: addPoint_def nodeCenter_def demoNodeB_def)
qed

text \<open>
  Claim C9. The claim fails on the code. The connector of \<open>demoTracker\<close> has two points.
  B is moved next to A, to (10, 0), so that both endpoints come to (10, 5): the path
  still has two points after \<open>applyPositionUpdates\<close>, \<open>simplifyPoints\<close> drops the second
  as a duplicate of the first, and the polish pass leaves a path of one point.
\<close>

theorem polish_collapses_path:
  "length (points (edges demoTracker ! 0)) = 2 \<and>
   points (edges (runOps [Move ''node-b'' 10 0, Apply] demoTracker) ! 0)
     = [\<lparr>px = 10, py = 5\<rparr>, \<lparr>px = 10, py = 5\<rparr>] \<and>
   simplifyPoints [\<lparr>px = 10, py = 5\<rparr>, \<lparr>px = 10, py = 5\<rparr>] = [\<lparr>px = 10, py = 5\<rparr>] \<and>
   points (edges (polishLayout (runOps [Move ''node-b'' 10 0, Apply] demoTracker)) ! 0)
     = [\<lparr>px = 10, py = 5\<rparr>]"
proof -
  let ?s1 = "snd (updateNodePosition demoTracker ''node-b'' 10 0)"
  have n: "nodes ?s1 = [(''node-a'', demoNodeA), (''node-b'', demoNodeB\<lparr>nodeX := 10, nodeY := 0\<rparr>)]"
    by (simp add: demoTracker_simps updateNodePosition_def)
  have e1: "edgeStep (nodes ?s1) demoDocument (demoEdge 2)
     = (demoEdge 2)\<lparr>points := [\<lparr>px = 10, py = 5\<rparr>, \<lparr>px = 10, py = 5\<rparr>]\<rparr>"
    by (simp add: n edgeStep_def updateEdgeEndpoints_def maintainOrthogonalEdge_def Let_def
          demoEdge_def demoDocument_def nodeCenter_def demoNodeA_def demoNodeB_def)
  have e2: "edges (applyPositionUpdates ?s1) = [(demoEdge 2)\<lparr>points := [\<lparr>px = 10, py = 5\<rparr>, \<lparr>px = 10, py = 5\<rparr>]\<rparr>]"
    by (simp add: applyPositionUpdates_edges demoTracker_simps e1)
  have a: "length (points (edges demoTracker ! 0)) = 2"
    by (simp add: demoTracker_simps demoEdge_def)
  have b: "points (edges (runOps [Move ''node-b'' 10 0, Apply] demoTracker) ! 0)
     = [\<lparr>px = 10, py = 5\<rparr>, \<lparr>px = 10, py = 5\<rparr>]"
    by (simp add: runOps_def e2)
  have c: "simplifyPoints [\<lparr>px = 10, py = 5\<rparr>, \<lparr>px = 10, py = 5\<rparr>] = [\<lparr>px = 10, py = 5\<rparr>]"
    by (simp add: simplify2 closeTo_def)
  show ?thesis using a b c demo_collapse by blast
qed

subsection \<open>Rectilinear paths through the polish pass\<close>

lemma strict_snoc:
  "acc \<noteq> [] \<Longrightarrow>
   strictlyRectilinear (acc @ [c]) = (strictlyRectilinear acc \<and> axisSegment (last acc) c)"
  by (induction acc rule: strictlyRectilinear.induct) auto

lemma orthogonal_snoc:
  "acc \<noteq> [] \<Longrightarrow>
   orthogonalPath (acc @ [c])
     = (orthogonalPath acc \<and> (\<bar>px (last acc) - px c\<bar> < 1 \<or> \<bar>py (last acc) - py c\<bar> < 1))"
  by (induction acc rule: orthogonalPath.induct) auto

lemma axisSegment_far: "axisSegment a b \<Longrightarrow> \<not> closeTo b a"
  unfolding axisSegment_def closeTo_def
  using abs_minus_commute[of "py a" "py b"] abs_minus_commute[of "px a" "px b"] by auto

lemma closeTo_refl: "closeTo a a"
  by (simp add: closeTo_def)

lemma strict_orthogonal: "strictlyRectilinear ps \<Longrightarrow> orthogonalPath ps"
  by (induction ps rule: strictlyRectilinear.induct) (auto simp: axisSegment_def)

lemma dedupe_strict:
  assumes "rectilinear (last acc # rest)" "strictlyRectilinear acc" "acc \<noteq> []"
  shows "strictlyRectilinear (dedupeLoop acc rest)"
  using assms
proof (induction rest arbitrary: acc)
  case Nil
  then show ?case by simp
next
  case (Cons c rest)
  from Cons.prems(1) have seg: "last acc = c \<or> axisSegment (last acc) c"
    and r: "rectilinear (c # rest)" by simp_all
  show ?case
  proof (cases "closeTo c (last acc)")
    case True
    then have eq: "last acc = c" using seg axisSegment_far by blast
    have "strictlyRectilinear (dedupeLoop acc rest)"
      using Cons.IH[of acc] r Cons.prems(2,3) eq by simp
    then show ?thesis using True by (simp add: dedupeLoop_Cons del: dedupeLoop.simps)
  next
    case False
    then have ax: "axisSegment (last acc) c" using seg closeTo_refl by auto
    have "strictlyRectilinear (dedupeLoop (acc @ [c]) rest)"
      using Cons.IH[of "acc @ [c]"] r Cons.prems(2,3) ax by (simp add: strict_snoc)
    then show ?thesis using False by (simp add: dedupeLoop_Cons del: dedupeLoop.simps)
  qed
qed

lemma collinear_orthogonal:
  assumes "strictlyRectilinear (b # rest)" "orthogonalPath (out @ [b])" "out \<noteq> []"
  shows "orthogonalPath (collinearLoop out (b # rest) @ [last (b # rest)])"
  using assms
proof (induction rest arbitrary: out b)
  case Nil
  then show ?case by simp
next
  case (Cons c rest)
  from Cons.prems(1) have bc: "axisSegment b c" and r: "strictlyRectilinear (c # rest)" by simp_all
  from Cons.prems(2,3) have o: "orthogonalPath out"
    and ab: "\<bar>px (last out) - px b\<bar> < 1 \<or> \<bar>py (last out) - py b\<bar> < 1"
    by (simp_all add: orthogonal_snoc)
  let ?sameX = "\<bar>px (last out) - px b\<bar> < 1 \<and> \<bar>px b - px c\<bar> < 1"
  let ?sameY = "\<bar>py (last out) - py b\<bar> < 1 \<and> \<bar>py b - py c\<bar> < 1"
  show ?case
  proof (cases "?sameX \<or> ?sameY")
    case True
    have ac: "\<bar>px (last out) - px c\<bar> < 1 \<or> \<bar>py (last out) - py c\<bar> < 1"
      using True bc by (auto simp: axisSegment_def)
    have "orthogonalPath (out @ [c])" using o ac Cons.prems(3) by (simp add: orthogonal_snoc)
    from Cons.IH[OF r this Cons.prems(3)]
    have "orthogonalPath (collinearLoop out (c # rest) @ [last (b # c # rest)])" by simp
    moreover have "collinearLoop out (b # c # rest) = collinearLoop out (c # rest)"
      using True by (auto simp add: Let_def)
    ultimately show ?thesis by simp
  next
    case False
    have "\<bar>px b - px c\<bar> < 1 \<or> \<bar>py b - py c\<bar> < 1" using bc by (auto simp: axisSegment_def)
    then have "orthogonalPath ((out @ [b]) @ [c])"
      using Cons.prems(2) orthogonal_snoc[of "out @ [b]" c] by simp
    from Cons.IH[OF r this]
    have "orthogonalPath (collinearLoop (out @ [b]) (c # rest) @ [last (b # c # rest)])" by simp
    moreover have "collinearLoop out (b # c # rest) = collinearLoop (out @ [b]) (c # rest)"
      using False by (auto simp add: Let_def)
    ultimately show ?thesis by simp
  qed
qed

lemma hd_dedupeLoop: "acc \<noteq> [] \<Longrightarrow> hd (dedupeLoop acc rest) = hd acc"
proof (induction rest arbitrary: acc)
  case (Cons c rest)
  then show ?case using Cons.IH[of acc] Cons.IH[of "acc @ [c]"]
    by (simp add: dedupeLoop_Cons del: dedupeLoop.simps)
qed simp

lemma simplify_rectilinear:
  assumes "rectilinear pts"
  shows "orthogonalPath (simplifyPoints pts)"
proof (cases "length pts < 2")
  case True
  then have "pts = [] \<or> (\<exists>a. pts = [a])" by (cases pts; cases "tl pts") auto
  then show ?thesis by (auto simp: simplifyPoints_def)
next
  case False
  then obtain a rest where p: "pts = a # rest" by (cases pts) auto
  let ?D = "dedupeLoop [a] rest"
  have s: "strictlyRectilinear ?D"
    using dedupe_strict[of "[a]" rest] assms p by simp
  show ?thesis
  proof (cases "length ?D < 3")
    case True
    then show ?thesis using False s p by (simp add: simplifyPoints_def strict_orthogonal)
  next
    case False
    then obtain d0 d1 ds where D: "?D = d0 # d1 # ds" "ds \<noteq> []"
      by (cases ?D; cases "tl ?D"; cases "tl (tl ?D)") auto
    have s1: "strictlyRectilinear (d1 # ds)" "axisSegment d0 d1" using s D by simp_all
    have o: "orthogonalPath ([d0] @ [d1])" using s1(2) by (auto simp: axisSegment_def)
    have l: "?D ! (length ?D - 1) = last (d1 # ds)"
      using D by (simp add: last_conv_nth)
    have "orthogonalPath (collinearLoop [d0] (d1 # ds) @ [last (d1 # ds)])"
      by (rule collinear_orthogonal[OF s1(1) o]) simp
    then show ?thesis
      using False \<open>\<not> length pts < 2\<close> p D l by (simp add: simplifyPoints_def Let_def)
  qed
qed

lemma edgeTracker_simps:
  "nodes (edgeTracker e) = [(''node-a'', demoNodeA), (''node-b'', demoNodeB)]"
  "edges (edgeTracker e) = [e]"
  "document (edgeTracker e) = demoDocument"
  by (simp_all add: edgeTracker_def newTracker_def demoNodeA_def demoNodeB_def)

lemma polish_points:
  "i < length (edges s) \<Longrightarrow>
   points (edges (polishLayout s) ! i)
     = simplifyPoints (points (edgeStep (nodes s) (document s) (edges s ! i)))"
  by (simp add: polishLayout_edges points_polishStep)

lemma moved_b:
  "nodes (runOps [Move ''node-b'' x y, Apply] (edgeTracker e))
     = [(''node-a'', demoNodeA), (''node-b'', demoNodeB\<lparr>nodeX := x, nodeY := y\<rparr>)]"
  by (simp add: runOps_def edgeTracker_simps updateNodePosition_def)

lemma moved_b_edges:
  "edges (runOps [Move ''node-b'' x y, Apply] (edgeTracker e))
     = [edgeStep [(''node-a'', demoNodeA), (''node-b'', demoNodeB\<lparr>nodeX := x, nodeY := y\<rparr>)]
          demoDocument e]"
proof -
  have n: "nodes (snd (updateNodePosition (edgeTracker e) ''node-b'' x y))
     = [(''node-a'', demoNodeA), (''node-b'', demoNodeB\<lparr>nodeX := x, nodeY := y\<rparr>)]"
    by (simp add: edgeTracker_simps updateNodePosition_def)
  show ?thesis
    by (simp add: runOps_def applyPositionUpdates_edges n edgeTracker_simps)
qed

lemma moved_b_path:
  "points (edges (polishLayout (runOps [Move ''node-b'' x y, Apply] (edgeTracker e))) ! 0)
     = simplifyPoints (points (edgeStep
          [(''node-a'', demoNodeA), (''node-b'', demoNodeB\<lparr>nodeX := x, nodeY := y\<rparr>)] demoDocument e))"
proof -
  let ?s = "runOps [Move ''node-b'' x y, Apply] (edgeTracker e)"
  let ?ns = "[(''node-a'', demoNodeA), (''node-b'', demoNodeB\<lparr>nodeX := x, nodeY := y\<rparr>)]"
  have t: "\<And>el. tagName (document ?s el) = tagName (demoDocument el)"
    by (simp add: runOps_def edgeTracker_simps)
  have "points (edges (polishLayout ?s) ! 0)
          = simplifyPoints (points (edgeStep ?ns (document ?s) (edgeStep ?ns demoDocument e)))"
    by (simp add: polish_points moved_b_edges moved_b)
  also have "edgeStep ?ns (document ?s) (edgeStep ?ns demoDocument e)
          = edgeStep ?ns demoDocument (edgeStep ?ns demoDocument e)"
    by (rule edgeStep_cong) (rule t)
  also have "\<dots> = edgeStep ?ns demoDocument e" by (rule edgeStep_idem)
  finally show ?thesis .
qed

lemma zEdge_step:
  "points (edgeStep [(''node-a'', demoNodeA), (''node-b'', demoNodeB\<lparr>nodeX := 100, nodeY := 50\<rparr>)]
      demoDocument zEdge)
     = [\<lparr>px = 10, py = 5\<rparr>, \<lparr>px = 55, py = 5\<rparr>, \<lparr>px = 55, py = 80\<rparr>, \<lparr>px = 100, py = 80\<rparr>]"
  by (simp add: edgeStep_def updateEdgeEndpoints_def maintainOrthogonalEdge_def Let_def
        zEdge_def demoEdge_def demoDocument_def nodeCenter_def demoNodeA_def demoNodeB_def)

lemma straightEdge_step:
  "points (edgeStep [(''node-a'', demoNodeA), (''node-b'', demoNodeB\<lparr>nodeX := 100, nodeY := 50\<rparr>)]
      demoDocument straightEdge)
     = [\<lparr>px = 10, py = 5\<rparr>, \<lparr>px = 55, py = 55\<rparr>, \<lparr>px = 100, py = 55\<rparr>]"
  by (simp add: edgeStep_def updateEdgeEndpoints_def maintainOrthogonalEdge_def Let_def
        straightEdge_def demoEdge_def demoDocument_def nodeCenter_def demoNodeA_def demoNodeB_def)

lemma stubEdge_step:
  "points (edgeStep [(''node-a'', demoNodeA), (''node-b'', demoNodeB)] demoDocument stubEdge)
     = [\<lparr>px = 5, py = 49.1\<rparr>, \<lparr>px = 5, py = 50\<rparr>, \<lparr>px = 105, py = 50\<rparr>, \<lparr>px = 105, py = 50.9\<rparr>]"
  by (simp add: edgeStep_def updateEdgeEndpoints_def maintainOrthogonalEdge_def Let_def
        stubEdge_def demoEdge_def demoDocument_def)

text \<open>
  Two polyline paths that the polish pass leaves diagonal. The straight path has the
  hints horizontal and horizontal, and its only interior point is snapped twice, first
  to the height of the start and then to the height of the end: after B has moved down
  by 50 the first segment runs from (10, 5) to (55, 55). The path with the two stubs is
  orthogonal as stored; the collinear step of \<open>simplifyPoints\<close> drops both corners, each
  within 1 of its neighbours in \<open>y\<close>, and joins (5, 49.1) to (105, 50.9).
\<close>

lemma polish_straight_polyline_diagonal:
  "points (edges (polishLayout (runOps [Move ''node-b'' 100 50, Apply] (edgeTracker straightEdge))) ! 0)
     = [\<lparr>px = 10, py = 5\<rparr>, \<lparr>px = 55, py = 55\<rparr>, \<lparr>px = 100, py = 55\<rparr>]"
  "\<not> orthogonalPath [\<lparr>px = 10, py = 5\<rparr>, \<lparr>px = 55, py = 55\<rparr>, \<lparr>px = 100, py = 55\<rparr>]"
  by (simp_all add: moved_b_path straightEdge_step simplify3 closeTo_def)

lemma polish_stub_polyline_diagonal:
  "orthogonalPath (points (edges (edgeTracker stubEdge) ! 0))"
  "points (edges (polishLayout (edgeTracker stubEdge)) ! 0)
     = [\<lparr>px = 5, py = 49.1\<rparr>, \<lparr>px = 105, py = 50.9\<rparr>]"
  "\<not> orthogonalPath [\<lparr>px = 5, py = 49.1\<rparr>, \<lparr>px = 105, py = 50.9\<rparr>]"
proof -
  show "orthogonalPath (points (edges (edgeTracker stubEdge) ! 0))"
    by (simp add: edgeTracker_simps stubEdge_def)
  show "points (edges (polishLayout (edgeTracker stubEdge)) ! 0)
     = [\<lparr>px = 5, py = 49.1\<rparr>, \<lparr>px = 105, py = 50.9\<rparr>]"
    by (simp add: polish_points edgeTracker_simps stubEdge_step)
       (simp add: simplifyPoints_def Let_def)
  show "\<not> orthogonalPath [\<lparr>px = 5, py = 49.1\<rparr>, \<lparr>px = 105, py = 50.9\<rparr>]"
    by simp
qed



subsection \<open>Identifiers and edges of the reconstruction\<close>

lemma reset_counter: "(p :: SvgParser)\<lparr>edgeCounter := 0\<rparr> = \<lparr>edgeCounter = 0\<rparr>"
  by (cases p) simp

lemma parse_any_parser: "parse p doc = parse p' doc"
  by (simp add: parse_def reset_counter)

lemma createEdge_facts:
  "edgeId (fst (createEdge p el pts ns)) = ''edge-'' @ showNat (edgeCounter p)"
  "edgeCounter (snd (createEdge p el pts ns)) = Suc (edgeCounter p)"
  "points (fst (createEdge p el pts ns)) = pts"
  by (simp_all add: createEdge_def Let_def)

lemma upt_snoc_ids:
  "a \<le> b \<Longrightarrow> map f [a..<b] @ [f b] = map f [a..<Suc b]"
  by simp

lemma polylineLoop_ids:
  "map edgeId (fst (polylineLoop p pls ns acc))
     = map edgeId acc @ map (\<lambda>k. ''edge-'' @ showNat k)
                          [edgeCounter p..<edgeCounter (snd (polylineLoop p pls ns acc))] \<and>
   edgeCounter p \<le> edgeCounter (snd (polylineLoop p pls ns acc))"
proof (induction pls arbitrary: p acc)
  case Nil
  show ?case by simp
next
  case (Cons pl pls)
  show ?case
  proof (cases "length (pl_points pl) < 2")
    case True
    then show ?thesis using Cons[of p acc] by simp
  next
    case False
    obtain e p1 where c: "createEdge p (pl_element pl) (pl_points pl) ns = (e, p1)"
      by (cases "createEdge p (pl_element pl) (pl_points pl) ns")
    have e: "edgeId e = ''edge-'' @ showNat (edgeCounter p)" "edgeCounter p1 = Suc (edgeCounter p)"
      using createEdge_facts(1,2)[of p "pl_element pl" "pl_points pl" ns] c by simp_all
    have le: "Suc (edgeCounter p) \<le> edgeCounter (snd (polylineLoop p1 pls ns (acc @ [e])))"
      using Cons[of p1 "acc @ [e]"] e by simp
    have "[edgeCounter p..<edgeCounter (snd (polylineLoop p1 pls ns (acc @ [e])))]
            = edgeCounter p # [Suc (edgeCounter p)..<edgeCounter (snd (polylineLoop p1 pls ns (acc @ [e])))]"
      using le by (simp add: upt_conv_Cons)
    then show ?thesis using Cons[of p1 "acc @ [e]"] False c e le by simp
  qed
qed

lemma lineLoop_ids:
  "map edgeId (fst (lineLoop p ls ns acc))
     = map edgeId acc @ map (\<lambda>k. ''edge-'' @ showNat k)
                          [edgeCounter p..<edgeCounter (snd (lineLoop p ls ns acc))] \<and>
   edgeCounter p \<le> edgeCounter (snd (lineLoop p ls ns acc))"
proof (induction ls arbitrary: p acc)
  case Nil
  show ?case by simp
next
  case (Cons l ls)
  show ?case
  proof (cases "ln_marker l")
    case False
    then show ?thesis using Cons[of p acc] by simp
  next
    case True
    obtain e p1 where c: "createEdge p (ln_element l) (parseLinePoints l) ns = (e, p1)"
      by (cases "createEdge p (ln_element l) (parseLinePoints l) ns")
    have e: "edgeId e = ''edge-'' @ showNat (edgeCounter p)" "edgeCounter p1 = Suc (edgeCounter p)"
      using createEdge_facts(1,2)[of p "ln_element l" "parseLinePoints l" ns] c by simp_all
    have le: "Suc (edgeCounter p) \<le> edgeCounter (snd (lineLoop p1 ls ns (acc @ [e])))"
      using Cons[of p1 "acc @ [e]"] e by simp
    have "[edgeCounter p..<edgeCounter (snd (lineLoop p1 ls ns (acc @ [e])))]
            = edgeCounter p # [Suc (edgeCounter p)..<edgeCounter (snd (lineLoop p1 ls ns (acc @ [e])))]"
      using le by (simp add: upt_conv_Cons)
    then show ?thesis using Cons[of p1 "acc @ [e]"] True c e le by simp
  qed
qed

lemma parseEdges_ids:
  "map edgeId (fst (parseEdges p doc ns))
     = map (\<lambda>k. ''edge-'' @ showNat k) [edgeCounter p..<edgeCounter (snd (parseEdges p doc ns))] \<and>
   edgeCounter p \<le> edgeCounter (snd (parseEdges p doc ns))"
proof -
  obtain es1 p1 where a: "polylineLoop p (doc_polylines doc) ns [] = (es1, p1)"
    by (cases "polylineLoop p (doc_polylines doc) ns []")
  have 1: "map edgeId es1 = map (\<lambda>k. ''edge-'' @ showNat k) [edgeCounter p..<edgeCounter p1]"
    "edgeCounter p \<le> edgeCounter p1"
    using polylineLoop_ids[of p "doc_polylines doc" ns "[]"] a by simp_all
  have 2: "map edgeId (fst (lineLoop p1 (doc_lines doc) ns es1))
     = map edgeId es1 @ map (\<lambda>k. ''edge-'' @ showNat k)
                          [edgeCounter p1..<edgeCounter (snd (lineLoop p1 (doc_lines doc) ns es1))]"
    "edgeCounter p1 \<le> edgeCounter (snd (lineLoop p1 (doc_lines doc) ns es1))"
    using lineLoop_ids[of p1 "doc_lines doc" ns es1] by simp_all
  have "[edgeCounter p..<edgeCounter (snd (lineLoop p1 (doc_lines doc) ns es1))]
          = [edgeCounter p..<edgeCounter p1] @ [edgeCounter p1..<edgeCounter (snd (lineLoop p1 (doc_lines doc) ns es1))]"
    using 1(2) 2(2) by (metis le_Suc_ex upt_add_eq_append)
  then show ?thesis
    using 1 2 by (simp add: parseEdges_def a)
qed

lemma parse_edge_ids:
  "map edgeId (pr_edges (fst (parse p doc)))
     = map (\<lambda>k. ''edge-'' @ showNat k) [0..<length (pr_edges (fst (parse p doc)))]"
proof -
  let ?ns = "parseNodes doc"
  let ?r = "parseEdges \<lparr>edgeCounter = 0\<rparr> doc ?ns"
  have e: "pr_edges (fst (parse p doc)) = fst ?r"
    by (cases ?r) (simp add: parse_def reset_counter Let_def)
  have i: "map edgeId (fst ?r) = map (\<lambda>k. ''edge-'' @ showNat k) [0..<edgeCounter (snd ?r)]"
    using parseEdges_ids[of "\<lparr>edgeCounter = 0\<rparr>" doc ?ns] by simp
  have "length (map edgeId (fst ?r)) = edgeCounter (snd ?r)" unfolding i by simp
  then have "length (fst ?r) = edgeCounter (snd ?r)" by simp
  then show ?thesis unfolding e using i by simp
qed

lemma createNode_id:
  "createNodeFromShapeGroup grp texts = Some n \<Longrightarrow>
   nodeId n = generateNodeId \<lparr>bb_x = originalX n, bb_y = originalY n,
                               bb_width = width n, bb_height = height n\<rparr> (nodeLabel n)"
  by (auto simp: createNodeFromShapeGroup_def generateNodeId_def Let_def split: if_splits option.splits)

lemma parse_node_ids:
  "map nodeId (pr_nodes (fst (parse p doc)))
     = map (\<lambda>n. generateNodeId \<lparr>bb_x = originalX n, bb_y = originalY n,
                                   bb_width = width n, bb_height = height n\<rparr> (nodeLabel n))
           (pr_nodes (fst (parse p doc)))"
proof -
  have n: "pr_nodes (fst (parse p doc)) = parseNodes doc"
    by (cases "parseEdges \<lparr>edgeCounter = 0\<rparr> doc (parseNodes doc)")
       (simp add: parse_def reset_counter Let_def)
  have "\<And>x. x \<in> set (parseNodes doc) \<Longrightarrow>
          nodeId x = generateNodeId \<lparr>bb_x = originalX x, bb_y = originalY x,
                               bb_width = width x, bb_height = height x\<rparr> (nodeLabel x)"
    by (auto simp: parseNodes_def List.map_filter_def dest: createNode_id)
  then show ?thesis unfolding n by (intro map_cong) auto
qed

lemma parseGroup_id:
  "parseGroup hs texts ns outer = Some g \<Longrightarrow>
   \<exists>l. groupId g = generateGroupId \<lparr>bb_x = finiteValue (groupOriginalX g),
                                     bb_y = finiteValue (groupOriginalY g),
                                     bb_width = finiteValue (groupOriginalWidth g),
                                     bb_height = finiteValue (groupOriginalHeight g)\<rparr> l"
  by (auto simp: parseGroup_def Let_def split: if_splits)

lemma parse_group_ids:
  "\<forall>g \<in> set (pr_groups (fst (parse p doc))).
     \<exists>l. groupId g = generateGroupId \<lparr>bb_x = finiteValue (groupOriginalX g),
                                       bb_y = finiteValue (groupOriginalY g),
                                       bb_width = finiteValue (groupOriginalWidth g),
                                       bb_height = finiteValue (groupOriginalHeight g)\<rparr> l"
proof -
  have n: "pr_groups (fst (parse p doc)) = parseGroups doc (parseNodes doc)"
    by (cases "parseEdges \<lparr>edgeCounter = 0\<rparr> doc (parseNodes doc)")
       (simp add: parse_def reset_counter Let_def)
  show ?thesis unfolding n
    by (auto simp: parseGroups_def List.map_filter_def Let_def dest: parseGroup_id)
qed

lemma polylineLoop_points:
  "\<forall>e \<in> set acc. 2 \<le> length (points e) \<Longrightarrow>
   \<forall>e \<in> set (fst (polylineLoop p pls ns acc)). 2 \<le> length (points e)"
proof (induction pls arbitrary: p acc)
  case Nil
  then show ?case by simp
next
  case (Cons pl pls)
  show ?case
  proof (cases "length (pl_points pl) < 2")
    case True
    then show ?thesis using Cons.IH[OF Cons.prems] by simp
  next
    case False
    obtain e p1 where c: "createEdge p (pl_element pl) (pl_points pl) ns = (e, p1)"
      by (cases "createEdge p (pl_element pl) (pl_points pl) ns")
    have "points e = pl_points pl"
      using createEdge_facts(3)[of p "pl_element pl" "pl_points pl" ns] c by simp
    then have "\<forall>x \<in> set (acc @ [e]). 2 \<le> length (points x)" using Cons.prems False by simp
    from Cons.IH[OF this] show ?thesis using False c by simp
  qed
qed

lemma lineLoop_points:
  "\<forall>e \<in> set acc. 2 \<le> length (points e) \<Longrightarrow>
   \<forall>e \<in> set (fst (lineLoop p ls ns acc)). 2 \<le> length (points e)"
proof (induction ls arbitrary: p acc)
  case Nil
  then show ?case by simp
next
  case (Cons l ls)
  show ?case
  proof (cases "ln_marker l")
    case False
    then show ?thesis using Cons.IH[OF Cons.prems] by simp
  next
    case True
    obtain e p1 where c: "createEdge p (ln_element l) (parseLinePoints l) ns = (e, p1)"
      by (cases "createEdge p (ln_element l) (parseLinePoints l) ns")
    have "points e = parseLinePoints l"
      using createEdge_facts(3)[of p "ln_element l" "parseLinePoints l" ns] c by simp
    then have "\<forall>x \<in> set (acc @ [e]). 2 \<le> length (points x)"
      using Cons.prems by (simp add: parseLinePoints_def)
    from Cons.IH[OF this] show ?thesis using True c by simp
  qed
qed

text \<open>Every edge that \<open>parse\<close> makes has at least two points.\<close>

lemma parse_edge_points:
  "\<forall>e \<in> set (pr_edges (fst (parse p doc))). 2 \<le> length (points e)"
proof -
  let ?ns = "parseNodes doc"
  obtain es1 p1 where a: "polylineLoop \<lparr>edgeCounter = 0\<rparr> (doc_polylines doc) ?ns [] = (es1, p1)"
    by (cases "polylineLoop \<lparr>edgeCounter = 0\<rparr> (doc_polylines doc) ?ns []")
  have 1: "\<forall>e \<in> set es1. 2 \<le> length (points e)"
    using polylineLoop_points[of "[]" "\<lparr>edgeCounter = 0\<rparr>" "doc_polylines doc" ?ns] a by simp
  have e: "pr_edges (fst (parse p doc)) = fst (lineLoop p1 (doc_lines doc) ?ns es1)"
    by (cases "lineLoop p1 (doc_lines doc) ?ns es1")
       (simp add: parse_def parseEdges_def reset_counter Let_def a)
  show ?thesis unfolding e by (rule lineLoop_points[OF 1])
qed

text \<open>
  Claim C6. The result of \<open>parse\<close> does not depend on the parser it starts from, so a
  second run on the same document, from the parser that the first run leaves, gives the
  same result, identifiers included. The edges are numbered \<open>edge-0\<close>, \<open>edge-1\<close>, ... in
  the order in which they are made; the identifier of a node is \<open>generateNodeId\<close> of its
  original box and its label, which hashes the rounded \<open>x\<close> and \<open>y\<close> and the label; the
  identifier of a group is \<open>generateGroupId\<close> of its original box and a label, which hashes
  the rounded \<open>x\<close>, \<open>y\<close>, width and height and the label.
\<close>

theorem parse_deterministic:
  "parse p doc = parse p' doc \<and>
   fst (parse (snd (parse p doc)) doc) = fst (parse p doc) \<and>
   map edgeId (pr_edges (fst (parse p doc)))
     = map (\<lambda>k. ''edge-'' @ showNat k) [0..<length (pr_edges (fst (parse p doc)))] \<and>
   map nodeId (pr_nodes (fst (parse p doc)))
     = map (\<lambda>n. generateNodeId \<lparr>bb_x = originalX n, bb_y = originalY n,
                                   bb_width = width n, bb_height = height n\<rparr> (nodeLabel n))
           (pr_nodes (fst (parse p doc))) \<and>
   (\<forall>g \<in> set (pr_groups (fst (parse p doc))).
      \<exists>l. groupId g = generateGroupId \<lparr>bb_x = finiteValue (groupOriginalX g),
                                        bb_y = finiteValue (groupOriginalY g),
                                        bb_width = finiteValue (groupOriginalWidth g),
                                        bb_height = finiteValue (groupOriginalHeight g)\<rparr> l)"
proof -
  have "fst (parse (snd (parse p doc)) doc) = fst (parse p doc)"
    using parse_any_parser[of "snd (parse p doc)" doc p] by simp
  then show ?thesis
    using parse_any_parser[of p doc p'] parse_edge_ids[of p doc] parse_node_ids[of p doc]
      parse_group_ids[of p doc]
    by blast
qed

lemma demoSvg_groups:
  "groupShapesByProximity (doc_candidateShapes demoSvg)
     = [[\<lparr>sh_element = 0, sh_box = \<lparr>bb_x = 0, bb_y = 0, bb_width = 10, bb_height = 10\<rparr>\<rparr>],
        [\<lparr>sh_element = 1, sh_box = \<lparr>bb_x = 100, bb_y = 0, bb_width = 10, bb_height = 10\<rparr>\<rparr>]]"
  by (simp add: groupShapesByProximity_def demoSvg_def Let_def)

lemma hashes:
  "simpleHash (ascii ''0,0,'' @ [65]) = ''r78ll''"
  "simpleHash (ascii ''100,0,'') = ''nyh6zb''"
  "simpleHash (ascii ''-5,-20,20,35,'' @ [71]) = ''rzplqy''"
  by (simp_all add: simpleHash_def ascii_def digit36_def)

lemma demoSvg_nodes:
  "parseNodes demoSvg
     = [\<lparr>nodeId = ''node-r78ll'', elements = [0, 7], nodeX = 0, nodeY = 0, width = 10,
         height = 10, nodeLabel = Some [65], originalX = 0, originalY = 0\<rparr>,
        \<lparr>nodeId = ''node-nyh6zb'', elements = [1], nodeX = 100, nodeY = 0, width = 10,
         height = 10, nodeLabel = None, originalX = 100, originalY = 0\<rparr>]"
proof -
  have a: "createNodeFromShapeGroup
             [\<lparr>sh_element = 0, sh_box = \<lparr>bb_x = 0, bb_y = 0, bb_width = 10, bb_height = 10\<rparr>\<rparr>]
             (doc_texts demoSvg)
     = Some \<lparr>nodeId = ''node-r78ll'', elements = [0, 7], nodeX = 0, nodeY = 0, width = 10,
         height = 10, nodeLabel = Some [65], originalX = 0, originalY = 0\<rparr>"
    using hashes(1)
    by (simp add: createNodeFromShapeGroup_def unionBBox_def pickNodeLabelElement_def
          pointInBBox_def generateNodeId_def mathRound_def showInt_def digit36_def ascii_def
          demoSvg_def Let_def)
  have b: "createNodeFromShapeGroup
             [\<lparr>sh_element = 1, sh_box = \<lparr>bb_x = 100, bb_y = 0, bb_width = 10, bb_height = 10\<rparr>\<rparr>]
             (doc_texts demoSvg)
     = Some \<lparr>nodeId = ''node-nyh6zb'', elements = [1], nodeX = 100, nodeY = 0, width = 10,
         height = 10, nodeLabel = None, originalX = 100, originalY = 0\<rparr>"
    using hashes(2)
    by (simp add: createNodeFromShapeGroup_def unionBBox_def pickNodeLabelElement_def
          pointInBBox_def generateNodeId_def mathRound_def showInt_def digit36_def ascii_def
          demoSvg_def Let_def)
  show ?thesis
    unfolding parseNodes_def demoSvg_groups
    by (simp only: map_filter_simps a b option.case)
qed

lemma demoSvg_edges:
  "map edgeId (fst (parseEdges \<lparr>edgeCounter = 0\<rparr> demoSvg (parseNodes demoSvg)))
     = [''edge-0'', ''edge-1'']"
  "map sourceNodeId (fst (parseEdges \<lparr>edgeCounter = 0\<rparr> demoSvg (parseNodes demoSvg)))
     = [Some ''node-r78ll'', Some ''node-r78ll'']"
  "map targetNodeId (fst (parseEdges \<lparr>edgeCounter = 0\<rparr> demoSvg (parseNodes demoSvg)))
     = [Some ''node-nyh6zb'', Some ''node-nyh6zb'']"
  "map points (fst (parseEdges \<lparr>edgeCounter = 0\<rparr> demoSvg (parseNodes demoSvg)))
     = [[\<lparr>px = 10, py = 5\<rparr>, \<lparr>px = 100, py = 5\<rparr>], [\<lparr>px = 10, py = 5\<rparr>, \<lparr>px = 100, py = 5\<rparr>]]"
  unfolding demoSvg_nodes
  by (simp_all add: parseEdges_def createEdge_def findNodeAtPoint_def parseLinePoints_def
        demoSvg_def digit36_def Let_def)

lemma demoSvg_group_ids:
  "map groupId (parseGroups demoSvg (parseNodes demoSvg)) = [''group-rzplqy'']"
  "map memberNodeIds (parseGroups demoSvg (parseNodes demoSvg)) = [[''node-r78ll'']]"
  unfolding demoSvg_nodes
  using hashes(3)
  by (simp_all add: parseGroups_def parseGroup_def pointInBBox_def generateGroupId_def
        mathRound_def showInt_def digit36_def ascii_def demoSvg_def Let_def List.map_filter_def)

lemma parse_parts:
  "pr_nodes (fst (parse p doc)) = parseNodes doc"
  "pr_edges (fst (parse p doc)) = fst (parseEdges \<lparr>edgeCounter = 0\<rparr> doc (parseNodes doc))"
  "pr_groups (fst (parse p doc)) = parseGroups doc (parseNodes doc)"
  by (cases "parseEdges \<lparr>edgeCounter = 0\<rparr> doc (parseNodes doc)";
      simp add: parse_def reset_counter Let_def)+

theorem parse_deterministic_witness:
  "map nodeId (pr_nodes (fst (parse \<lparr>edgeCounter = 7\<rparr> demoSvg))) = [''node-r78ll'', ''node-nyh6zb''] \<and>
   map edgeId (pr_edges (fst (parse \<lparr>edgeCounter = 7\<rparr> demoSvg))) = [''edge-0'', ''edge-1''] \<and>
   map groupId (pr_groups (fst (parse \<lparr>edgeCounter = 7\<rparr> demoSvg))) = [''group-rzplqy''] \<and>
   fst (parse (snd (parse \<lparr>edgeCounter = 7\<rparr> demoSvg)) demoSvg) = fst (parse \<lparr>edgeCounter = 7\<rparr> demoSvg) \<and>
   parse \<lparr>edgeCounter = 7\<rparr> demoSvg = parse \<lparr>edgeCounter = 0\<rparr> demoSvg"
proof -
  have a: "map nodeId (pr_nodes (fst (parse \<lparr>edgeCounter = 7\<rparr> demoSvg))) = [''node-r78ll'', ''node-nyh6zb'']"
    unfolding parse_parts demoSvg_nodes by simp
  have b: "map edgeId (pr_edges (fst (parse \<lparr>edgeCounter = 7\<rparr> demoSvg))) = [''edge-0'', ''edge-1'']"
    unfolding parse_parts by (rule demoSvg_edges(1))
  have c: "map groupId (pr_groups (fst (parse \<lparr>edgeCounter = 7\<rparr> demoSvg))) = [''group-rzplqy'']"
    unfolding parse_parts by (rule demoSvg_group_ids(1))
  have d: "fst (parse (snd (parse \<lparr>edgeCounter = 7\<rparr> demoSvg)) demoSvg) = fst (parse \<lparr>edgeCounter = 7\<rparr> demoSvg) \<and>
           parse \<lparr>edgeCounter = 7\<rparr> demoSvg = parse \<lparr>edgeCounter = 0\<rparr> demoSvg"
    using parse_deterministic[of "\<lparr>edgeCounter = 7\<rparr>" demoSvg "\<lparr>edgeCounter = 0\<rparr>"] by blast
  show ?thesis using a b c d by blast
qed

subsection \<open>The serializer\<close>

lemma update_new: "k \<notin> fst ` set al \<Longrightarrow> AList.update k v al = al @ [(k, v)]"
  by (induction al) auto

lemma parseProps_distinct:
  "distinct (map fst ps) \<Longrightarrow> fst ` set acc \<inter> fst ` set ps = {} \<Longrightarrow>
   parseProps acc ps = acc @ map (\<lambda>(k, t). (k, jsonParse t)) ps"
proof (induction ps arbitrary: acc)
  case Nil
  show ?case by simp
next
  case (Cons a ps)
  obtain k t where a: "a = (k, t)" by (cases a)
  have k: "k \<notin> fst ` set acc" using Cons.prems(2) a by auto
  have d: "distinct (map fst ps)" "k \<notin> fst ` set ps" using Cons.prems(1) a by auto
  have "fst ` set (acc @ [(k, jsonParse t)]) \<inter> fst ` set ps = {}"
    using Cons.prems(2) d(2) a by auto
  from Cons.IH[OF d(1) this] show ?case using k a by (simp add: update_new)
qed

lemma stringify_positions:
  "finitePositions positions \<Longrightarrow>
   stringifyProps (map (\<lambda>(ident, pos). (ident, JObject [(ascii ''x'', JNumber (pos_x pos)),
                                                          (ascii ''y'', JNumber (pos_y pos))])) positions)
     = map (\<lambda>(ident, pos). (ident, TObject [(ascii ''x'', TNumber (finiteValue (pos_x pos))),
                                              (ascii ''y'', TNumber (finiteValue (pos_y pos)))])) positions"
  by (induction positions) (auto simp: finitePositions_def)

lemma finite_back: "isFinite n \<Longrightarrow> Finite (finiteValue n) = n"
  by (cases n) simp_all

lemma parse_positions:
  assumes "distinct (map fst positions)" "finitePositions positions"
  shows "jsonParse (TObject (map (\<lambda>(ident, pos). (ident, TObject [(ascii ''x'', TNumber (finiteValue (pos_x pos))),
                                              (ascii ''y'', TNumber (finiteValue (pos_y pos)))])) positions))
           = positionsValue positions"
proof -
  let ?ps = "map (\<lambda>(ident, pos). (ident, TObject [(ascii ''x'', TNumber (finiteValue (pos_x pos))),
                                              (ascii ''y'', TNumber (finiteValue (pos_y pos)))])) positions"
  have f: "map fst ?ps = map fst positions" by (induction positions) auto
  have d: "distinct (map fst ?ps)" unfolding f by (rule assms(1))
  have xy: "ascii ''y'' \<noteq> ascii ''x''" by (simp add: ascii_def)
  have "map (\<lambda>(k, t). (k, jsonParse t)) ?ps
          = map (\<lambda>(ident, pos). (ident, JObject [(ascii ''x'', JNumber (pos_x pos)),
                                                     (ascii ''y'', JNumber (pos_y pos))])) positions"
    using assms(2) xy by (induction positions) (auto simp: finitePositions_def finite_back)
  then show ?thesis
    using parseProps_distinct[OF d, of "[]"] by (simp add: positionsValue_def)
qed

text \<open>
  Claim C5, as amended. For every position mapping whose coordinates are finite numbers,
  every source string, every diagram type or none, and every time of serialization,
  \<open>deserialize\<close> of the serialized layout returns the mapping itself, whatever source
  string it is given.
\<close>

theorem serialize_round_trip:
  assumes "distinct (map fst positions)" and "finitePositions positions"
  shows "deserialize (serialize now positions source diagramType) currentSource
           = Some (positionsValue positions)"
proof -
  have keys: "ascii ''version'' \<noteq> ascii ''positions''" "ascii ''source'' \<noteq> ascii ''positions''"
    "ascii ''timestamp'' \<noteq> ascii ''positions''" "ascii ''diagramType'' \<noteq> ascii ''positions''"
    "ascii ''source'' \<noteq> ascii ''version''" "ascii ''positions'' \<noteq> ascii ''source''"
    "ascii ''timestamp'' \<noteq> ascii ''version''" "ascii ''timestamp'' \<noteq> ascii ''source''"
    "ascii ''diagramType'' \<noteq> ascii ''version''" "ascii ''diagramType'' \<noteq> ascii ''source''"
    "ascii ''diagramType'' \<noteq> ascii ''timestamp''"
    by (simp_all add: ascii_def)
  have s: "jsonStringify (positionsValue positions)
             = Some (TObject (map (\<lambda>(ident, pos). (ident, TObject [(ascii ''x'', TNumber (finiteValue (pos_x pos))),
                                              (ascii ''y'', TNumber (finiteValue (pos_y pos)))])) positions))"
    using stringify_positions[OF assms(2)] by (simp add: positionsValue_def)
  show ?thesis
    using parse_positions[OF assms] keys
    by (cases diagramType)
       (simp_all add: deserialize_def serialize_def s getProperty_def Let_def)
qed

theorem serialize_round_trip_witness:
  "deserialize (serialize 1700000000000
       [(ascii ''node-a'', \<lparr>pos_x = Finite 50, pos_y = Finite 0\<rparr>),
        (ascii ''node-b'', \<lparr>pos_x = Finite 100, pos_y = Finite (- 12.5)\<rparr>)]
       (ascii ''graph TD'') None) (ascii ''graph LR'')
     = Some (positionsValue
       [(ascii ''node-a'', \<lparr>pos_x = Finite 50, pos_y = Finite 0\<rparr>),
        (ascii ''node-b'', \<lparr>pos_x = Finite 100, pos_y = Finite (- 12.5)\<rparr>)])"
  by (rule serialize_round_trip) (simp_all add: finitePositions_def ascii_def)

text \<open>
  The claim as stated fails for a coordinate that is not a finite number: JSON has no
  such numbers, \<open>JSON.stringify\<close> writes \<open>null\<close>, and the mapping that comes back holds
  \<open>null\<close> where the original holds \<open>NaN\<close>.
\<close>

theorem serialize_loses_nan:
  "deserialize (serialize 1700000000000
       [(ascii ''node-a'', \<lparr>pos_x = NaN, pos_y = Finite 0\<rparr>)]
       (ascii ''graph TD'') None) (ascii ''graph TD'')
     = Some (JObject [(ascii ''node-a'',
               JObject [(ascii ''x'', JNull), (ascii ''y'', JNumber (Finite 0))])]) \<and>
   deserialize (serialize 1700000000000
       [(ascii ''node-a'', \<lparr>pos_x = NaN, pos_y = Finite 0\<rparr>)]
       (ascii ''graph TD'') None) (ascii ''graph TD'')
     \<noteq> Some (positionsValue [(ascii ''node-a'', \<lparr>pos_x = NaN, pos_y = Finite 0\<rparr>)])"
  by (simp add: deserialize_def serialize_def positionsValue_def getProperty_def Let_def ascii_def)

end
